(* ===== verification/Prelude.thy ===== *)
theory Prelude
  imports Main "HOL-Library.Word" "HOL-Library.Monad_Syntax" "HOL-Library.Sublist"
begin

text \<open>
  Shared vocabulary of the development.

  \<^item> Names for the widths the Go code uses (\<open>byte\<close>, \<open>uint64\<close>, \<open>uint256.Int\<close>,
    \<open>common.Address\<close>, \<open>common.Hash\<close>). An address (\<open>[20]byte\<close>) is a 160-bit word and a hash
    (\<open>[32]byte\<close>) a 256-bit word, both read big-endian.
  \<^item> Go run-time operations that can panic (indexing, slicing, \<open>copy\<close> into a slice) as functions
    into \<open>option\<close>: \<open>None\<close> means that the Go program does not return from the call.
  \<^item> Big-endian conversion between words and byte strings.
  \<^item> The overflow-checked arithmetic of \<open>common/math/integer.go\<close>.
  \<^item> Generic lemmas on lists, options and words.
\<close>

type_synonym byte = "8 word"
type_synonym u64 = "64 word"
type_synonym u256 = "256 word"
type_synonym address = "160 word"
type_synonym hash = "256 word"
type_synonym bytes = "byte list"

named_theorems go_simps \<open>rewriting of Go run-time operations\<close>
named_theorems u64_simps \<open>unsigned readings of 64-bit arithmetic\<close>

section \<open>Go slices\<close>

text \<open>
  \<open>xs[i]\<close>, \<open>xs[lo:hi]\<close> and \<open>copy(xs[off:], src)\<close>. Go bounds a slice expression by the capacity;
  the model bounds it by the length, so that a result other than \<open>None\<close> is one for which no
  stale bytes beyond the length are read either.
\<close>

definition go_index :: "'a list \<Rightarrow> nat \<Rightarrow> 'a option" where
  "go_index xs i = (if i < length xs then Some (xs ! i) else None)"

definition go_update :: "'a list \<Rightarrow> nat \<Rightarrow> 'a \<Rightarrow> 'a list option" where
  "go_update xs i v = (if i < length xs then Some (xs[i := v]) else None)"

definition go_slice :: "'a list \<Rightarrow> nat \<Rightarrow> nat \<Rightarrow> 'a list option" where
  "go_slice xs lo hi =
     (if lo \<le> hi \<and> hi \<le> length xs then Some (take (hi - lo) (drop lo xs)) else None)"

definition overwrite :: "'a list \<Rightarrow> nat \<Rightarrow> 'a list \<Rightarrow> 'a list" where
  "overwrite xs off src =
     take off xs @ take (length xs - off) src @ drop (off + length src) xs"

definition go_copy_at :: "'a list \<Rightarrow> nat \<Rightarrow> 'a list \<Rightarrow> 'a list option" where
  "go_copy_at xs off src = (if off \<le> length xs then Some (overwrite xs off src) else None)"

lemma go_index_Some [go_simps]: "i < length xs \<Longrightarrow> go_index xs i = Some (xs ! i)"
  by (simp add: go_index_def)

lemma go_update_Some [go_simps]: "i < length xs \<Longrightarrow> go_update xs i v = Some (xs[i := v])"
  by (simp add: go_update_def)

lemma go_slice_Some [go_simps]:
  "lo \<le> hi \<Longrightarrow> hi \<le> length xs \<Longrightarrow> go_slice xs lo hi = Some (take (hi - lo) (drop lo xs))"
  by (simp add: go_slice_def)

lemma go_copy_at_Some [go_simps]:
  "off \<le> length xs \<Longrightarrow> go_copy_at xs off src = Some (overwrite xs off src)"
  by (simp add: go_copy_at_def)

lemma length_overwrite [simp]: "off \<le> length xs \<Longrightarrow> length (overwrite xs off src) = length xs"
  by (simp add: overwrite_def)

lemma nth_overwrite:
  assumes "off + length src \<le> length xs" and "i < length xs"
  shows "overwrite xs off src ! i =
    (if off \<le> i \<and> i < off + length src then src ! (i - off) else xs ! i)"
  using assms by (auto simp: overwrite_def nth_append min_def)

lemma slice_overwrite:
  assumes "off + length src \<le> length xs"
  shows "take (length src) (drop off (overwrite xs off src)) = src"
  using assms by (simp add: overwrite_def)

section \<open>Big-endian bytes\<close>

fun be_bytes :: "nat \<Rightarrow> 'a::len word \<Rightarrow> bytes" where
  "be_bytes 0 w = []"
| "be_bytes (Suc n) w = be_bytes n (drop_bit 8 w) @ [ucast w]"

definition be_word :: "bytes \<Rightarrow> 'a::len word" where
  "be_word bs = foldl (\<lambda>a b. a * 256 + ucast b) 0 bs"

lemma length_be_bytes [simp]: "length (be_bytes n w) = n"
  by (induction n arbitrary: w) simp_all

lemma be_word_Nil [simp]: "be_word [] = 0"
  by (simp add: be_word_def)

lemma be_word_snoc [simp]: "be_word (xs @ [b]) = be_word xs * 256 + ucast b"
  by (simp add: be_word_def)

lemma take_bit_drop_bit_byte:
  "take_bit k (drop_bit 8 (w::'a::len word)) * 256 + ucast (ucast w :: byte) = take_bit (8 + k) w"
proof -
  have a: "push_bit 8 (take_bit k (drop_bit 8 w)) = take_bit k (drop_bit 8 w) * 256"
    by (simp add: push_bit_eq_mult)
  have b: "ucast (ucast w :: byte) = take_bit 8 w"
    by (rule bit_word_eqI) (simp add: bit_simps)
  have "push_bit 8 (take_bit k (drop_bit 8 w)) + take_bit 8 w
      = or (push_bit 8 (take_bit k (drop_bit 8 w))) (take_bit 8 w)"
    by (rule disjunctive_add) (simp add: bit_simps)
  also have "\<dots> = take_bit (8 + k) w"
    by (rule bit_word_eqI) (auto simp: bit_simps)
  finally show ?thesis by (simp add: a b)
qed

lemma be_word_be_bytes: "be_word (be_bytes n w) = take_bit (8 * n) w"
  by (induction n arbitrary: w) (simp_all add: take_bit_drop_bit_byte)

lemma be_word_be_bytes_32 [simp]: "be_word (be_bytes 32 (w :: u256)) = w"
  by (simp add: be_word_be_bytes take_bit_word_eq_self)

lemma be_word_be_bytes_20 [simp]: "be_word (be_bytes 20 (w :: address)) = w"
  by (simp add: be_word_be_bytes take_bit_word_eq_self)

section \<open>Reading a 256-bit integer as a 64-bit one\<close>

text \<open>
  \<open>uint256.Int\<close> is a 256-bit value; \<open>IsUint64\<close>, \<open>Uint64\<close> and \<open>Uint64WithOverflow\<close> read its low
  64 bits and say whether the rest is zero.
\<close>

definition IsUint64 :: "u256 \<Rightarrow> bool" where
  "IsUint64 x = (unat x < 2 ^ 64)"

definition Uint64 :: "u256 \<Rightarrow> u64" where
  "Uint64 x = ucast x"

definition Uint64WithOverflow :: "u256 \<Rightarrow> u64 \<times> bool" where
  "Uint64WithOverflow x = (Uint64 x, \<not> IsUint64 x)"

lemma unat_Uint64: "unat (Uint64 x) = unat x mod 2 ^ 64"
  by (simp add: Uint64_def unsigned_ucast_eq take_bit_eq_mod)

lemma unat_Uint64_id [simp]: "IsUint64 x \<Longrightarrow> unat (Uint64 x) = unat x"
  by (simp add: unat_Uint64 IsUint64_def)

section \<open>Overflow-checked arithmetic (\<open>common/math/integer.go\<close>)\<close>

abbreviation MaxUint64 :: u64 where
  "MaxUint64 \<equiv> 18446744073709551615"

definition SafeAdd :: "u64 \<Rightarrow> u64 \<Rightarrow> u64 \<times> bool" where
  "SafeAdd x y = (x + y, unat x + unat y \<ge> 2 ^ 64)"

definition SafeSub :: "u64 \<Rightarrow> u64 \<Rightarrow> u64 \<times> bool" where
  "SafeSub x y = (x - y, unat x < unat y)"

definition SafeMul :: "u64 \<Rightarrow> u64 \<Rightarrow> u64 \<times> bool" where
  "SafeMul x y = (x * y, unat x * unat y \<ge> 2 ^ 64)"

lemma unat_u64_lt [simp]: "unat (x :: u64) < 18446744073709551616"
  using unsigned_less [of x, where ?'a = nat] by simp

lemma unat_u64_le: "unat (x :: u64) \<le> 18446744073709551615"
  using unat_u64_lt [of x] by linarith

lemma unat_u64_add [u64_simps]:
  "unat x + unat y < 18446744073709551616 \<Longrightarrow> unat (x + y :: u64) = unat x + unat y"
  by (simp add: unat_word_ariths)

lemma unat_u64_mult [u64_simps]:
  "unat x * unat y < 18446744073709551616 \<Longrightarrow> unat (x * y :: u64) = unat x * unat y"
  by (simp add: unat_word_ariths)

lemma unat_u64_sub [u64_simps]:
  "unat y \<le> unat x \<Longrightarrow> unat (x - y :: u64) = unat x - unat y"
  by (simp add: unat_sub_if')

lemma unat_u64_of_nat [u64_simps]:
  "n < 18446744073709551616 \<Longrightarrow> unat (of_nat n :: u64) = n"
  by (simp add: unsigned_of_nat take_bit_eq_mod)

lemma of_nat_unat_u64: "of_nat (unat (x :: u64)) = x"
  by simp

lemma SafeAdd_ok: "SafeAdd x y = (s, False) \<longleftrightarrow> s = x + y \<and> unat x + unat y < 2 ^ 64"
  by (auto simp: SafeAdd_def)

lemma SafeMul_ok: "SafeMul x y = (s, False) \<longleftrightarrow> s = x * y \<and> unat x * unat y < 2 ^ 64"
  by (auto simp: SafeMul_def)

lemma SafeAdd_exact: "SafeAdd x y = (s, False) \<Longrightarrow> unat s = unat x + unat y"
  by (auto simp: SafeAdd_ok u64_simps)

lemma SafeMul_exact: "SafeMul x y = (s, False) \<Longrightarrow> unat s = unat x * unat y"
  by (auto simp: SafeMul_ok u64_simps)

section \<open>Options\<close>

lemma bind_Some_iff: "Option.bind m f = Some y \<longleftrightarrow> (\<exists>x. m = Some x \<and> f x = Some y)"
  by (cases m) auto

lemma bind_ne_None_iff: "Option.bind m f \<noteq> None \<longleftrightarrow> (\<exists>x. m = Some x \<and> f x \<noteq> None)"
  by (cases m) auto

end
