(* ===== verification/Params.thy ===== *)
theory Params
  imports Prelude
begin

text \<open>
  Protocol constants (\<open>params/protocol_params.go\<close>, \<open>params/verkle_params.go\<close>, \<open>core/vm/gas.go\<close>) and
  the fork flags of \<open>params.Rules\<close>. The constants are abbreviations, so that proofs compute with
  the numerals.
\<close>

section \<open>Step costs (\<open>core/vm/gas.go\<close>)\<close>

abbreviation GasQuickStep :: u64 where "GasQuickStep \<equiv> 2"
abbreviation GasFastestStep :: u64 where "GasFastestStep \<equiv> 3"
abbreviation GasFastishStep :: u64 where "GasFastishStep \<equiv> 4"
abbreviation GasFastStep :: u64 where "GasFastStep \<equiv> 5"
abbreviation GasMidStep :: u64 where "GasMidStep \<equiv> 8"
abbreviation GasSlowStep :: u64 where "GasSlowStep \<equiv> 10"
abbreviation GasExtStep :: u64 where "GasExtStep \<equiv> 20"

section \<open>Protocol constants\<close>

abbreviation CallValueTransferGas :: u64 where "CallValueTransferGas \<equiv> 9000"
abbreviation CallNewAccountGas :: u64 where "CallNewAccountGas \<equiv> 25000"
abbreviation TxGas :: u64 where "TxGas \<equiv> 21000"
abbreviation TxGasContractCreation :: u64 where "TxGasContractCreation \<equiv> 53000"
abbreviation TxDataZeroGas :: u64 where "TxDataZeroGas \<equiv> 4"
abbreviation QuadCoeffDiv :: u64 where "QuadCoeffDiv \<equiv> 512"
abbreviation LogDataGas :: u64 where "LogDataGas \<equiv> 8"
abbreviation CallStipend :: u64 where "CallStipend \<equiv> 2300"
abbreviation Keccak256Gas :: u64 where "Keccak256Gas \<equiv> 30"
abbreviation Keccak256WordGas :: u64 where "Keccak256WordGas \<equiv> 6"
abbreviation InitCodeWordGas :: u64 where "InitCodeWordGas \<equiv> 2"
abbreviation SstoreSetGas :: u64 where "SstoreSetGas \<equiv> 20000"
abbreviation SstoreResetGas :: u64 where "SstoreResetGas \<equiv> 5000"
abbreviation SstoreClearGas :: u64 where "SstoreClearGas \<equiv> 5000"
abbreviation SstoreRefundGas :: u64 where "SstoreRefundGas \<equiv> 15000"
abbreviation NetSstoreNoopGas :: u64 where "NetSstoreNoopGas \<equiv> 200"
abbreviation NetSstoreInitGas :: u64 where "NetSstoreInitGas \<equiv> 20000"
abbreviation NetSstoreCleanGas :: u64 where "NetSstoreCleanGas \<equiv> 5000"
abbreviation NetSstoreDirtyGas :: u64 where "NetSstoreDirtyGas \<equiv> 200"
abbreviation NetSstoreClearRefund :: u64 where "NetSstoreClearRefund \<equiv> 15000"
abbreviation NetSstoreResetRefund :: u64 where "NetSstoreResetRefund \<equiv> 4800"
abbreviation NetSstoreResetClearRefund :: u64 where "NetSstoreResetClearRefund \<equiv> 19800"
abbreviation SstoreSentryGasEIP2200 :: u64 where "SstoreSentryGasEIP2200 \<equiv> 2300"
abbreviation SstoreSetGasEIP2200 :: u64 where "SstoreSetGasEIP2200 \<equiv> 20000"
abbreviation SstoreResetGasEIP2200 :: u64 where "SstoreResetGasEIP2200 \<equiv> 5000"
abbreviation SstoreClearsScheduleRefundEIP2200 :: u64 where
  "SstoreClearsScheduleRefundEIP2200 \<equiv> 15000"
abbreviation ColdAccountAccessCostEIP2929 :: u64 where "ColdAccountAccessCostEIP2929 \<equiv> 2600"
abbreviation ColdSloadCostEIP2929 :: u64 where "ColdSloadCostEIP2929 \<equiv> 2100"
abbreviation WarmStorageReadCostEIP2929 :: u64 where "WarmStorageReadCostEIP2929 \<equiv> 100"
abbreviation TxAccessListAddressGas :: u64 where "TxAccessListAddressGas \<equiv> 2400"
abbreviation TxAccessListStorageKeyGas :: u64 where "TxAccessListStorageKeyGas \<equiv> 1900"
abbreviation SstoreClearsScheduleRefundEIP3529 :: u64 where
  "SstoreClearsScheduleRefundEIP3529 \<equiv>
     SstoreResetGasEIP2200 - ColdSloadCostEIP2929 + TxAccessListStorageKeyGas"
abbreviation JumpdestGas :: u64 where "JumpdestGas \<equiv> 1"
abbreviation CreateDataGas :: u64 where "CreateDataGas \<equiv> 200"
abbreviation CallCreateDepth :: nat where "CallCreateDepth \<equiv> 1024"
abbreviation ExpGas :: u64 where "ExpGas \<equiv> 10"
abbreviation LogGas :: u64 where "LogGas \<equiv> 375"
abbreviation CopyGas :: u64 where "CopyGas \<equiv> 3"
abbreviation StackLimit :: nat where "StackLimit \<equiv> 1024"
abbreviation LogTopicGas :: u64 where "LogTopicGas \<equiv> 375"
abbreviation CreateGas :: u64 where "CreateGas \<equiv> 32000"
abbreviation Create2Gas :: u64 where "Create2Gas \<equiv> 32000"
abbreviation CreateNGasEip4762 :: u64 where "CreateNGasEip4762 \<equiv> 1000"
abbreviation SelfdestructRefundGas :: u64 where "SelfdestructRefundGas \<equiv> 24000"
abbreviation MemoryGas :: u64 where "MemoryGas \<equiv> 3"
abbreviation TxDataNonZeroGasFrontier :: u64 where "TxDataNonZeroGasFrontier \<equiv> 68"
abbreviation TxDataNonZeroGasEIP2028 :: u64 where "TxDataNonZeroGasEIP2028 \<equiv> 16"
abbreviation TxTokenPerNonZeroByte :: u64 where "TxTokenPerNonZeroByte \<equiv> 4"
abbreviation TxCostFloorPerToken :: u64 where "TxCostFloorPerToken \<equiv> 10"
abbreviation TxAuthTupleGas :: u64 where "TxAuthTupleGas \<equiv> 12500"
abbreviation CallGasFrontier :: u64 where "CallGasFrontier \<equiv> 40"
abbreviation CallGasEIP150 :: u64 where "CallGasEIP150 \<equiv> 700"
abbreviation BalanceGasFrontier :: u64 where "BalanceGasFrontier \<equiv> 20"
abbreviation BalanceGasEIP150 :: u64 where "BalanceGasEIP150 \<equiv> 400"
abbreviation BalanceGasEIP1884 :: u64 where "BalanceGasEIP1884 \<equiv> 700"
abbreviation ExtcodeSizeGasFrontier :: u64 where "ExtcodeSizeGasFrontier \<equiv> 20"
abbreviation ExtcodeSizeGasEIP150 :: u64 where "ExtcodeSizeGasEIP150 \<equiv> 700"
abbreviation SloadGasFrontier :: u64 where "SloadGasFrontier \<equiv> 50"
abbreviation SloadGasEIP150 :: u64 where "SloadGasEIP150 \<equiv> 200"
abbreviation SloadGasEIP1884 :: u64 where "SloadGasEIP1884 \<equiv> 800"
abbreviation SloadGasEIP2200 :: u64 where "SloadGasEIP2200 \<equiv> 800"
abbreviation ExtcodeHashGasConstantinople :: u64 where "ExtcodeHashGasConstantinople \<equiv> 400"
abbreviation ExtcodeHashGasEIP1884 :: u64 where "ExtcodeHashGasEIP1884 \<equiv> 700"
abbreviation SelfdestructGasEIP150 :: u64 where "SelfdestructGasEIP150 \<equiv> 5000"
abbreviation ExpByteFrontier :: u64 where "ExpByteFrontier \<equiv> 10"
abbreviation ExpByteEIP158 :: u64 where "ExpByteEIP158 \<equiv> 50"
abbreviation ExtcodeCopyBaseFrontier :: u64 where "ExtcodeCopyBaseFrontier \<equiv> 20"
abbreviation ExtcodeCopyBaseEIP150 :: u64 where "ExtcodeCopyBaseEIP150 \<equiv> 700"
abbreviation CreateBySelfdestructGas :: u64 where "CreateBySelfdestructGas \<equiv> 25000"
abbreviation MaxCodeSize :: nat where "MaxCodeSize \<equiv> 24576"
abbreviation MaxInitCodeSize :: nat where "MaxInitCodeSize \<equiv> 2 * MaxCodeSize"
abbreviation RefundQuotient :: u64 where "RefundQuotient \<equiv> 2"
abbreviation RefundQuotientEIP3529 :: u64 where "RefundQuotientEIP3529 \<equiv> 5"
abbreviation BlobTxBlobGasPerBlob :: nat where "BlobTxBlobGasPerBlob \<equiv> 131072"

abbreviation SystemAddress :: address where
  "SystemAddress \<equiv> 0xfffffffffffffffffffffffffffffffffffffffe"
abbreviation HistoryStorageAddress :: address where
  "HistoryStorageAddress \<equiv> 0x0000F90827F1C53a10cb7A02335B175320002935"

abbreviation WitnessBranchReadCost :: u64 where "WitnessBranchReadCost \<equiv> 1900"
abbreviation WitnessChunkReadCost :: u64 where "WitnessChunkReadCost \<equiv> 200"
abbreviation WitnessBranchWriteCost :: u64 where "WitnessBranchWriteCost \<equiv> 3000"
abbreviation WitnessChunkWriteCost :: u64 where "WitnessChunkWriteCost \<equiv> 500"
abbreviation WitnessChunkFillCost :: u64 where "WitnessChunkFillCost \<equiv> 6200"

section \<open>Fork rules (\<open>params/config.go\<close>)\<close>

record Rules =
  rChainID :: int
  IsHomestead :: bool
  IsEIP150 :: bool
  IsEIP155 :: bool
  IsEIP158 :: bool
  IsEIP2929 :: bool
  IsEIP4762 :: bool
  IsByzantium :: bool
  IsConstantinople :: bool
  IsPetersburg :: bool
  IsIstanbul :: bool
  IsBerlin :: bool
  IsLondon :: bool
  IsMerge :: bool
  IsShanghai :: bool
  IsCancun :: bool
  IsPrague :: bool
  IsOsaka :: bool
  IsVerkle :: bool

end
