(* ===== verification/VM_Errors.thy ===== *)
theory VM_Errors
  imports Params
begin

text \<open>
  The errors of \<open>core/vm/errors.go\<close> as values, \<open>errors.Is\<close> over the wrapping that
  \<open>fmt.Errorf("%w: ...")\<close> makes, and the stable numeric codes the tracers report.
\<close>

datatype vmerr =
    ErrOutOfGas
  | ErrCodeStoreOutOfGas
  | ErrDepth
  | ErrInsufficientBalance
  | ErrContractAddressCollision
  | ErrExecutionReverted
  | ErrMaxCodeSizeExceeded
  | ErrMaxInitCodeSizeExceeded
  | ErrInvalidJump
  | ErrWriteProtection
  | ErrReturnDataOutOfBounds
  | ErrGasUintOverflow
  | ErrInvalidCode
  | ErrNonceUintOverflow
  | errStopToken
  | ErrStackUnderflow nat int
  | ErrStackOverflow nat int
  | ErrInvalidOpCode byte
  | ErrNew string               \<comment> \<open>\<open>errors.New("...")\<close>\<close>
  | WrapErr vmerr vmerr         \<comment> \<open>\<open>fmt.Errorf("%w: %v", e, cause)\<close>\<close>
  | WrapSize vmerr u64          \<comment> \<open>\<open>fmt.Errorf("%w: size %d", e, size)\<close>\<close>

text \<open>\<open>errors.Is(err, target)\<close>: the error itself or what it wraps with \<open>%w\<close>.\<close>

fun errors_Is :: "vmerr \<Rightarrow> vmerr \<Rightarrow> bool" where
  "errors_Is (WrapErr e c) t = (WrapErr e c = t \<or> errors_Is e t)"
| "errors_Is (WrapSize e n) t = (WrapSize e n = t \<or> errors_Is e t)"
| "errors_Is e t = (e = t)"

text \<open>\<open>errors.As\<close> for the three error types that carry data.\<close>

fun root_cause :: "vmerr \<Rightarrow> vmerr" where
  "root_cause (WrapErr e c) = root_cause e"
| "root_cause (WrapSize e n) = root_cause e"
| "root_cause e = e"

definition is_StackUnderflow :: "vmerr \<Rightarrow> bool" where
  "is_StackUnderflow e = (case root_cause e of ErrStackUnderflow _ _ \<Rightarrow> True | _ \<Rightarrow> False)"

definition is_StackOverflow :: "vmerr \<Rightarrow> bool" where
  "is_StackOverflow e = (case root_cause e of ErrStackOverflow _ _ \<Rightarrow> True | _ \<Rightarrow> False)"

definition is_InvalidOpCode :: "vmerr \<Rightarrow> bool" where
  "is_InvalidOpCode e = (case root_cause e of ErrInvalidOpCode _ \<Rightarrow> True | _ \<Rightarrow> False)"

abbreviation VMErrorCodeUnknown :: int where
  "VMErrorCodeUnknown \<equiv> 9223372036854775806"

definition vmErrorCodeFromErr :: "vmerr \<Rightarrow> int" where
  "vmErrorCodeFromErr err =
     (if errors_Is err ErrOutOfGas then 1
      else if errors_Is err ErrCodeStoreOutOfGas then 2
      else if errors_Is err ErrDepth then 3
      else if errors_Is err ErrInsufficientBalance then 4
      else if errors_Is err ErrContractAddressCollision then 5
      else if errors_Is err ErrExecutionReverted then 6
      else if errors_Is err ErrMaxCodeSizeExceeded then 7
      else if errors_Is err ErrInvalidJump then 8
      else if errors_Is err ErrWriteProtection then 9
      else if errors_Is err ErrReturnDataOutOfBounds then 10
      else if errors_Is err ErrGasUintOverflow then 11
      else if errors_Is err ErrInvalidCode then 12
      else if errors_Is err ErrNonceUintOverflow then 13
      else if is_StackUnderflow err then 14
      else if is_StackOverflow err then 15
      else if is_InvalidOpCode err then 16
      else VMErrorCodeUnknown)"

lemma root_cause_no_wrap [simp]:
  "root_cause e \<noteq> WrapErr a b" "root_cause e \<noteq> WrapSize a n"
  "WrapErr a b \<noteq> root_cause e" "WrapSize a n \<noteq> root_cause e"
  by (induction e) auto

lemma errors_Is_root_cause: "errors_Is e (root_cause t) \<longleftrightarrow> root_cause e = root_cause t"
  by (induction e) auto

lemma errors_Is_root: "t = root_cause t \<Longrightarrow> errors_Is e t \<longleftrightarrow> root_cause e = t"
  using errors_Is_root_cause [of e t] by simp

lemma root_cause_idem [simp]: "root_cause (root_cause e) = root_cause e"
  by (induction e) auto

lemma errors_Is_of_root: "errors_Is (root_cause e) (root_cause t) = errors_Is e (root_cause t)"
  by (simp add: errors_Is_root_cause)

lemma is_typed_of_root [simp]:
  "is_StackUnderflow (root_cause e) = is_StackUnderflow e"
  "is_StackOverflow (root_cause e) = is_StackOverflow e"
  "is_InvalidOpCode (root_cause e) = is_InvalidOpCode e"
  by (simp_all add: is_StackUnderflow_def is_StackOverflow_def is_InvalidOpCode_def)

lemma vmErrorCode_root: "vmErrorCodeFromErr (root_cause e) = vmErrorCodeFromErr e"
  unfolding vmErrorCodeFromErr_def is_typed_of_root
  by (simp only: errors_Is_of_root [where t = ErrOutOfGas, simplified root_cause.simps]
      errors_Is_of_root [where t = ErrCodeStoreOutOfGas, simplified root_cause.simps]
      errors_Is_of_root [where t = ErrDepth, simplified root_cause.simps]
      errors_Is_of_root [where t = ErrInsufficientBalance, simplified root_cause.simps]
      errors_Is_of_root [where t = ErrContractAddressCollision, simplified root_cause.simps]
      errors_Is_of_root [where t = ErrExecutionReverted, simplified root_cause.simps]
      errors_Is_of_root [where t = ErrMaxCodeSizeExceeded, simplified root_cause.simps]
      errors_Is_of_root [where t = ErrInvalidJump, simplified root_cause.simps]
      errors_Is_of_root [where t = ErrWriteProtection, simplified root_cause.simps]
      errors_Is_of_root [where t = ErrReturnDataOutOfBounds, simplified root_cause.simps]
      errors_Is_of_root [where t = ErrGasUintOverflow, simplified root_cause.simps]
      errors_Is_of_root [where t = ErrInvalidCode, simplified root_cause.simps]
      errors_Is_of_root [where t = ErrNonceUintOverflow, simplified root_cause.simps])

end
