(* ===== verification/VM_Stack.thy ===== *)
theory VM_Stack
  imports VM_Errors
begin

text \<open>
  The operand stack (\<open>core/vm/stack.go\<close>) and the stack bounds of an operation
  (\<open>core/vm/stack_table.go\<close>). As in the Go slice, the top of the stack is the \<^emph>\<open>last\<close> element of
  the list. A method that indexes the slice returns \<open>None\<close> where the Go code would panic.
  \<open>peek\<close> returns a pointer in Go; a handler's write through it is \<open>set_top\<close>.
\<close>

type_synonym Stack = "u256 list"

named_theorems stack_simps \<open>stack operations on stacks with a known top part\<close>

definition push :: "Stack \<Rightarrow> u256 \<Rightarrow> Stack" where
  "push st d = st @ [d]"

definition pop :: "Stack \<Rightarrow> (u256 \<times> Stack) option" where
  "pop st = (if st = [] then None else Some (last st, butlast st))"

definition swap :: "nat \<Rightarrow> Stack \<Rightarrow> Stack option" where
  "swap n st =
     (if length st < n + 1 then None
      else Some (st[length st - 1 - n := st ! (length st - 1),
                    length st - 1 := st ! (length st - 1 - n)]))"

definition dup :: "nat \<Rightarrow> Stack \<Rightarrow> Stack option" where
  "dup n st = (if n = 0 \<or> length st < n then None else Some (push st (st ! (length st - n))))"

definition peek :: "Stack \<Rightarrow> u256 option" where
  "peek st = (if st = [] then None else Some (last st))"

definition set_top :: "Stack \<Rightarrow> u256 \<Rightarrow> Stack" where
  "set_top st v = butlast st @ [v]"

definition Back :: "Stack \<Rightarrow> nat \<Rightarrow> u256 option" where
  "Back st n = (if n < length st then Some (st ! (length st - n - 1)) else None)"

definition minStack :: "int \<Rightarrow> int \<Rightarrow> int" where
  "minStack pops pushes = pops"

definition maxStack :: "int \<Rightarrow> int \<Rightarrow> int" where
  "maxStack pops pushes = int StackLimit + pops - pushes"

definition minSwapStack :: "int \<Rightarrow> int" where
  "minSwapStack n = minStack n n"

definition maxSwapStack :: "int \<Rightarrow> int" where
  "maxSwapStack n = maxStack n n"

definition minDupStack :: "int \<Rightarrow> int" where
  "minDupStack n = minStack n (n + 1)"

definition maxDupStack :: "int \<Rightarrow> int" where
  "maxDupStack n = maxStack n (n + 1)"

lemmas stack_bound_defs =
  minStack_def maxStack_def minSwapStack_def maxSwapStack_def minDupStack_def maxDupStack_def

section \<open>Working with a known top part\<close>

lemma push_eq [stack_simps]: "push st d = st @ [d]"
  by (simp add: push_def)

lemma pop_snoc [stack_simps]: "pop (st @ [x]) = Some (x, st)"
  by (simp add: pop_def)

lemma pop_app2 [stack_simps]: "pop (st @ [y, x]) = Some (x, st @ [y])"
  by (simp add: pop_def butlast_append)

lemma pop_app3 [stack_simps]: "pop (st @ [z, y, x]) = Some (x, st @ [z, y])"
  by (simp add: pop_def butlast_append)

lemma pop_app4 [stack_simps]: "pop (st @ [w, z, y, x]) = Some (x, st @ [w, z, y])"
  by (simp add: pop_def butlast_append)

lemma pop_push [simp]: "pop (push st x) = Some (x, st)"
  by (simp add: stack_simps)

lemma pop_Some: "st \<noteq> [] \<Longrightarrow> pop st = Some (last st, butlast st)"
  by (simp add: pop_def)

lemma peek_snoc [stack_simps]: "peek (st @ [x]) = Some x"
  by (simp add: peek_def)

lemma set_top_snoc [stack_simps]: "set_top (st @ [x]) v = st @ [v]"
  by (simp add: set_top_def)

lemma peek_Some: "st \<noteq> [] \<Longrightarrow> peek st = Some (last st)"
  by (simp add: peek_def)

lemma length_set_top [simp]: "st \<noteq> [] \<Longrightarrow> length (set_top st v) = length st"
  by (simp add: set_top_def)

lemma length_push [simp]: "length (push st v) = Suc (length st)"
  by (simp add: push_def)

lemma Back_Some: "n < length st \<Longrightarrow> Back st n = Some (st ! (length st - n - 1))"
  by (simp add: Back_def)

lemma Back_ne_None [simp]: "Back st n \<noteq> None \<longleftrightarrow> n < length st"
  by (simp add: Back_def)

lemma Back_0_peek: "Back st 0 = peek st"
  by (simp add: Back_def peek_def last_conv_nth)

lemma Back_Suc_pop: "pop st = Some (x, st') \<Longrightarrow> Back st (Suc n) = Back st' n"
  by (auto simp: Back_def pop_def nth_butlast split: if_splits)

lemma dup_is_Back: "0 < n \<Longrightarrow> dup n st = map_option (push st) (Back st (n - 1))"
  by (auto simp: dup_def Back_def)

lemma swap_length: "swap n st = Some st' \<Longrightarrow> length st' = length st"
  by (auto simp: swap_def split: if_splits)

lemma swap_Some: "n < length st \<Longrightarrow> \<exists>st'. swap n st = Some st' \<and> length st' = length st"
  by (auto simp: swap_def)

lemma dup_Some:
  "0 < n \<Longrightarrow> n \<le> length st \<Longrightarrow> \<exists>v. dup n st = Some (push st v)"
  by (auto simp: dup_def)

lemma stack_swap_swap: "swap n st = Some st' \<Longrightarrow> swap n st' = Some st"
  by (cases "n = 0") (auto simp: swap_def list_update_swap split: if_splits)

lemma swap_Back:
  assumes "swap n st = Some st'" and "i < length st"
  shows "Back st' i = Back st (if i = 0 then n else if i = n then 0 else i)"
proof -
  from assms(1) have len: "n < length st"
    and st': "st' = st[length st - 1 - n := st ! (length st - 1),
                      length st - 1 := st ! (length st - 1 - n)]"
    by (auto simp: swap_def split: if_splits)
  show ?thesis
    using len assms(2) by (auto simp: st' Back_def nth_list_update)
qed

end
