(* ===== verification/VM_Memory.thy ===== *)
theory VM_Memory
  imports VM_Stack
begin

text \<open>
  The byte memory of a call frame (\<open>core/vm/memory.go\<close>), the size computations of
  \<open>core/vm/common.go\<close> and \<open>core/vm/memory_table.go\<close>, and the expansion fee \<open>memoryGasCost\<close> of
  \<open>core/vm/gas_table.go\<close>. Accesses that the Go code leaves unchecked ("memory is always resized
  before being accessed") return \<open>None\<close> where the slice expression would panic.
\<close>

section \<open>Memory\<close>

record Memory =
  store :: bytes
  lastGasCost :: u64

definition NewMemory :: Memory where
  "NewMemory = \<lparr>store = [], lastGasCost = 0\<rparr>"

definition mem_Set :: "Memory \<Rightarrow> u64 \<Rightarrow> u64 \<Rightarrow> bytes \<Rightarrow> Memory option" where
  "mem_Set m offset sz v =
     (if sz > 0 then
        (if offset + sz > of_nat (length (store m)) then None
         else do {
           dst \<leftarrow> go_slice (store m) (unat offset) (unat (offset + sz));
           Some (m\<lparr>store := overwrite (store m) (unat offset) (take (length dst) v)\<rparr>)
         })
      else Some m)"

definition mem_Set32 :: "Memory \<Rightarrow> u64 \<Rightarrow> u256 \<Rightarrow> Memory option" where
  "mem_Set32 m offset v =
     (if offset + 32 > of_nat (length (store m)) then None
      else do {
        dst \<leftarrow> go_slice (store m) (unat offset) (length (store m));
        if length dst < 32 then None
        else Some (m\<lparr>store := overwrite (store m) (unat offset) (be_bytes 32 v)\<rparr>)
      })"

definition mem_Resize :: "Memory \<Rightarrow> u64 \<Rightarrow> Memory" where
  "mem_Resize m sz =
     (if of_nat (length (store m)) < sz
      then m\<lparr>store := store m @ replicate (unat (sz - of_nat (length (store m)))) 0\<rparr>
      else m)"

definition mem_GetCopy :: "Memory \<Rightarrow> u64 \<Rightarrow> u64 \<Rightarrow> bytes option" where
  "mem_GetCopy m offset sz =
     (if sz = 0 then Some []
      else go_slice (store m) (unat offset) (unat (offset + sz)))"

definition mem_GetPtr :: "Memory \<Rightarrow> u64 \<Rightarrow> u64 \<Rightarrow> bytes option" where
  "mem_GetPtr m offset sz =
     (if sz = 0 then Some []
      else go_slice (store m) (unat offset) (unat (offset + sz)))"

definition mem_Len :: "Memory \<Rightarrow> nat" where
  "mem_Len m = length (store m)"

definition mem_Copy :: "Memory \<Rightarrow> u64 \<Rightarrow> u64 \<Rightarrow> u64 \<Rightarrow> Memory option" where
  "mem_Copy m dst src len =
     (if len = 0 then Some m
      else do {
        s \<leftarrow> go_slice (store m) (unat src) (unat (src + len));
        store' \<leftarrow> go_copy_at (store m) (unat dst) s;
        Some (m\<lparr>store := store'\<rparr>)
      })"

section \<open>Sizes (\<open>common.go\<close>)\<close>

definition calcMemSize64WithUint :: "u256 \<Rightarrow> u64 \<Rightarrow> u64 \<times> bool" where
  "calcMemSize64WithUint off length64 =
     (if length64 = 0 then (0, False)
      else
        let (offset64, overflow) = Uint64WithOverflow off in
        if overflow then (0, True)
        else let val = offset64 + length64 in (val, val < offset64))"

definition calcMemSize64 :: "u256 \<Rightarrow> u256 \<Rightarrow> u64 \<times> bool" where
  "calcMemSize64 off l =
     (if \<not> IsUint64 l then (0, True) else calcMemSize64WithUint off (Uint64 l))"

definition RightPadBytes :: "bytes \<Rightarrow> int \<Rightarrow> bytes" where
  "RightPadBytes s l =
     (if l \<le> int (length s) then s else s @ replicate (nat l - length s) 0)"

definition getData :: "bytes \<Rightarrow> u64 \<Rightarrow> u64 \<Rightarrow> bytes option" where
  "getData d start sz =
     (let len = of_nat (length d);
          start = (if start > len then len else start);
          end' = start + sz;
          end' = (if end' > len then len else end')
      in do {
        s \<leftarrow> go_slice d (unat start) (unat end');
        Some (RightPadBytes s (sint sz))
      })"

definition getDataAndAdjustedBounds :: "bytes \<Rightarrow> u64 \<Rightarrow> u64 \<Rightarrow> (bytes \<times> u64 \<times> u64) option" where
  "getDataAndAdjustedBounds d start sz =
     (let len = of_nat (length d);
          start = (if start > len then len else start);
          end' = start + sz;
          end' = (if end' > len then len else end')
      in do {
        s \<leftarrow> go_slice d (unat start) (unat end');
        Some (RightPadBytes s (sint sz), start, end' - start)
      })"

definition toWordSize :: "u64 \<Rightarrow> u64" where
  "toWordSize sz =
     (if sz > MaxUint64 - 31 then MaxUint64 div 32 + 1 else (sz + 31) div 32)"

fun allZero :: "bytes \<Rightarrow> bool" where
  "allZero [] = True"
| "allZero (b # bs) = (if b \<noteq> 0 then False else allZero bs)"

section \<open>Required memory sizes (\<open>memory_table.go\<close>)\<close>

type_synonym memorySizeFunc = "Stack \<Rightarrow> (u64 \<times> bool) option"

definition mem_at :: "nat \<Rightarrow> nat \<Rightarrow> memorySizeFunc" where
  "mem_at i j st = do { off \<leftarrow> Back st i; l \<leftarrow> Back st j; Some (calcMemSize64 off l) }"

definition memoryKeccak256 :: memorySizeFunc where "memoryKeccak256 = mem_at 0 1"
definition memoryCallDataCopy :: memorySizeFunc where "memoryCallDataCopy = mem_at 0 2"
definition memoryReturnDataCopy :: memorySizeFunc where "memoryReturnDataCopy = mem_at 0 2"
definition memoryCodeCopy :: memorySizeFunc where "memoryCodeCopy = mem_at 0 2"
definition memoryExtCodeCopy :: memorySizeFunc where "memoryExtCodeCopy = mem_at 1 3"

definition memoryMLoad :: memorySizeFunc where
  "memoryMLoad st = do { off \<leftarrow> Back st 0; Some (calcMemSize64WithUint off 32) }"

definition memoryMStore8 :: memorySizeFunc where
  "memoryMStore8 st = do { off \<leftarrow> Back st 0; Some (calcMemSize64WithUint off 1) }"

definition memoryMStore :: memorySizeFunc where
  "memoryMStore st = do { off \<leftarrow> Back st 0; Some (calcMemSize64WithUint off 32) }"

definition memoryMcopy :: memorySizeFunc where
  "memoryMcopy st = do {
     mStart \<leftarrow> Back st 0;
     src \<leftarrow> Back st 1;
     let mStart = (if src > mStart then src else mStart);
     l \<leftarrow> Back st 2;
     Some (calcMemSize64 mStart l)
   }"

definition memoryCreate :: memorySizeFunc where "memoryCreate = mem_at 1 2"
definition memoryCreate2 :: memorySizeFunc where "memoryCreate2 = mem_at 1 2"

definition mem_max :: "nat \<Rightarrow> nat \<Rightarrow> nat \<Rightarrow> nat \<Rightarrow> memorySizeFunc" where
  "mem_max i j k l st = do {
     (x, overflow) \<leftarrow> mem_at i j st;
     if overflow then Some (0, True)
     else do {
       (y, overflow) \<leftarrow> mem_at k l st;
       if overflow then Some (0, True)
       else if x > y then Some (x, False)
       else Some (y, False)
     }
   }"

definition memoryCall :: memorySizeFunc where "memoryCall = mem_max 5 6 3 4"
definition memoryDelegateCall :: memorySizeFunc where "memoryDelegateCall = mem_max 4 5 2 3"
definition memoryStaticCall :: memorySizeFunc where "memoryStaticCall = mem_max 4 5 2 3"
definition memoryReturn :: memorySizeFunc where "memoryReturn = mem_at 0 1"
definition memoryRevert :: memorySizeFunc where "memoryRevert = mem_at 0 1"
definition memoryLog :: memorySizeFunc where "memoryLog = mem_at 0 1"

section \<open>The expansion fee\<close>

definition memoryGasCost :: "Memory \<Rightarrow> u64 \<Rightarrow> (u64 \<times> vmerr option) \<times> Memory" where
  "memoryGasCost mem newMemSize =
     (if newMemSize = 0 then ((0, None), mem)
      else if newMemSize > 0x1FFFFFFFE0 then ((0, Some ErrGasUintOverflow), mem)
      else
        let newMemSizeWords = toWordSize newMemSize;
            newMemSize = newMemSizeWords * 32
        in if newMemSize > of_nat (mem_Len mem) then
             let square = newMemSizeWords * newMemSizeWords;
                 linCoef = newMemSizeWords * MemoryGas;
                 quadCoef = square div QuadCoeffDiv;
                 newTotalFee = linCoef + quadCoef;
                 fee = newTotalFee - lastGasCost mem
             in ((fee, None), mem\<lparr>lastGasCost := newTotalFee\<rparr>)
           else ((0, None), mem))"

section \<open>Sizes are exact\<close>

lemma toWordSize_exact: "unat (toWordSize sz) = (unat sz + 31) div 32"
proof (cases "sz > MaxUint64 - 31")
  case True
  then have "unat sz > 18446744073709551584" by (simp add: word_less_nat_alt)
  with unat_u64_le [of sz] have "(unat sz + 31) div 32 = 576460752303423488" by linarith
  with True show ?thesis by (simp add: toWordSize_def)
next
  case False
  then have "unat sz \<le> 18446744073709551584" by (simp add: word_less_nat_alt)
  then have "unat (sz + 31) = unat sz + 31" by (simp add: u64_simps)
  with False show ?thesis by (simp add: toWordSize_def unat_div_distrib)
qed

lemma word_less_add_overflow: "(x + y < (x::u64)) = (unat x + unat y \<ge> 2 ^ 64)"
proof (cases "unat x + unat y < 2 ^ 64")
  case True
  then show ?thesis by (simp add: word_less_nat_alt u64_simps)
next
  case False
  then have "(unat x + unat y) mod 2 ^ 64 = unat x + unat y - 2 ^ 64"
    using unat_u64_le [of x] unat_u64_le [of y] by (simp add: mod_if)
  then show ?thesis using False unat_u64_le [of y]
    by (simp add: word_less_nat_alt unat_word_ariths)
qed

lemma calcMemSize64WithUint_overflow:
  "snd (calcMemSize64WithUint off l) \<longleftrightarrow> l \<noteq> 0 \<and> unat off + unat l \<ge> 2 ^ 64"
proof (cases "IsUint64 off")
  case True
  then show ?thesis
    by (simp add: calcMemSize64WithUint_def Uint64WithOverflow_def Let_def word_less_add_overflow)
next
  case False
  then show ?thesis
    by (auto simp: calcMemSize64WithUint_def Uint64WithOverflow_def IsUint64_def Let_def)
qed

lemma calcMemSize64WithUint_exact:
  assumes "\<not> snd (calcMemSize64WithUint off l)"
  shows "unat (fst (calcMemSize64WithUint off l)) = (if l = 0 then 0 else unat off + unat l)"
proof (cases "l = 0")
  case False
  with assms have "unat off + unat l < 2 ^ 64"
    by (simp add: calcMemSize64WithUint_overflow)
  then have "IsUint64 off" and "unat (Uint64 off + l) = unat off + unat l"
    by (auto simp: IsUint64_def u64_simps unat_Uint64)
  with False show ?thesis
    by (simp add: calcMemSize64WithUint_def Uint64WithOverflow_def Let_def)
qed (simp add: calcMemSize64WithUint_def)

lemma Uint64_eq_0: "IsUint64 l \<Longrightarrow> Uint64 l = 0 \<longleftrightarrow> l = 0"
  by (metis unat_Uint64_id unsigned_0 unsigned_word_eqI)

lemma calcMemSize64_overflow:
  "snd (calcMemSize64 off l) \<longleftrightarrow> l \<noteq> 0 \<and> unat off + unat l \<ge> 2 ^ 64"
proof (cases "IsUint64 l")
  case True
  then show ?thesis
    by (simp add: calcMemSize64_def calcMemSize64WithUint_overflow Uint64_eq_0)
next
  case False
  moreover from False have "l \<noteq> 0" by (auto simp: IsUint64_def)
  ultimately show ?thesis by (simp add: calcMemSize64_def IsUint64_def)
qed

lemma calcMemSize64_exact:
  assumes "\<not> snd (calcMemSize64 off l)"
  shows "unat (fst (calcMemSize64 off l)) = (if l = 0 then 0 else unat off + unat l)"
proof (cases "IsUint64 l")
  case True
  with assms have "\<not> snd (calcMemSize64WithUint off (Uint64 l))"
    by (simp add: calcMemSize64_def)
  from calcMemSize64WithUint_exact [OF this] True show ?thesis
    by (simp add: calcMemSize64_def Uint64_eq_0)
next
  case False
  with assms show ?thesis by (simp add: calcMemSize64_def)
qed

section \<open>The memory invariant and the expansion fee\<close>

text \<open>
  The total fee of \<open>w\<close> words of memory (Yellow Paper, C\_mem), and the invariant of a frame's
  memory: whole words, at most \<open>0x1FFFFFFFE0\<close> bytes, and \<open>lastGasCost\<close> is the total fee paid.
\<close>

definition Cmem :: "nat \<Rightarrow> nat" where
  "Cmem w = 3 * w + w * w div 512"

definition mem_words :: "nat \<Rightarrow> nat" where
  "mem_words sz = (sz + 31) div 32"

definition mem_max_size :: nat where
  "mem_max_size = 0x1FFFFFFFE0"

definition mem_wf :: "Memory \<Rightarrow> bool" where
  "mem_wf m \<longleftrightarrow> 32 dvd length (store m) \<and> length (store m) \<le> mem_max_size \<and>
     unat (lastGasCost m) = Cmem (length (store m) div 32)"

lemma Cmem_mono: "w \<le> w' \<Longrightarrow> Cmem w \<le> Cmem w'"
  unfolding Cmem_def by (meson add_mono div_le_mono mult_le_mono le_refl)

lemma mem_wf_New: "mem_wf NewMemory"
  by (simp add: mem_wf_def NewMemory_def Cmem_def)

lemma fee_no_overflow:
  fixes w :: u64
  assumes "unat w < 4294967296"
  shows "unat (w * 3 + w * w div 512) = Cmem (unat w)"
proof -
  have "unat w * unat w \<le> 4294967295 * 4294967295"
    using assms by (intro mult_le_mono) simp_all
  then have sq: "unat (w * w) = unat w * unat w" and b: "unat w * unat w \<le> 18446744065119617025"
    by (simp_all add: u64_simps)
  have q: "unat (w * w div 512) = unat w * unat w div 512"
    by (simp add: unat_div_distrib sq)
  have l: "unat (w * 3) = unat w * 3"
    using assms by (simp add: u64_simps)
  have "unat w * unat w div 512 \<le> 36028797002186752"
    using b by linarith
  then show ?thesis
    using assms by (simp add: Cmem_def u64_simps q l)
qed

lemma fee_bound_maximal: "unat ((2 ^ 32 :: u64) * 2 ^ 32) \<noteq> 2 ^ 32 * 2 ^ 32"
  by simp

lemma memoryGasCost_error:
  "snd (fst (memoryGasCost m sz)) \<noteq> None \<longleftrightarrow> unat sz > mem_max_size"
  by (auto simp: memoryGasCost_def Let_def mem_max_size_def word_less_nat_alt)

lemma memoryGasCost_store [simp]: "store (snd (memoryGasCost m sz)) = store m"
  by (simp add: memoryGasCost_def Let_def)

lemma memoryGasCost_exact:
  assumes wf: "mem_wf m" and sz: "unat sz \<le> mem_max_size"
  defines "old \<equiv> length (store m) div 32" and "new \<equiv> mem_words (unat sz)"
  shows "snd (fst (memoryGasCost m sz)) = None"
    and "unat (fst (fst (memoryGasCost m sz))) = Cmem (max old new) - Cmem old"
    and "unat (lastGasCost (snd (memoryGasCost m sz))) = Cmem (max old new)"
proof -
  have len: "length (store m) = 32 * old" and last: "unat (lastGasCost m) = Cmem old"
    and lenb: "length (store m) \<le> 137438953440"
    using wf by (auto simp: mem_wf_def old_def mem_max_size_def)
  have w: "unat (toWordSize sz) = new" by (simp add: toWordSize_exact new_def mem_words_def)
  have newb: "new < 4294967296" using sz by (simp add: new_def mem_words_def mem_max_size_def)
  then have w32: "unat (toWordSize sz * 32) = 32 * new"
    by (simp add: u64_simps w)
  have lenw: "unat (of_nat (mem_Len m) :: u64) = 32 * old"
    using lenb by (simp add: mem_Len_def u64_simps flip: len)
  have fee: "unat (toWordSize sz * 3 + toWordSize sz * toWordSize sz div 512) = Cmem new"
    using fee_no_overflow [of "toWordSize sz"] newb by (simp add: w)
  have small: "\<not> sz > 0x1FFFFFFFE0"
    using sz by (simp add: word_less_nat_alt mem_max_size_def)
  show "snd (fst (memoryGasCost m sz)) = None"
    using small by (simp add: memoryGasCost_def Let_def)
  have zero: "sz = 0 \<Longrightarrow> new = 0" by (simp add: new_def mem_words_def)
  have gt: "(toWordSize sz * 32 > of_nat (mem_Len m)) = (old < new)"
    by (simp add: word_less_nat_alt w32 lenw)
  show "unat (fst (fst (memoryGasCost m sz))) = Cmem (max old new) - Cmem old"
  proof (cases "old < new")
    case True
    then have "sz \<noteq> 0" using zero by auto
    moreover have "Cmem old \<le> Cmem new" using True by (simp add: Cmem_mono)
    ultimately show ?thesis
      using True small
      by (simp add: memoryGasCost_def Let_def gt u64_simps fee last max_def)
  next
    case False
    then show ?thesis
      using small by (simp add: memoryGasCost_def Let_def gt max_def)
  qed
  show "unat (lastGasCost (snd (memoryGasCost m sz))) = Cmem (max old new)"
  proof (cases "old < new")
    case True
    then have "sz \<noteq> 0" using zero by auto
    then show ?thesis
      using True small by (simp add: memoryGasCost_def Let_def gt fee max_def)
  next
    case False
    then show ?thesis
      using small by (simp add: memoryGasCost_def Let_def gt last max_def)
  qed
qed

lemma mem_step_wf:
  assumes "mem_wf m" and "unat sz \<le> mem_max_size" and "32 dvd unat sz"
  shows "mem_wf (mem_Resize (snd (memoryGasCost m sz)) sz)"
    and "length (store (mem_Resize (snd (memoryGasCost m sz)) sz)) = max (length (store m)) (unat sz)"
proof -
  obtain k where k: "unat sz = 32 * k" using assms(3) by auto
  have words: "mem_words (unat sz) = k" by (simp add: k mem_words_def)
  obtain old where old: "length (store m) = 32 * old"
    using assms(1) by (auto simp: mem_wf_def)
  have lenb: "32 * old \<le> 137438953440" and lenu: "unat (of_nat (32 * old) :: u64) = 32 * old"
    using assms(1) old by (simp_all add: mem_wf_def mem_max_size_def u64_simps)
  let ?m = "snd (memoryGasCost m sz)"
  have lt: "(of_nat (length (store m)) < sz) = (old < k)"
    by (simp add: word_less_nat_alt old lenu k del: of_nat_mult)
  have len: "length (store (mem_Resize ?m sz)) = 32 * max old k"
  proof (cases "old < k")
    case True
    have "unat (sz - of_nat (length (store m))) = 32 * k - 32 * old"
      using True unat_u64_sub [of "of_nat (length (store m))" sz]
      by (simp add: old lenu k del: of_nat_mult)
    then show ?thesis
      using True lt by (simp add: mem_Resize_def old)
  next
    case False
    then show ?thesis using lt by (simp add: mem_Resize_def old)
  qed
  then show "length (store (mem_Resize ?m sz)) = max (length (store m)) (unat sz)"
    by (simp add: old k)
  have "lastGasCost (mem_Resize ?m sz) = lastGasCost ?m"
    by (simp add: mem_Resize_def)
  then have "unat (lastGasCost (mem_Resize ?m sz)) = Cmem (max old k)"
    using memoryGasCost_exact(3) [OF assms(1,2)] by (simp add: old words)
  then show "mem_wf (mem_Resize ?m sz)"
    using lenb assms(2) by (simp add: mem_wf_def len mem_max_size_def k)
qed

section \<open>Access within the resized memory\<close>

definition mem_covers :: "Memory \<Rightarrow> u64 \<Rightarrow> u64 \<Rightarrow> bool" where
  "mem_covers m off sz \<longleftrightarrow> sz = 0 \<or> unat off + unat sz \<le> length (store m)"

definition mem_small :: "Memory \<Rightarrow> bool" where
  "mem_small m \<longleftrightarrow> length (store m) \<le> mem_max_size"

lemma mem_wf_small: "mem_wf m \<Longrightarrow> mem_small m"
  by (simp add: mem_wf_def mem_small_def)

lemma covers_add:
  fixes off sz :: u64
  assumes "unat off + unat sz \<le> length (store m)" and "mem_small m"
  shows "unat (off + sz) = unat off + unat sz"
  by (rule unat_u64_add) (use assms in \<open>simp add: mem_small_def mem_max_size_def\<close>)

lemma mem_Set_eq:
  assumes "mem_covers m off sz" and "mem_small m"
  shows "mem_Set m off sz v =
    Some (m\<lparr>store := if sz = 0 then store m else overwrite (store m) (unat off) (take (unat sz) v)\<rparr>)"
proof (cases "sz = 0")
  case False
  with assms have cov: "unat off + unat sz \<le> length (store m)" by (simp add: mem_covers_def)
  have add: "unat (off + sz) = unat off + unat sz" using covers_add [OF cov assms(2)] .
  have lenu: "unat (of_nat (length (store m)) :: u64) = length (store m)"
    using assms(2) by (simp add: mem_small_def mem_max_size_def u64_simps)
  have "\<not> off + sz > of_nat (length (store m))"
    using cov by (simp add: word_less_nat_alt add lenu)
  with False cov show ?thesis
    by (simp add: mem_Set_def go_simps add word_greater_zero_iff)
qed (simp add: mem_Set_def)

lemma mem_Set32_eq:
  assumes "unat off + 32 \<le> length (store m)" and "mem_small m"
  shows "mem_Set32 m off v = Some (m\<lparr>store := overwrite (store m) (unat off) (be_bytes 32 v)\<rparr>)"
proof -
  have add: "unat (off + 32) = unat off + 32" using covers_add [of off 32 m] assms by simp
  have lenu: "unat (of_nat (length (store m)) :: u64) = length (store m)"
    using assms(2) by (simp add: mem_small_def mem_max_size_def u64_simps)
  have "\<not> off + 32 > of_nat (length (store m))"
    using assms(1) by (simp add: word_less_nat_alt add lenu)
  then show ?thesis using assms(1) by (simp add: mem_Set32_def go_simps)
qed

lemma mem_GetCopy_eq:
  assumes "mem_covers m off sz" and "mem_small m"
  shows "mem_GetCopy m off sz = Some (if sz = 0 then [] else take (unat sz) (drop (unat off) (store m)))"
  using assms covers_add [of off sz m]
  by (auto simp: mem_GetCopy_def mem_covers_def go_simps)

lemma mem_GetPtr_GetCopy: "mem_GetPtr m off sz = mem_GetCopy m off sz"
  by (simp add: mem_GetPtr_def mem_GetCopy_def)

lemma mem_Copy_eq:
  assumes "mem_covers m src sz" and "mem_covers m dst sz" and "mem_small m"
  shows "mem_Copy m dst src sz = Some (if sz = 0 then m
     else m\<lparr>store := overwrite (store m) (unat dst) (take (unat sz) (drop (unat src) (store m)))\<rparr>)"
  using assms covers_add [of src sz m]
  by (auto simp: mem_Copy_def mem_covers_def go_simps)

lemma mem_GetCopy_Set:
  assumes "mem_covers m off sz" and "mem_small m" and "mem_Set m off sz v = Some m'"
    and "unat sz \<le> length v"
  shows "mem_GetCopy m' off sz = Some (take (unat sz) v)"
proof (cases "sz = 0")
  case True
  then show ?thesis by (simp add: mem_GetCopy_def)
next
  case False
  with assms have cov: "unat off + unat sz \<le> length (store m)" by (simp add: mem_covers_def)
  have st: "store m' = overwrite (store m) (unat off) (take (unat sz) v)"
    using assms False by (auto simp: mem_Set_eq)
  have len: "length (store m') = length (store m)" using cov by (simp add: st)
  have "mem_covers m' off sz" "mem_small m'"
    using assms(1,2) by (simp_all add: mem_covers_def mem_small_def len)
  then have "mem_GetCopy m' off sz = Some (take (unat sz) (drop (unat off) (store m')))"
    using False by (simp add: mem_GetCopy_eq)
  also have "take (unat sz) (drop (unat off) (store m')) = take (unat sz) v"
    using slice_overwrite [of "unat off" "take (unat sz) v" "store m"] cov assms(4)
    by (simp add: st min_absorb2)
  finally show ?thesis .
qed

section \<open>Padding reads\<close>

text \<open>
  \<open>getData\<close> returns the requested window of the data with zeros past its end, as long as the
  clipped start plus the size stays below \<open>2^64\<close> and the size is a non-negative \<open>int\<close>.
\<close>

definition window :: "bytes \<Rightarrow> nat \<Rightarrow> nat \<Rightarrow> bytes" where
  "window d start sz = take sz (drop start d) @ replicate (sz - (length d - start)) 0"

lemma length_window [simp]: "length (window d start sz) = sz"
  by (simp add: window_def)

lemma nth_window:
  "i < sz \<Longrightarrow> window d start sz ! i = (if start + i < length d then d ! (start + i) else 0)"
  by (auto simp: window_def nth_append)

lemma sint_u64_nonneg:
  assumes "unat (sz::u64) < 2 ^ 63" shows "sint sz = int (unat sz)"
proof -
  have u: "uint sz < 2 ^ 63"
    using assms by (metis of_nat_less_iff of_nat_numeral of_nat_power of_nat_unat)
  have "sint sz = signed_take_bit 63 (uint sz)" by (simp add: sint_uint)
  also have "\<dots> = uint sz"
    by (rule signed_take_bit_int_eq_self) (use u uint_nonnegative [of sz] in \<open>auto intro: order_trans [of _ 0]\<close>)
  finally show ?thesis by simp
qed

lemma RightPadBytes_window:
  "RightPadBytes (take (min (min a (length d) + k) (length d) - min a (length d)) (drop (min a (length d)) d)) (int k)
     = window d a k"
  by (auto simp: RightPadBytes_def window_def min_def)

lemma getData_window:
  assumes len: "length d < 2 ^ 63" and sz: "unat sz < 2 ^ 63"
  shows "getData d start sz = Some (window d (unat start) (unat sz))"
proof -
  let ?n = "length d" and ?s = "min (unat start) (length d)"
  have n: "unat (of_nat ?n :: u64) = ?n" using len by (simp add: u64_simps)
  define s where "s = (if start > of_nat ?n then of_nat ?n else start)"
  have s: "unat s = ?s" by (simp add: s_def word_less_nat_alt n)
  have sum: "unat (s + sz) = ?s + unat sz" using len sz by (simp add: u64_simps s)
  define e where "e = (if s + sz > of_nat ?n then of_nat ?n else s + sz)"
  have e: "unat e = min (?s + unat sz) ?n" by (simp add: e_def word_less_nat_alt n sum)
  have "getData d start sz = do { x \<leftarrow> go_slice d (unat s) (unat e); Some (RightPadBytes x (sint sz)) }"
    by (simp add: getData_def Let_def s_def e_def)
  also have "\<dots> = Some (RightPadBytes (take (unat e - unat s) (drop (unat s) d)) (int (unat sz)))"
    using sz by (simp add: go_simps s e sint_u64_nonneg)
  also have "RightPadBytes (take (unat e - unat s) (drop (unat s) d)) (int (unat sz))
      = window d (unat start) (unat sz)"
    by (simp only: s e RightPadBytes_window)
  finally show ?thesis .
qed

lemma getDataAndAdjustedBounds_fst:
  "getData d start sz = map_option fst (getDataAndAdjustedBounds d start sz)"
  by (simp only: getData_def getDataAndAdjustedBounds_def Let_def map_option_bind o_def option.map fst_conv)

section \<open>Properties\<close>

text \<open>
  Property C18. The memory size computed for an access is exact: \<open>calcMemSize64\<close> reports an overflow
  exactly when a non-empty access ends at or beyond \<open>2^64\<close>, and otherwise returns the first byte
  after the access (0 for an empty one, whatever its offset).
\<close>

theorem calcMemSize64_correct:
  "calcMemSize64 off l =
     (if l = 0 then (0, False)
      else if unat off + unat l < 2 ^ 64 then (of_nat (unat off + unat l), False)
      else (fst (calcMemSize64 off l), True))"
proof (cases "l \<noteq> 0 \<and> unat off + unat l \<ge> 2 ^ 64")
  case True
  then show ?thesis using calcMemSize64_overflow [of off l] by (simp add: prod_eq_iff)
next
  case False
  then have no: "\<not> snd (calcMemSize64 off l)" by (simp add: calcMemSize64_overflow)
  have "fst (calcMemSize64 off l) = of_nat (if l = 0 then 0 else unat off + unat l)"
    by (simp only: calcMemSize64_exact [OF no, symmetric] of_nat_unat_u64)
  with False no show ?thesis by (auto simp: prod_eq_iff)
qed

text \<open>
  Property C10. Charging for and then performing a memory expansion: for a well-formed memory and a
  word-aligned new size up to the limit, \<open>memoryGasCost\<close> succeeds, the fee is exactly the difference
  of the Yellow Paper's total fees (no 64-bit wrap-around), and after \<open>Resize\<close> the memory is
  well-formed again with the larger of the two sizes.
\<close>

theorem memory_expansion_correct:
  assumes "mem_wf m" and "unat sz \<le> mem_max_size" and "32 dvd unat sz"
  shows "snd (fst (memoryGasCost m sz)) = None
    \<and> unat (fst (fst (memoryGasCost m sz)))
        = Cmem (max (length (store m)) (unat sz) div 32) - Cmem (length (store m) div 32)
    \<and> mem_wf (mem_Resize (snd (memoryGasCost m sz)) sz)
    \<and> mem_Len (mem_Resize (snd (memoryGasCost m sz)) sz) = max (mem_Len m) (unat sz)"
proof -
  have "mem_words (unat sz) = unat sz div 32"
    using assms(3) by (auto simp: mem_words_def)
  moreover have "max (length (store m) div 32) (unat sz div 32) = max (length (store m)) (unat sz) div 32"
    by (auto simp: max_def div_le_mono intro: antisym)
  ultimately show ?thesis
    using memoryGasCost_exact [OF assms(1,2)] mem_step_wf [OF assms]
    by (simp add: mem_Len_def)
qed

theorem memory_expansion_correct_witness:
  "mem_wf NewMemory \<and> fst (fst (memoryGasCost NewMemory 64)) = 6
     \<and> mem_Len (mem_Resize (snd (memoryGasCost NewMemory 64)) 64) = 64"
  using memory_expansion_correct [of NewMemory 64]
  by (simp add: mem_wf_New mem_max_size_def NewMemory_def Cmem_def mem_Len_def
        memoryGasCost_def toWordSize_def Let_def mem_wf_def)

text \<open>
  Property C19. Memory is a byte store: after \<open>Set\<close> of a range inside the memory with enough bytes,
  \<open>GetCopy\<close> of the same range returns them, the size is unchanged, and every byte outside the range
  keeps its value.
\<close>

theorem memory_Set_GetCopy:
  assumes "mem_covers m off sz" and "mem_small m" and "unat sz \<le> length v"
  shows "\<exists>m'. mem_Set m off sz v = Some m' \<and> mem_GetCopy m' off sz = Some (take (unat sz) v)
     \<and> mem_Len m' = mem_Len m
     \<and> (\<forall>i < mem_Len m. i < unat off \<or> unat off + unat sz \<le> i \<longrightarrow> store m' ! i = store m ! i)"
proof -
  let ?st = "if sz = 0 then store m else overwrite (store m) (unat off) (take (unat sz) v)"
  have set: "mem_Set m off sz v = Some (m\<lparr>store := ?st\<rparr>)"
    using mem_Set_eq [OF assms(1,2)] by simp
  have "mem_GetCopy (m\<lparr>store := ?st\<rparr>) off sz = Some (take (unat sz) v)"
    using mem_GetCopy_Set [OF assms(1,2) set assms(3)] .
  moreover have "length ?st = length (store m)"
    using assms(1) by (auto simp: mem_covers_def)
  moreover have "?st ! i = store m ! i"
    if "i < length (store m)" "i < unat off \<or> unat off + unat sz \<le> i" for i
    using that assms by (auto simp: mem_covers_def nth_overwrite)
  ultimately show ?thesis using set by (auto simp: mem_Len_def)
qed

theorem memory_Set_GetCopy_witness:
  "\<exists>m'. mem_Set \<lparr>store = [1, 2, 3, 4], lastGasCost = 0\<rparr> 1 2 [7, 8] = Some m' \<and> mem_GetCopy m' 1 2 = Some [7, 8]"
  using memory_Set_GetCopy [of "\<lparr>store = [1, 2, 3, 4], lastGasCost = 0\<rparr>" 1 2 "[7, 8]"]
  by (auto simp: mem_covers_def mem_small_def mem_max_size_def)

text \<open>
  Property C20. \<open>getData\<close> is the zero-padded window of its input: for data and size below \<open>2^63\<close> and
  any start it does not panic, has exactly the requested length, and its i-th byte is the input's
  byte at \<open>start + i\<close>, or zero past the end.
\<close>

theorem getData_padded:
  assumes "length d < 2 ^ 63" and "unat sz < 2 ^ 63"
  shows "\<exists>r. getData d start sz = Some r \<and> length r = unat sz
    \<and> (\<forall>i < unat sz. r ! i = (if unat start + i < length d then d ! (unat start + i) else 0))"
  using getData_window [OF assms] nth_window by auto

theorem getData_padded_witness:
  "\<exists>r. getData [1, 2, 3] 2 4 = Some r \<and> length r = 4 \<and> r ! 0 = 3 \<and> r ! 1 = 0"
  using getData_padded [of "[1, 2, 3]" 4 2] by auto

end
