(* ===== verification/VM_Analysis.thy ===== *)
theory VM_Analysis
  imports VM_Memory
begin

text \<open>
  The jump destination analysis of \<open>core/vm/analysis_legacy.go\<close>: a bit per code byte that says
  whether the byte is data of a \<open>PUSHn\<close>. The Go code writes up to 16 bits at a time and assigns
  (instead of or-ing) the bytes after the first one, which is right only because the bits there
  are still clear, and it relies on four spare bytes. The reference is \<open>data_mask\<close>, a scan of the
  code; \<open>codeBitmap\<close> is shown to return and to agree with it. Positions are \<open>nat\<close>: they stay below
  \<open>len(code) + 33\<close>, and \<open>len\<close> is an \<open>int\<close>, so the \<open>uint64\<close> arithmetic does not wrap.
\<close>

section \<open>The code\<close>

type_synonym bitvec = bytes

definition set1 :: "bitvec \<Rightarrow> nat \<Rightarrow> bitvec option" where
  "set1 bits pos = do {
     x \<leftarrow> go_index bits (pos div 8);
     go_update bits (pos div 8) (or x (push_bit (pos mod 8) 1))
   }"

definition setN :: "bitvec \<Rightarrow> 16 word \<Rightarrow> nat \<Rightarrow> bitvec option" where
  "setN bits flag pos = do {
     let a = push_bit (pos mod 8) flag;
     x \<leftarrow> go_index bits (pos div 8);
     bits \<leftarrow> go_update bits (pos div 8) (or x (ucast a));
     let b = (ucast (drop_bit 8 a) :: byte);
     if b \<noteq> 0 then go_update bits (pos div 8 + 1) b else Some bits
   }"

definition set8 :: "bitvec \<Rightarrow> nat \<Rightarrow> bitvec option" where
  "set8 bits pos = do {
     let a = push_bit (pos mod 8) 0xFF;
     x \<leftarrow> go_index bits (pos div 8);
     bits \<leftarrow> go_update bits (pos div 8) (or x a);
     go_update bits (pos div 8 + 1) (not a)
   }"

definition set16 :: "bitvec \<Rightarrow> nat \<Rightarrow> bitvec option" where
  "set16 bits pos = do {
     let a = push_bit (pos mod 8) 0xFF;
     x \<leftarrow> go_index bits (pos div 8);
     bits \<leftarrow> go_update bits (pos div 8) (or x a);
     bits \<leftarrow> go_update bits (pos div 8 + 1) 0xFF;
     go_update bits (pos div 8 + 2) (not a)
   }"

definition codeSegment :: "bitvec \<Rightarrow> nat \<Rightarrow> bool option" where
  "codeSegment bits pos = do {
     x \<leftarrow> go_index bits (pos div 8);
     Some (and (drop_bit (pos mod 8) x) 1 = 0)
   }"

function set16_loop :: "byte \<Rightarrow> nat \<Rightarrow> bitvec \<Rightarrow> (byte \<times> nat \<times> bitvec) option" where
  "set16_loop numbits pc bits =
     (if numbits \<ge> 16 then do {
        bits \<leftarrow> set16 bits pc;
        set16_loop (numbits - 16) (pc + 16) bits
      } else Some (numbits, pc, bits))"
  by pat_completeness auto
termination
  by (relation "measure (\<lambda>(n, _, _). unat n)") (auto simp: word_le_nat_alt unat_sub_if')

function set8_loop :: "byte \<Rightarrow> nat \<Rightarrow> bitvec \<Rightarrow> (byte \<times> nat \<times> bitvec) option" where
  "set8_loop numbits pc bits =
     (if numbits \<ge> 8 then do {
        bits \<leftarrow> set8 bits pc;
        set8_loop (numbits - 8) (pc + 8) bits
      } else Some (numbits, pc, bits))"
  by pat_completeness auto
termination
  by (relation "measure (\<lambda>(n, _, _). unat n)") (auto simp: word_le_nat_alt unat_sub_if')

declare set16_loop.simps [simp del] set8_loop.simps [simp del]

definition set_rest :: "byte \<Rightarrow> nat \<Rightarrow> bitvec \<Rightarrow> (nat \<times> bitvec) option" where
  "set_rest numbits pc bits =
     (if numbits = 1 then map_option (Pair (pc + 1)) (set1 bits pc)
      else if numbits = 2 then map_option (Pair (pc + 2)) (setN bits 0x3 pc)
      else if numbits = 3 then map_option (Pair (pc + 3)) (setN bits 0x7 pc)
      else if numbits = 4 then map_option (Pair (pc + 4)) (setN bits 0xF pc)
      else if numbits = 5 then map_option (Pair (pc + 5)) (setN bits 0x1F pc)
      else if numbits = 6 then map_option (Pair (pc + 6)) (setN bits 0x3F pc)
      else if numbits = 7 then map_option (Pair (pc + 7)) (setN bits 0x7F pc)
      else Some (pc, bits))"

text \<open>The body of the scan for a \<open>PUSHn\<close> at \<open>pc - 1\<close>.\<close>

definition mark_push :: "byte \<Rightarrow> nat \<Rightarrow> bitvec \<Rightarrow> (nat \<times> bitvec) option" where
  "mark_push op pc bits = do {
     let numbits = op - 0x60 + 1;
     (numbits, pc, bits) \<leftarrow>
       (if numbits \<ge> 8 then do {
          (numbits, pc, bits) \<leftarrow> set16_loop numbits pc bits;
          set8_loop numbits pc bits
        } else Some (numbits, pc, bits));
     set_rest numbits pc bits
   }"

text \<open>The scan, with the number of remaining iterations bounded by the code length.\<close>

fun codeBitmap_loop :: "nat \<Rightarrow> bytes \<Rightarrow> nat \<Rightarrow> bitvec \<Rightarrow> bitvec option" where
  "codeBitmap_loop 0 code pc bits = (if pc < length code then None else Some bits)"
| "codeBitmap_loop (Suc n) code pc bits =
     (if pc < length code then
        let op = code ! pc; pc = pc + 1 in
        if sint op < sint (0x60 :: byte) then codeBitmap_loop n code pc bits
        else do {
          (pc, bits) \<leftarrow> mark_push op pc bits;
          codeBitmap_loop n code pc bits
        }
      else Some bits)"

definition codeBitmapInternal :: "bytes \<Rightarrow> bitvec \<Rightarrow> bitvec option" where
  "codeBitmapInternal code bits = codeBitmap_loop (length code) code 0 bits"

definition codeBitmap :: "bytes \<Rightarrow> bitvec option" where
  "codeBitmap code = codeBitmapInternal code (replicate (length code div 8 + 1 + 4) 0)"

section \<open>The reference\<close>

text \<open>The number of data bytes that follow an opcode: \<open>n\<close> for \<open>PUSHn\<close>, none otherwise.\<close>

definition push_len :: "byte \<Rightarrow> nat" where
  "push_len op = (if 0x60 \<le> unat op \<and> unat op \<le> 0x7f then unat op - 0x5f else 0)"

function data_mask :: "bytes \<Rightarrow> bool list" where
  "data_mask [] = []"
| "data_mask (op # code) =
     False # replicate (min (push_len op) (length code)) True @ data_mask (drop (push_len op) code)"
  by pat_completeness auto
termination by (relation "measure length") auto

lemma length_data_mask [simp]: "length (data_mask code) = length code"
  by (induction code rule: data_mask.induct) auto

section \<open>Bits of a vector\<close>

definition bit_at :: "bitvec \<Rightarrow> nat \<Rightarrow> bool" where
  "bit_at bits i \<longleftrightarrow> i div 8 < length bits \<and> bit (bits ! (i div 8)) (i mod 8)"

text \<open>
  \<open>marks n bits pos r\<close>: the operation returns the vector with the \<open>n\<close> bits from \<open>pos\<close> on set and
  all others unchanged.
\<close>

definition marks :: "nat \<Rightarrow> bitvec \<Rightarrow> nat \<Rightarrow> bitvec option \<Rightarrow> bool" where
  "marks n bits pos r \<longleftrightarrow> (\<exists>bits'. r = Some bits' \<and> length bits' = length bits \<and>
     (\<forall>i. bit_at bits' i \<longleftrightarrow> bit_at bits i \<or> pos \<le> i \<and> i < pos + n))"

definition clear_from :: "bitvec \<Rightarrow> nat \<Rightarrow> bool" where
  "clear_from bits pos \<longleftrightarrow> (\<forall>i \<ge> pos. \<not> bit_at bits i)"

lemma clear_fromD:
  assumes "clear_from bits pos" and "pos \<le> 8 * q + r" and "r < 8" and "q < length bits"
  shows "\<not> bit (bits ! q) r"
proof -
  have "\<not> bit_at bits (8 * q + r)" using assms(1,2) by (simp add: clear_from_def)
  then show ?thesis using assms(3,4) by (simp add: bit_at_def)
qed

lemma codeSegment_bit_at:
  "i div 8 < length bits \<Longrightarrow> codeSegment bits i = Some (\<not> bit_at bits i)"
  by (simp add: codeSegment_def go_simps bit_at_def and_one_eq bit_iff_odd_drop_bit flip: even_iff_mod_2_eq_zero)

lemma marksI:
  assumes "r = Some bits'" and len: "length bits' = length bits" and "pos + n \<le> 8 * length bits"
    and *: "\<And>q s. q < length bits \<Longrightarrow> s < 8 \<Longrightarrow>
      bit (bits' ! q) s \<longleftrightarrow> bit (bits ! q) s \<or> pos \<le> 8 * q + s \<and> 8 * q + s < pos + n"
  shows "marks n bits pos r"
proof -
  have "bit_at bits' i \<longleftrightarrow> bit_at bits i \<or> pos \<le> i \<and> i < pos + n" for i
  proof (cases "i div 8 < length bits")
    case True
    then show ?thesis using * [OF True, of "i mod 8"] by (simp add: bit_at_def len)
  next
    case False
    then show ?thesis using assms(3) by (auto simp: bit_at_def len)
  qed
  then show ?thesis using assms(1) len by (auto simp: marks_def)
qed

lemma bit_0xFF: "bit (0xFF :: byte) k \<longleftrightarrow> k < 8"
proof -
  have "(0xFF :: byte) = mask 8" by (simp add: mask_eq_exp_minus_1)
  then show ?thesis by (simp only: bit_mask_iff) simp
qed

lemma set8_marks:
  assumes "clear_from bits pos" and "pos div 8 + 1 < length bits"
  shows "marks 8 bits pos (set8 bits pos)"
proof -
  define j r where "j = pos div 8" and "r = pos mod 8"
  have pos: "pos = 8 * j + r" and r: "r < 8" by (simp_all add: j_def r_def)
  have j: "j + 1 < length bits" using assms(2) by (simp add: j_def)
  define a where "a = push_bit r (0xFF :: byte)"
  have a: "bit a k \<longleftrightarrow> k < 8 \<and> r \<le> k" for k
    using bit_0xFF [of "k - r"] by (auto simp: a_def bit_push_bit_iff)
  let ?b = "bits[j := or (bits ! j) a, Suc j := not a]"
  show ?thesis
  proof (rule marksI)
    show "set8 bits pos = Some ?b"
      using j by (simp add: set8_def go_simps Let_def a_def flip: j_def r_def)
    fix q s :: nat assume q: "q < length bits" and s: "s < 8"
    have n: "\<not> bit (bits ! q) s" if "q = Suc j"
      using clear_fromD [OF assms(1) _ s q] that r by (simp add: pos)
    show "bit (?b ! q) s \<longleftrightarrow> bit (bits ! q) s \<or> pos \<le> 8 * q + s \<and> 8 * q + s < pos + 8"
    proof (cases "q = j \<or> q = Suc j")
      case True
      then show ?thesis
        using q s r n by (elim disjE) (auto simp: pos a bit_or_iff bit_not_iff)
    next
      case False
      then have "q < j \<or> Suc j < q" by linarith
      then have "\<not> (pos \<le> 8 * q + s \<and> 8 * q + s < pos + 8)" using s r by (auto simp: pos)
      then show ?thesis using False by auto
    qed
  qed (use j pos r in simp_all)
qed

lemma set16_marks:
  assumes "clear_from bits pos" and "pos div 8 + 2 < length bits"
  shows "marks 16 bits pos (set16 bits pos)"
proof -
  define j r where "j = pos div 8" and "r = pos mod 8"
  have pos: "pos = 8 * j + r" and r: "r < 8" by (simp_all add: j_def r_def)
  have j: "j + 2 < length bits" using assms(2) by (simp add: j_def)
  define a where "a = push_bit r (0xFF :: byte)"
  have a: "bit a k \<longleftrightarrow> k < 8 \<and> r \<le> k" for k
    using bit_0xFF [of "k - r"] by (auto simp: a_def bit_push_bit_iff)
  let ?b = "bits[j := or (bits ! j) a, Suc j := 0xFF, Suc (Suc j) := not a]"
  show ?thesis
  proof (rule marksI)
    show "set16 bits pos = Some ?b"
      using j by (simp add: set16_def go_simps Let_def a_def flip: j_def r_def)
    fix q s :: nat assume q: "q < length bits" and s: "s < 8"
    have n: "\<not> bit (bits ! q) s" if "q = Suc j \<or> q = Suc (Suc j)"
      using clear_fromD [OF assms(1) _ s q] that r by (auto simp: pos)
    show "bit (?b ! q) s \<longleftrightarrow> bit (bits ! q) s \<or> pos \<le> 8 * q + s \<and> 8 * q + s < pos + 16"
    proof (cases "q = j \<or> q = Suc j \<or> q = Suc (Suc j)")
      case True
      then show ?thesis
        using q s r n bit_0xFF [of s] by (elim disjE) (auto simp: pos a bit_or_iff bit_not_iff)
    next
      case False
      then have "q < j \<or> Suc (Suc j) < q" by linarith
      then have "\<not> (pos \<le> 8 * q + s \<and> 8 * q + s < pos + 16)" using s r by (auto simp: pos)
      then show ?thesis using False by auto
    qed
  qed (use j pos r in simp_all)
qed

lemma setN_marks:
  assumes "clear_from bits pos" and "pos div 8 + 1 < length bits" and "n \<le> 8"
  shows "marks n bits pos (setN bits (mask n) pos)"
proof -
  define j r where "j = pos div 8" and "r = pos mod 8"
  have pos: "pos = 8 * j + r" and r: "r < 8" by (simp_all add: j_def r_def)
  have j: "j + 1 < length bits" using assms(2) by (simp add: j_def)
  define a where "a = push_bit r (mask n :: 16 word)"
  have a: "bit a k \<longleftrightarrow> k < 16 \<and> r \<le> k \<and> k < r + n" for k
    by (auto simp: a_def bit_push_bit_iff bit_mask_iff)
  define hi where "hi = (ucast (drop_bit 8 a) :: byte)"
  have hi: "bit hi k \<longleftrightarrow> k < 8 \<and> k + 8 < r + n" for k
    using r by (auto simp: hi_def bit_ucast_iff bit_drop_bit_eq a)
  have lo: "bit (ucast a :: byte) k \<longleftrightarrow> k < 8 \<and> r \<le> k \<and> k < r + n" for k
    by (auto simp: bit_ucast_iff a)
  let ?b = "bits[j := or (bits ! j) (ucast a)]"
  let ?b' = "if hi \<noteq> 0 then ?b[Suc j := hi] else ?b"
  show ?thesis
  proof (rule marksI)
    show "setN bits (mask n) pos = Some ?b'"
      using j by (simp add: setN_def go_simps Let_def hi_def a_def flip: j_def r_def)
    fix q s :: nat assume q: "q < length bits" and s: "s < 8"
    have n: "\<not> bit (bits ! q) s" if "q = Suc j"
      using clear_fromD [OF assms(1) _ s q] that r by (simp add: pos)
    have z: "\<not> (s + 8 < r + n)" if "hi = 0"
      using hi [of s] that s by simp
    show "bit (?b' ! q) s \<longleftrightarrow> bit (bits ! q) s \<or> pos \<le> 8 * q + s \<and> 8 * q + s < pos + n"
    proof (cases "q = j \<or> q = Suc j")
      case True
      then show ?thesis
        using q s r n z assms(3) by (elim disjE; cases "hi = 0") (auto simp: pos hi lo bit_or_iff)
    next
      case False
      then have "q < j \<or> Suc j < q" by linarith
      then have "\<not> (pos \<le> 8 * q + s \<and> 8 * q + s < pos + n)" using s r assms(3) by (auto simp: pos)
      then show ?thesis using False by auto
    qed
  qed (use j pos r assms(3) in simp_all)
qed

lemma set1_setN: "pos div 8 < length bits \<Longrightarrow> set1 bits pos = setN bits (mask 1) pos"
proof -
  assume len: "pos div 8 < length bits"
  have lo: "(ucast (2 ^ (pos mod 8) :: 16 word) :: byte) = 2 ^ (pos mod 8)"
    by (rule bit_word_eqI) (auto simp: bit_simps)
  have hi: "(ucast (drop_bit 8 (2 ^ (pos mod 8) :: 16 word)) :: byte) = 0"
    by (rule bit_word_eqI) (auto simp: bit_simps)
  show "set1 bits pos = setN bits (mask 1) pos"
    using len by (simp add: set1_def setN_def go_simps Let_def lo hi)
qed

section \<open>Composition\<close>

lemma marks_0: "marks 0 bits pos (Some bits)"
  by (auto simp: marks_def)

lemma marks_append:
  assumes "marks n bits pos (Some b)" and "marks m b (pos + n) r"
  shows "marks (n + m) bits pos r"
  using assms by (auto simp: marks_def)

lemma marks_clear: "marks n bits pos (Some b) \<Longrightarrow> clear_from bits pos \<Longrightarrow> clear_from b (pos + n)"
  by (auto simp: marks_def clear_from_def)

lemma marks_length: "marks n bits pos (Some b) \<Longrightarrow> length b = length bits"
  by (simp add: marks_def)

lemma marksE: "marks n bits pos r \<Longrightarrow> (\<And>b. r = Some b \<Longrightarrow> marks n bits pos (Some b) \<Longrightarrow> P) \<Longrightarrow> P"
  by (auto simp: marks_def)

lemma div_mod_step:
  fixes n d :: nat
  assumes "d \<le> n" "0 < d"
  shows "n div d = Suc ((n - d) div d)" and "(n - d) mod d = n mod d"
  using assms le_div_geq le_mod_geq by auto

lemma div8_sub16: "16 \<le> n \<Longrightarrow> n div 8 = (n - 16) div 8 + 2" for n :: nat
  using div_mod_step(1) [of 8 n] div_mod_step(1) [of 8 "n - 8"] by simp

lemma set16_loop_marks:
  assumes "clear_from bits pc" and "pc div 8 + unat nb div 8 < length bits"
  shows "\<exists>nb' b. set16_loop nb pc bits = Some (nb', pc + 16 * (unat nb div 16), b)
    \<and> unat nb' = unat nb mod 16 \<and> marks (16 * (unat nb div 16)) bits pc (Some b)"
  using assms
proof (induction nb pc bits rule: set16_loop.induct)
  case (1 nb pc bits)
  show ?case
  proof (cases "nb \<ge> 16")
    case True
    then have ge: "16 \<le> unat nb" by (simp add: word_le_nat_alt)
    have nb: "unat (nb - 16) = unat nb - 16" using ge by (simp add: unat_sub_if')
    have q: "unat nb div 16 = Suc ((unat nb - 16) div 16)"
      and q8: "unat nb div 8 = (unat nb - 16) div 8 + 2"
      and m: "(unat nb - 16) mod 16 = unat nb mod 16"
      using ge div_mod_step [of 16 "unat nb"] div8_sub16 by auto
    obtain b where b: "set16 bits pc = Some b" and mb: "marks 16 bits pc (Some b)"
      using set16_marks [OF 1(2)] 1(3) q8 by (auto elim: marksE)
    have "clear_from b (pc + 16)" using marks_clear [OF mb 1(2)] .
    moreover have "(pc + 16) div 8 + unat (nb - 16) div 8 < length b"
      using 1(3) q8 marks_length [OF mb] by (simp add: nb)
    ultimately obtain nb' b' where
      l: "set16_loop (nb - 16) (pc + 16) b = Some (nb', pc + 16 + 16 * (unat (nb - 16) div 16), b')"
      and nb': "unat nb' = unat (nb - 16) mod 16"
      and mb': "marks (16 * (unat (nb - 16) div 16)) b (pc + 16) (Some b')"
      using 1(1) [OF True b] by blast
    show ?thesis
      using True l nb' marks_append [OF mb mb'] q m
      by (subst set16_loop.simps) (simp add: b nb)
  next
    case False
    then have "unat nb < 16" by (simp add: word_le_nat_alt)
    then show ?thesis using False by (subst set16_loop.simps) (simp add: marks_0)
  qed
qed

lemma set8_loop_marks:
  assumes "clear_from bits pc" and "pc div 8 + unat nb div 8 < length bits"
  shows "\<exists>nb' b. set8_loop nb pc bits = Some (nb', pc + 8 * (unat nb div 8), b)
    \<and> unat nb' = unat nb mod 8 \<and> marks (8 * (unat nb div 8)) bits pc (Some b)"
  using assms
proof (induction nb pc bits rule: set8_loop.induct)
  case (1 nb pc bits)
  show ?case
  proof (cases "nb \<ge> 8")
    case True
    then have ge: "8 \<le> unat nb" by (simp add: word_le_nat_alt)
    have nb: "unat (nb - 8) = unat nb - 8" using ge by (simp add: unat_sub_if')
    have q: "unat nb div 8 = Suc ((unat nb - 8) div 8)" and m: "(unat nb - 8) mod 8 = unat nb mod 8"
      using ge div_mod_step [of 8 "unat nb"] by auto
    obtain b where b: "set8 bits pc = Some b" and mb: "marks 8 bits pc (Some b)"
      using set8_marks [OF 1(2)] 1(3) q by (auto elim: marksE)
    have "clear_from b (pc + 8)" using marks_clear [OF mb 1(2)] .
    moreover have "(pc + 8) div 8 + unat (nb - 8) div 8 < length b"
      using 1(3) q marks_length [OF mb] by (simp add: nb)
    ultimately obtain nb' b' where
      l: "set8_loop (nb - 8) (pc + 8) b = Some (nb', pc + 8 + 8 * (unat (nb - 8) div 8), b')"
      and nb': "unat nb' = unat (nb - 8) mod 8"
      and mb': "marks (8 * (unat (nb - 8) div 8)) b (pc + 8) (Some b')"
      using 1(1) [OF True b] by blast
    show ?thesis
      using True l nb' marks_append [OF mb mb'] q m
      by (subst set8_loop.simps) (simp add: b nb)
  next
    case False
    then have "unat nb < 8" by (simp add: word_le_nat_alt)
    then show ?thesis using False by (subst set8_loop.simps) (simp add: marks_0)
  qed
qed

lemma set_rest_marks:
  assumes "clear_from bits pc" and "unat nb < 8" and "nb \<noteq> 0 \<longrightarrow> pc div 8 + 1 < length bits"
  shows "\<exists>b. set_rest nb pc bits = Some (pc + unat nb, b) \<and> marks (unat nb) bits pc (Some b)"
proof (cases "nb = 0")
  case True
  then show ?thesis by (simp add: set_rest_def marks_0)
next
  case False
  then have m: "n \<le> 8 \<Longrightarrow> marks n bits pc (setN bits (mask n) pc)" for n
    using setN_marks [OF assms(1)] assms(3) by simp
  have one: "set1 bits pc = setN bits (mask 1) pc"
    using False assms(3) by (simp add: set1_setN)
  have nb: "nb = of_nat (unat nb)" by simp
  have "unat nb \<in> {1, 2, 3, 4, 5, 6, 7}"
    using assms(2) False unat_eq_0 [of nb] by (simp only: insert_iff empty_iff) presburger
  then consider "nb = 1" | "nb = 2" | "nb = 3" | "nb = 4" | "nb = 5" | "nb = 6" | "nb = 7"
    using nb by (auto simp del: word_of_nat_eq_0_iff of_nat_unat)
  then have "set_rest nb pc bits = map_option (Pair (pc + unat nb)) (setN bits (mask (unat nb)) pc)"
    by cases (simp_all add: set_rest_def one mask_numeral)
  with m [of "unat nb"] assms(2) show ?thesis
    by (auto elim: marksE)
qed

lemma unat_less_uint: "unat x < n \<Longrightarrow> uint x < int n"
  by (metis of_nat_less_iff of_nat_unat)

lemma unat_ge_uint: "n \<le> unat x \<Longrightarrow> int n \<le> uint x"
  by (metis of_nat_le_iff of_nat_unat)

lemma sint_byte: "sint (x::byte) = (if unat x < 128 then int (unat x) else int (unat x) - 256)"
proof (cases "unat x < 128")
  case True
  have u: "uint x < 2 ^ 7" using unat_less_uint [OF True] by simp
  have "sint x = signed_take_bit 7 (uint x)" by (simp add: sint_uint)
  also have "\<dots> = uint x"
    by (rule signed_take_bit_int_eq_self) (use u uint_nonnegative [of x] in \<open>auto intro: order_trans [of _ 0]\<close>)
  finally show ?thesis using True by simp
next
  case False
  have l: "128 \<le> uint x" using unat_ge_uint [of 128 x] False by simp
  have h: "uint x < 256" using uint_bounded [of x] by simp
  have d: "uint x div 128 = 1" using l h by presburger
  have "bit (uint x) 7" by (simp add: bit_iff_odd d)
  then have "signed_take_bit 7 (uint x) = uint x - 256"
    using h by (simp add: signed_take_bit_eq_take_bit_minus take_bit_eq_mod)
  then show ?thesis using False by (simp add: sint_uint)
qed

lemma is_push_signed: "sint op < sint (0x60 :: byte) \<longleftrightarrow> push_len op = 0"
  using unsigned_less [of op, where ?'a = nat] by (auto simp: sint_byte push_len_def simp del: of_nat_unat)

lemma div16_8: "n div 8 = 2 * (n div 16) + n mod 16 div 8" for n :: nat
proof -
  have "n = n mod 16 + 8 * (2 * (n div 16))" by simp
  then have "n div 8 = (n mod 16 + 8 * (2 * (n div 16))) div 8" by simp
  also have "\<dots> = 2 * (n div 16) + n mod 16 div 8" by (rule div_mult_self2) simp
  finally show ?thesis .
qed

lemma div8_add16: "(p + 16 * q) div 8 = p div 8 + 2 * q" for p q :: nat
proof -
  have "p + 16 * q = p + 8 * (2 * q)" by simp
  then show ?thesis using div_mult_self2 [of 8 p "2 * q"] by simp
qed

lemma mark_push_marks:
  assumes "clear_from bits pc" and "pc div 8 + 4 < length bits" and "push_len op \<noteq> 0"
  shows "\<exists>b. mark_push op pc bits = Some (pc + push_len op, b) \<and> marks (push_len op) bits pc (Some b)"
proof -
  define n where "n = push_len op"
  have op: "96 \<le> unat op" and n: "n = unat op - 95" "n \<le> 32" "n \<noteq> 0"
    using assms(3) by (auto simp: n_def push_len_def split: if_splits)
  define k where "k = op - 0x60 + 1"
  have nb: "unat k = n" using op n by (simp add: k_def unat_sub_if')
  have mp: "mark_push op pc bits = do {
      (numbits, pc, bits) \<leftarrow>
        (if k \<ge> 8 then do { (numbits, pc, bits) \<leftarrow> set16_loop k pc bits; set8_loop numbits pc bits }
         else Some (k, pc, bits));
      set_rest numbits pc bits }"
    by (simp only: mark_push_def Let_def k_def)
  have "n div 8 \<le> 4" using n(2) by simp
  then obtain nb1 b1 where
    l16: "set16_loop (k) pc bits = Some (nb1, pc + 16 * (n div 16), b1)"
    and nb1: "unat nb1 = n mod 16" and m1: "marks (16 * (n div 16)) bits pc (Some b1)"
    using set16_loop_marks [OF assms(1), of "k"] assms(2) by (auto simp: nb)
  have c1: "clear_from b1 (pc + 16 * (n div 16))" using marks_clear [OF m1 assms(1)] .
  have d8: "(pc + 16 * (n div 16)) div 8 + n mod 16 div 8 = pc div 8 + n div 8"
    and m8: "n mod 16 mod 8 = n mod 8" and s8: "16 * (n div 16) + 8 * (n mod 16 div 8) = 8 * (n div 8)"
    using div16_8 [of n] by (simp_all add: div8_add16 mod_mod_cancel)
  then obtain nb2 b2 where
    l8: "set8_loop nb1 (pc + 16 * (n div 16)) b1 = Some (nb2, pc + 8 * (n div 8), b2)"
    and nb2: "unat nb2 = n mod 8" and m2: "marks (8 * (n mod 16 div 8)) b1 (pc + 16 * (n div 16)) (Some b2)"
    using set8_loop_marks [OF c1, of nb1] assms(2) \<open>n div 8 \<le> 4\<close> marks_length [OF m1]
    by (auto simp: nb1 add.assoc)
  have m12: "marks (8 * (n div 8)) bits pc (Some b2)" using marks_append [OF m1 m2] by (simp only: s8)
  have c2: "clear_from b2 (pc + 8 * (n div 8))" using marks_clear [OF m12 assms(1)] .
  have "n mod 8 \<noteq> 0 \<longrightarrow> n div 8 \<le> 3" using n(2) by (cases "n = 32") auto
  then have "nb2 \<noteq> 0 \<longrightarrow> (pc + 8 * (n div 8)) div 8 + 1 < length b2"
    using assms(2) marks_length [OF m12] nb2 by (auto simp: unat_eq_zero)
  then obtain b3 where r: "set_rest nb2 (pc + 8 * (n div 8)) b2 = Some (pc + 8 * (n div 8) + n mod 8, b3)"
    and m3: "marks (n mod 8) b2 (pc + 8 * (n div 8)) (Some b3)"
    using set_rest_marks [OF c2, of nb2] nb2 by auto
  have "marks n bits pc (Some b3)" using marks_append [OF m12 m3] by simp
  moreover have "mark_push op pc bits = Some (pc + n, b3)"
  proof (cases "k \<ge> 8")
    case True
    then show ?thesis by (simp add: mp l16 l8 r add.assoc)
  next
    case False
    then have "set16_loop (k) pc bits = Some (k, pc, bits)"
      by (subst set16_loop.simps) (simp add: word_le_nat_alt)
    moreover have "set8_loop (k) pc bits = Some (k, pc, bits)"
      using False by (subst set8_loop.simps) simp
    ultimately have "nb2 = k" "pc + 8 * (n div 8) = pc" "b2 = bits"
      using l16 l8 by auto
    then show ?thesis using False r by (simp add: mp add.assoc)
  qed
  ultimately show ?thesis by (auto simp: n_def)
qed

section \<open>The scan\<close>

text \<open>The data bit of position \<open>i\<close> when the scan resumes at \<open>pc\<close> with the bits found so far.\<close>

definition mask_from :: "bytes \<Rightarrow> nat \<Rightarrow> nat \<Rightarrow> bool" where
  "mask_from code pc i \<longleftrightarrow> pc \<le> i \<and> data_mask (drop pc code) ! (i - pc)"

lemma mask_from_step:
  assumes "pc < length code" and "i < length code"
  shows "mask_from code pc i \<longleftrightarrow>
    (pc + 1 \<le> i \<and> i < pc + 1 + push_len (code ! pc)) \<or> mask_from code (pc + 1 + push_len (code ! pc)) i"
proof -
  let ?n = "push_len (code ! pc)"
  have d: "drop pc code = code ! pc # drop (Suc pc) code" using assms(1) by (rule Cons_nth_drop_Suc [symmetric])
  have m: "data_mask (drop pc code) =
      False # replicate (min ?n (length code - Suc pc)) True @ data_mask (drop (pc + 1 + ?n) code)"
    by (simp add: d add.commute)
  consider "i < pc" | "i = pc" | "pc < i" "i < pc + 1 + ?n" | "pc + 1 + ?n \<le> i" by linarith
  then show ?thesis
  proof cases
    case 3
    then obtain k where k: "i = pc + Suc k" by (metis less_imp_Suc_add add_Suc_right)
    with assms(2) have "k < length code - Suc pc" by simp
    with k 3 show ?thesis by (simp add: mask_from_def m nth_append)
  next
    case 4
    then obtain k where k: "i = pc + 1 + ?n + k" by (metis le_iff_add)
    with assms(2) show ?thesis by (simp add: mask_from_def m nth_append)
  qed (auto simp: mask_from_def m)
qed

lemma codeBitmap_loop_correct:
  assumes "clear_from bits pc" and "length bits = length code div 8 + 5" and "length code - pc \<le> n"
  shows "\<exists>b. codeBitmap_loop n code pc bits = Some b \<and> length b = length bits
    \<and> (\<forall>i < length code. bit_at b i \<longleftrightarrow> bit_at bits i \<or> mask_from code pc i)"
  using assms
proof (induction n arbitrary: pc bits)
  case 0
  then show ?case by (auto simp: mask_from_def)
next
  case (Suc n)
  show ?case
  proof (cases "pc < length code")
    case False
    then show ?thesis by (auto simp: mask_from_def)
  next
    case True
    note step = mask_from_step [OF True]
    have rest: "length code - (pc + 1) \<le> n" "length code - (pc + 1 + k) \<le> n" for k
      using Suc.prems(3) by simp_all
    show ?thesis
    proof (cases "push_len (code ! pc) = 0")
      case no: True
      have "clear_from bits (pc + 1)" using Suc.prems(1) by (auto simp: clear_from_def)
      then obtain b where "codeBitmap_loop n code (pc + 1) bits = Some b" "length b = length bits"
        "\<forall>i < length code. bit_at b i \<longleftrightarrow> bit_at bits i \<or> mask_from code (pc + 1) i"
        using Suc.IH [of bits "pc + 1"] Suc.prems(2) rest by auto
      moreover have "mask_from code pc i = mask_from code (pc + 1) i" if "i < length code" for i
        using step [OF that] no by auto
      ultimately show ?thesis using True no by (simp add: is_push_signed [simplified] Let_def)
    next
      case False
      let ?k = "push_len (code ! pc)"
      have c: "clear_from bits (pc + 1)" using Suc.prems(1) by (auto simp: clear_from_def)
      have "(pc + 1) div 8 \<le> length code div 8" using True by (simp add: div_le_mono)
      then obtain b where p: "mark_push (code ! pc) (pc + 1) bits = Some (pc + 1 + ?k, b)"
        and m: "marks ?k bits (pc + 1) (Some b)"
        using mark_push_marks [OF c _ False] Suc.prems(2) by auto
      have "length b = length bits" using marks_length [OF m] .
      then obtain b' where b': "codeBitmap_loop n code (pc + 1 + ?k) b = Some b'" "length b' = length bits"
        "\<forall>i < length code. bit_at b' i \<longleftrightarrow> bit_at b i \<or> mask_from code (pc + 1 + ?k) i"
        using Suc.IH [OF marks_clear [OF m c]] Suc.prems(2) rest by auto
      have "bit_at b i \<longleftrightarrow> bit_at bits i \<or> pc + 1 \<le> i \<and> i < pc + 1 + ?k" for i
        using m by (auto simp: marks_def)
      then have "\<forall>i < length code. bit_at b' i \<longleftrightarrow> bit_at bits i \<or> mask_from code pc i"
        using b'(3) step by blast
      then show ?thesis using True False b'(1,2) p by (simp add: is_push_signed [simplified] Let_def)
    qed
  qed
qed

lemma codeBitmap_Some:
  "\<exists>b. codeBitmap code = Some b \<and> length b = length code div 8 + 5
     \<and> (\<forall>i < length code. bit_at b i \<longleftrightarrow> data_mask code ! i)"
proof -
  let ?z = "replicate (length code div 8 + 5) (0 :: byte)"
  have "\<not> bit_at ?z i" for i by (auto simp: bit_at_def)
  then have "clear_from ?z 0" by (simp add: clear_from_def)
  then obtain b where "codeBitmap_loop (length code) code 0 ?z = Some b" "length b = length ?z"
    "\<forall>i < length code. bit_at b i \<longleftrightarrow> bit_at ?z i \<or> mask_from code 0 i"
    using codeBitmap_loop_correct [of ?z 0 code "length code"] by auto
  moreover have "codeBitmap code = codeBitmap_loop (length code) code 0 ?z"
    by (simp add: codeBitmap_def codeBitmapInternal_def add.commute)
  ultimately show ?thesis using \<open>\<And>i. \<not> bit_at ?z i\<close> by (auto simp: mask_from_def)
qed

lemma codeBitmap_codeSegment:
  assumes "codeBitmap code = Some b" and "i < length code"
  shows "codeSegment b i = Some (\<not> data_mask code ! i)"
proof -
  have "length b = length code div 8 + 5" and "bit_at b i \<longleftrightarrow> data_mask code ! i"
    using codeBitmap_Some [of code] assms by auto
  moreover have "i div 8 < length code div 8 + 5"
    using assms(2) div_le_mono [of i "length code" 8] by simp
  ultimately show ?thesis by (simp add: codeSegment_bit_at)
qed

end
