(* ===== verification/VM_Contract.thy ===== *)
theory VM_Contract
  imports VM_Analysis
begin

text \<open>
  A call frame's contract (\<open>core/vm/contract.go\<close>). The aggregated \<open>jumpdests\<close> map is shared by all
  contracts of an EVM through a pointer; here it is passed to and returned from the methods that
  read or extend it. The tracer hooks of \<open>UseGas\<close> and \<open>RefundGas\<close> observe and do not change state.
\<close>

type_synonym jumpDests = "hash \<Rightarrow> bitvec option"

record Contract =
  ccaller :: address
  caddress :: address
  analysis :: "bitvec option"
  Code :: bytes
  CodeHash :: hash
  Input :: bytes
  IsDeployment :: bool
  IsSystemCall :: bool
  Gas :: u64
  cvalue :: u256

definition NewContract :: "address \<Rightarrow> address \<Rightarrow> u256 \<Rightarrow> u64 \<Rightarrow> Contract" where
  "NewContract caller address v gas =
     \<lparr>ccaller = caller, caddress = address, analysis = None, Code = [], CodeHash = 0, Input = [],
      IsDeployment = False, IsSystemCall = False, Gas = gas, cvalue = v\<rparr>"

definition isCode :: "Contract \<Rightarrow> jumpDests \<Rightarrow> u64 \<Rightarrow> (bool \<times> Contract \<times> jumpDests) option" where
  "isCode c jd udest =
     (case analysis c of
        Some a \<Rightarrow> do { r \<leftarrow> codeSegment a (unat udest); Some (r, c, jd) }
      | None \<Rightarrow>
        if CodeHash c \<noteq> 0 then
          case jd (CodeHash c) of
            Some a \<Rightarrow> do {
              r \<leftarrow> codeSegment a (unat udest);
              Some (r, c\<lparr>analysis := Some a\<rparr>, jd)
            }
          | None \<Rightarrow> do {
              a \<leftarrow> codeBitmap (Code c);
              r \<leftarrow> codeSegment a (unat udest);
              Some (r, c\<lparr>analysis := Some a\<rparr>, jd(CodeHash c \<mapsto> a))
            }
        else do {
          a \<leftarrow> codeBitmap (Code c);
          r \<leftarrow> codeSegment a (unat udest);
          Some (r, c\<lparr>analysis := Some a\<rparr>, jd)
        })"

definition validJumpdest ::
  "Contract \<Rightarrow> jumpDests \<Rightarrow> u256 \<Rightarrow> (bool \<times> Contract \<times> jumpDests) option" where
  "validJumpdest c jd dest = do {
     let (udest, overflow) = Uint64WithOverflow dest;
     if overflow \<or> udest \<ge> of_nat (length (Code c)) then Some (False, c, jd)
     else do {
       op \<leftarrow> go_index (Code c) (unat udest);
       if op \<noteq> 0x5b then Some (False, c, jd) else isCode c jd udest
     }
   }"

definition GetOp :: "Contract \<Rightarrow> u64 \<Rightarrow> byte" where
  "GetOp c n = (if n < of_nat (length (Code c)) then Code c ! unat n else 0)"

definition UseGas :: "Contract \<Rightarrow> u64 \<Rightarrow> bool \<times> Contract" where
  "UseGas c gas = (if Gas c < gas then (False, c) else (True, c\<lparr>Gas := Gas c - gas\<rparr>))"

definition RefundGas :: "Contract \<Rightarrow> u64 \<Rightarrow> Contract" where
  "RefundGas c gas = (if gas = 0 then c else c\<lparr>Gas := Gas c + gas\<rparr>)"

definition SetCallCode :: "Contract \<Rightarrow> hash \<Rightarrow> bytes \<Rightarrow> Contract" where
  "SetCallCode c hash code = c\<lparr>Code := code, CodeHash := hash\<rparr>"

section \<open>The analysis cache\<close>

text \<open>
  \<open>caches_fit\<close>: every cached bitmap is long enough for the contract's code, which is all that
  panic-freedom needs. \<open>caches_right\<close>: every cached bitmap is the one of the contract's code.
\<close>

definition fits :: "bitvec \<Rightarrow> bytes \<Rightarrow> bool" where
  "fits b code \<longleftrightarrow> length b = length code div 8 + 5"

definition caches_fit :: "Contract \<Rightarrow> jumpDests \<Rightarrow> bool" where
  "caches_fit c jd \<longleftrightarrow>
     (\<forall>a. analysis c = Some a \<longrightarrow> fits a (Code c)) \<and>
     (CodeHash c \<noteq> 0 \<longrightarrow> (\<forall>a. jd (CodeHash c) = Some a \<longrightarrow> fits a (Code c)))"

definition caches_right :: "Contract \<Rightarrow> jumpDests \<Rightarrow> bool" where
  "caches_right c jd \<longleftrightarrow>
     (\<forall>a. analysis c = Some a \<longrightarrow> codeBitmap (Code c) = Some a) \<and>
     (CodeHash c \<noteq> 0 \<longrightarrow> (\<forall>a. jd (CodeHash c) = Some a \<longrightarrow> codeBitmap (Code c) = Some a))"

lemma codeBitmap_fits: "codeBitmap code = Some b \<Longrightarrow> fits b code"
  using codeBitmap_Some [of code] by (auto simp: fits_def)

lemma caches_right_fit: "caches_right c jd \<Longrightarrow> caches_fit c jd"
  by (auto simp: caches_right_def caches_fit_def codeBitmap_fits)

lemma codeSegment_fits: "fits b code \<Longrightarrow> i < length code \<Longrightarrow> \<exists>r. codeSegment b i = Some r"
  using div_le_mono [of i "length code" 8] by (simp add: fits_def codeSegment_bit_at)

text \<open>The only parts of the state a jump check changes.\<close>

lemma isCode_Some:
  assumes "caches_fit c jd" and "unat udest < length (Code c)"
  shows "\<exists>r a jd'. isCode c jd udest = Some (r, c\<lparr>analysis := a\<rparr>, jd')
    \<and> (\<forall>h b. jd' h = Some b \<longrightarrow> jd h = Some b \<or> h = CodeHash c \<and> fits b (Code c))
    \<and> caches_fit (c\<lparr>analysis := a\<rparr>) jd'"
proof -
  obtain b where b: "codeBitmap (Code c) = Some b" using codeBitmap_Some by blast
  have fb: "fits b (Code c)" using codeBitmap_fits [OF b] .
  have seg: "fits a (Code c) \<Longrightarrow> \<exists>r. codeSegment a (unat udest) = Some r" for a
    using codeSegment_fits assms(2) by blast
  show ?thesis
  proof (cases "analysis c")
    case (Some a)
    with assms(1) have "fits a (Code c)" by (simp add: caches_fit_def)
    with seg obtain r where "codeSegment a (unat udest) = Some r" by blast
    moreover have c: "c\<lparr>analysis := Some a\<rparr> = c" by (simp flip: Some)
    ultimately have "isCode c jd udest = Some (r, c\<lparr>analysis := Some a\<rparr>, jd)"
      using Some by (simp add: isCode_def)
    with assms(1) c show ?thesis by metis
  next
    case None
    obtain r where r: "codeSegment b (unat udest) = Some r" using seg [OF fb] by blast
    show ?thesis
    proof (cases "CodeHash c \<noteq> 0 \<and> jd (CodeHash c) \<noteq> None")
      case True
      then obtain a where a: "jd (CodeHash c) = Some a" by auto
      with True assms(1) have fa: "fits a (Code c)" by (simp add: caches_fit_def)
      obtain r' where "codeSegment a (unat udest) = Some r'" using seg [OF fa] by blast
      with None True a have "isCode c jd udest = Some (r', c\<lparr>analysis := Some a\<rparr>, jd)"
        by (simp add: isCode_def)
      moreover have "caches_fit (c\<lparr>analysis := Some a\<rparr>) jd" using a fa by (simp add: caches_fit_def)
      ultimately show ?thesis by blast
    next
      case False
      let ?jd = "if CodeHash c \<noteq> 0 then jd(CodeHash c \<mapsto> b) else jd"
      have "isCode c jd udest = Some (r, c\<lparr>analysis := Some b\<rparr>, ?jd)"
        using None False by (auto simp: isCode_def b r)
      moreover have "caches_fit (c\<lparr>analysis := Some b\<rparr>) ?jd" using fb by (simp add: caches_fit_def)
      ultimately show ?thesis using fb
        by (intro exI [of _ r] exI [of _ "Some b"] exI [of _ ?jd]) (auto split: if_splits)
    qed
  qed
qed

lemma isCode_right:
  assumes "caches_right c jd" and "unat udest < length (Code c)"
  shows "\<exists>a jd'. isCode c jd udest
      = Some (\<not> data_mask (Code c) ! unat udest, c\<lparr>analysis := Some a\<rparr>, jd')
    \<and> caches_right (c\<lparr>analysis := Some a\<rparr>) jd'
    \<and> (\<forall>h. h \<noteq> CodeHash c \<longrightarrow> jd' h = jd h)"
proof -
  obtain b where b: "codeBitmap (Code c) = Some b" using codeBitmap_Some by blast
  have seg: "codeSegment b (unat udest) = Some (\<not> data_mask (Code c) ! unat udest)"
    using codeBitmap_codeSegment [OF b assms(2)] .
  let ?jd = "if analysis c = None \<and> CodeHash c \<noteq> 0 then jd(CodeHash c \<mapsto> b) else jd"
  have "isCode c jd udest = Some (\<not> data_mask (Code c) ! unat udest, c\<lparr>analysis := Some b\<rparr>, ?jd)"
    using assms(1) b seg
    by (auto simp: isCode_def caches_right_def fun_upd_idem split: option.splits)
  moreover have "caches_right (c\<lparr>analysis := Some b\<rparr>) ?jd"
    using assms(1) b by (auto simp: caches_right_def split: if_splits)
  ultimately show ?thesis by (intro exI [of _ b] exI [of _ ?jd]) auto
qed

lemma jumpdest_in_range:
  assumes "length (Code c) < 2 ^ 63"
  shows "(\<not> IsUint64 dest \<or> Uint64 dest \<ge> of_nat (length (Code c))) \<longleftrightarrow> unat dest \<ge> length (Code c)"
proof -
  have n: "unat (of_nat (length (Code c)) :: u64) = length (Code c)"
    using assms by (simp add: u64_simps)
  show ?thesis
  proof (cases "IsUint64 dest")
    case True
    then show ?thesis by (simp add: word_le_nat_alt n)
  next
    case False
    then show ?thesis using assms by (auto simp: IsUint64_def)
  qed
qed

lemma validJumpdest_cases:
  assumes "length (Code c) < 2 ^ 63"
  shows "validJumpdest c jd dest =
    (if unat dest < length (Code c) \<and> Code c ! unat dest = 0x5b
     then isCode c jd (Uint64 dest) else Some (False, c, jd))"
proof (cases "unat dest < length (Code c)")
  case True
  then have "IsUint64 dest" using assms by (simp add: IsUint64_def)
  with True show ?thesis
    using jumpdest_in_range [OF assms, of dest]
    by (simp add: validJumpdest_def Uint64WithOverflow_def Let_def go_simps)
next
  case False
  then show ?thesis
    using jumpdest_in_range [OF assms, of dest]
    by (auto simp: validJumpdest_def Uint64WithOverflow_def Let_def)
qed

section \<open>Properties\<close>

text \<open>
  Property C12. The jump destination analysis is right: \<open>codeBitmap\<close> never writes out of range, and
  for every position of the code its bit says "data" exactly when the position lies in the
  immediate of an earlier \<open>PUSHn\<close> of the linear scan.
\<close>

theorem codeBitmap_correct:
  "\<exists>b. codeBitmap code = Some b \<and>
     map (codeSegment b) [0..<length code] = map (\<lambda>d. Some (\<not> d)) (data_mask code)"
proof -
  obtain b where b: "codeBitmap code = Some b" using codeBitmap_Some by blast
  have "map (codeSegment b) [0..<length code] = map (\<lambda>d. Some (\<not> d)) (data_mask code)"
    by (rule nth_equalityI) (simp_all add: codeBitmap_codeSegment [OF b])
  with b show ?thesis by blast
qed



end
