(* ===== verification/State_AccessList.thy ===== *)
theory State_AccessList
  imports Prelude
begin

text \<open>
  The per-transaction access list (\<open>core/state/access_list.go\<close>): a map from addresses to an index
  into a list of slot sets, with \<open>-1\<close> for an address without slots. A Go \<open>map[Hash]struct{}\<close> is a
  set. The journal undoes additions by \<open>DeleteSlot\<close> and \<open>DeleteAddress\<close> in reverse order; the lemmas
  show that this restores the list exactly, index layout included, under the invariant \<open>al_wf\<close>.
\<close>

section \<open>Operations\<close>

record accessList =
  addresses :: "address \<Rightarrow> int option"
  slots :: "hash set list"

definition newAccessList :: accessList where
  "newAccessList = \<lparr>addresses = Map.empty, slots = []\<rparr>"

definition ContainsAddress :: "accessList \<Rightarrow> address \<Rightarrow> bool" where
  "ContainsAddress al a = (addresses al a \<noteq> None)"

definition Contains :: "accessList \<Rightarrow> address \<Rightarrow> hash \<Rightarrow> (bool \<times> bool) option" where
  "Contains al a slot =
     (case addresses al a of
        None \<Rightarrow> Some (False, False)
      | Some idx \<Rightarrow>
          if idx = -1 then Some (True, False)
          else if idx < 0 then None
          else do { m \<leftarrow> go_index (slots al) (nat idx); Some (True, slot \<in> m) })"

definition AddAddress :: "accessList \<Rightarrow> address \<Rightarrow> bool \<times> accessList" where
  "AddAddress al a =
     (if addresses al a \<noteq> None then (False, al)
      else (True, al\<lparr>addresses := (addresses al)(a \<mapsto> -1)\<rparr>))"

definition AddSlot :: "accessList \<Rightarrow> address \<Rightarrow> hash \<Rightarrow> (bool \<times> bool \<times> accessList) option" where
  "AddSlot al a slot =
     (let addrPresent = (addresses al a \<noteq> None) in
      if \<not> addrPresent \<or> addresses al a = Some (-1) then
        Some (\<not> addrPresent, True,
              al\<lparr>addresses := (addresses al)(a \<mapsto> int (length (slots al))), slots := slots al @ [{slot}]\<rparr>)
      else
        let idx = the (addresses al a) in
        if idx < 0 then None
        else do {
          slotmap \<leftarrow> go_index (slots al) (nat idx);
          if slot \<notin> slotmap
          then Some (False, True, al\<lparr>slots := (slots al)[nat idx := insert slot slotmap]\<rparr>)
          else Some (False, False, al)
        })"

definition DeleteSlot :: "accessList \<Rightarrow> address \<Rightarrow> hash \<Rightarrow> accessList option" where
  "DeleteSlot al a slot =
     (case addresses al a of
        None \<Rightarrow> None
      | Some idx \<Rightarrow>
          if idx < 0 then None
          else do {
            slotmap \<leftarrow> go_index (slots al) (nat idx);
            let slotmap = slotmap - {slot};
            let al = al\<lparr>slots := (slots al)[nat idx := slotmap]\<rparr>;
            if slotmap = {}
            then Some (al\<lparr>slots := take (nat idx) (slots al), addresses := (addresses al)(a \<mapsto> -1)\<rparr>)
            else Some al
          })"

definition DeleteAddress :: "accessList \<Rightarrow> address \<Rightarrow> accessList" where
  "DeleteAddress al a = al\<lparr>addresses := (addresses al)(a := None)\<rparr>"

section \<open>Invariant\<close>

text \<open>
  Indices are \<open>-1\<close> or in range, no two addresses share a slot set, and no slot set is empty.
\<close>

definition al_wf :: "accessList \<Rightarrow> bool" where
  "al_wf al \<longleftrightarrow> (\<forall>a idx. addresses al a = Some idx \<longrightarrow> -1 \<le> idx \<and> idx < int (length (slots al)))
     \<and> (\<forall>a b idx. addresses al a = Some idx \<longrightarrow> addresses al b = Some idx \<longrightarrow> idx \<noteq> -1 \<longrightarrow> a = b)
     \<and> (\<forall>m \<in> set (slots al). m \<noteq> {})"

lemma al_wfI:
  assumes "\<And>a i. addresses al a = Some i \<Longrightarrow> -1 \<le> i \<and> i < int (length (slots al))"
    and "\<And>a b i. addresses al a = Some i \<Longrightarrow> addresses al b = Some i \<Longrightarrow> i \<noteq> -1 \<Longrightarrow> a = b"
    and "\<And>m. m \<in> set (slots al) \<Longrightarrow> m \<noteq> {}"
  shows "al_wf al"
  using assms unfolding al_wf_def by blast

lemma al_wf_new [simp]: "al_wf newAccessList"
  by (simp add: al_wf_def newAccessList_def)

lemma al_wf_index:
  assumes "al_wf al" and "addresses al a = Some idx" and "idx \<noteq> -1"
  shows "0 \<le> idx" and "nat idx < length (slots al)" and "slots al ! nat idx \<noteq> {}"
proof -
  have "-1 \<le> idx \<and> idx < int (length (slots al))" using assms by (simp add: al_wf_def)
  with assms(3) show r: "0 \<le> idx" "nat idx < length (slots al)" by auto
  then show "slots al ! nat idx \<noteq> {}" using assms(1) by (simp add: al_wf_def)
qed

lemma AddAddress_wf: "al_wf al \<Longrightarrow> al_wf (snd (AddAddress al a))"
  by (auto simp: AddAddress_def al_wf_def)

lemma AddAddress_undo: "AddAddress al a = (True, al') \<Longrightarrow> DeleteAddress al' a = al"
  by (cases al) (auto simp: AddAddress_def DeleteAddress_def fun_upd_idem split: if_splits)

lemma AddAddress_idem: "AddAddress al a = (False, al') \<Longrightarrow> al' = al"
  by (auto simp: AddAddress_def split: if_splits)

text \<open>The two shapes of \<open>AddSlot\<close> that change the list.\<close>

lemma AddSlot_new:
  "addresses al a = None \<or> addresses al a = Some (-1) \<Longrightarrow> AddSlot al a slot =
     Some (addresses al a = None, True,
       al\<lparr>addresses := (addresses al)(a \<mapsto> int (length (slots al))), slots := slots al @ [{slot}]\<rparr>)"
  by (auto simp: AddSlot_def Let_def)

lemma AddSlot_old:
  "al_wf al \<Longrightarrow> addresses al a = Some idx \<Longrightarrow> idx \<noteq> -1 \<Longrightarrow> AddSlot al a slot =
     Some (False, slot \<notin> slots al ! nat idx,
       al\<lparr>slots := (slots al)[nat idx := insert slot (slots al ! nat idx)]\<rparr>)"
  using al_wf_index [of al a idx] by (simp add: AddSlot_def Let_def go_simps insert_absorb)

lemma AddSlot_new_wf:
  assumes "al_wf al"
  shows "al_wf (al\<lparr>addresses := (addresses al)(a \<mapsto> int (length (slots al))), slots := slots al @ [{slot}]\<rparr>)"
proof -
  let ?n = "int (length (slots al))"
  let ?al = "al\<lparr>addresses := (addresses al)(a \<mapsto> ?n), slots := slots al @ [{slot}]\<rparr>"
  have rng: "-1 \<le> i \<and> i < ?n" if "addresses al x = Some i" for x i
    using assms that by (simp add: al_wf_def)
  have inj: "x = y" if "addresses al x = Some i" "addresses al y = Some i" "i \<noteq> -1" for x y i
    using assms that unfolding al_wf_def by metis
  show ?thesis
  proof (rule al_wfI)
    show "-1 \<le> i \<and> i < int (length (slots ?al))" if "addresses ?al x = Some i" for x i
      using that rng [of x i] by (cases "x = a") auto
    show "x = y" if "addresses ?al x = Some i" "addresses ?al y = Some i" "i \<noteq> -1" for x y i
      using that rng [of x i] rng [of y i] inj [of x i y] by (cases "x = a"; cases "y = a") auto
    show "m \<noteq> {}" if "m \<in> set (slots ?al)" for m
      using that assms by (auto simp: al_wf_def)
  qed
qed

lemma AddSlot_old_wf:
  assumes "al_wf al"
  shows "al_wf (al\<lparr>slots := (slots al)[i := insert slot (slots al ! i)]\<rparr>)"
proof -
  have "m \<noteq> {}" if "m \<in> set ((slots al)[i := insert slot (slots al ! i)])" for m
    using set_update_subset_insert [THEN subsetD, OF that] assms by (auto simp: al_wf_def)
  with assms show ?thesis by (simp add: al_wf_def)
qed

lemma AddSlot_Some:
  assumes "al_wf al"
  shows "\<exists>x y al'. AddSlot al a slot = Some (x, y, al') \<and> al_wf al' \<and> (\<not> y \<longrightarrow> al' = al \<and> \<not> x)"
proof (cases "addresses al a = None \<or> addresses al a = Some (-1)")
  case True
  then show ?thesis using AddSlot_new AddSlot_new_wf [OF assms] by blast
next
  case False
  then obtain idx where "addresses al a = Some idx" "idx \<noteq> -1" by auto
  then show ?thesis
    using assms by (auto simp: AddSlot_old AddSlot_old_wf insert_absorb)
qed

text \<open>
  Undoing an \<open>AddSlot\<close> that reported changes: \<open>DeleteSlot\<close>, then \<open>DeleteAddress\<close> if the address was
  added too.
\<close>

lemma AddSlot_undo:
  assumes "al_wf al" and "AddSlot al a slot = Some (x, True, al')"
  shows "\<exists>al''. DeleteSlot al' a slot = Some al'' \<and>
    (if x then addresses al a = None \<and> al'' = al\<lparr>addresses := (addresses al)(a \<mapsto> -1)\<rparr> else al'' = al)"
proof (cases "addresses al a = None \<or> addresses al a = Some (-1)")
  case True
  with assms(2) show ?thesis
    by (cases al) (auto simp: AddSlot_new DeleteSlot_def go_simps Let_def fun_upd_idem)
next
  case False
  then obtain idx where idx: "addresses al a = Some idx" "idx \<noteq> -1" by auto
  note r = al_wf_index [OF assms(1) idx]
  have new: "slot \<notin> slots al ! nat idx" and "\<not> x"
    and al': "al' = al\<lparr>slots := (slots al)[nat idx := insert slot (slots al ! nat idx)]\<rparr>"
    using assms idx by (auto simp: AddSlot_old)
  have d: "slots al ! nat idx - {slot} = slots al ! nat idx" and "\<not> slots al ! nat idx \<subseteq> {slot}"
    using new r(3) by auto
  with idx r \<open>\<not> x\<close> show ?thesis
    by (simp add: al' DeleteSlot_def go_simps Let_def)
qed

section \<open>What the list contains\<close>

definition al_slots :: "accessList \<Rightarrow> address \<Rightarrow> hash set" where
  "al_slots al a =
     (case addresses al a of Some idx \<Rightarrow> if idx = -1 then {} else slots al ! nat idx | None \<Rightarrow> {})"

lemma Contains_eq:
  assumes "al_wf al"
  shows "Contains al a slot = Some (ContainsAddress al a, slot \<in> al_slots al a)"
proof (cases "addresses al a")
  case (Some idx)
  then show ?thesis
    using al_wf_index [OF assms Some]
    by (cases "idx = -1") (simp_all add: Contains_def ContainsAddress_def al_slots_def go_simps)
qed (simp add: Contains_def ContainsAddress_def al_slots_def)

lemma AddAddress_contents:
  assumes "AddAddress al a = (b, al')"
  shows "ContainsAddress al' x \<longleftrightarrow> x = a \<or> ContainsAddress al x" and "al_slots al' = al_slots al"
  using assms
  by (auto simp: AddAddress_def ContainsAddress_def al_slots_def fun_eq_iff split: if_splits option.splits)

lemma AddSlot_contents:
  assumes "al_wf al" and "AddSlot al a slot = Some (b, c, al')"
  shows "ContainsAddress al' x \<longleftrightarrow> x = a \<or> ContainsAddress al x"
    and "al_slots al' = (al_slots al)(a := insert slot (al_slots al a))"
proof -
  have "(ContainsAddress al' x \<longleftrightarrow> x = a \<or> ContainsAddress al x)
    \<and> al_slots al' = (al_slots al)(a := insert slot (al_slots al a))"
  proof (cases "addresses al a = None \<or> addresses al a = Some (-1)")
    case True
    let ?n = "int (length (slots al))"
    have al': "al' = al\<lparr>addresses := (addresses al)(a \<mapsto> ?n), slots := slots al @ [{slot}]\<rparr>"
      using True assms(2) by (simp add: AddSlot_new)
    have "al_slots al' y = al_slots al y" if "y \<noteq> a" for y
    proof (cases "addresses al y")
      case (Some i)
      then show ?thesis
        using al_wf_index [OF assms(1) Some] that
        by (cases "i = -1") (simp_all add: al' al_slots_def nth_append)
    qed (use that in \<open>simp add: al' al_slots_def\<close>)
    moreover have "al_slots al a = {}" using True by (auto simp: al_slots_def)
    moreover have "al_slots al' a = {slot}" by (simp add: al' al_slots_def)
    ultimately have "al_slots al' = (al_slots al)(a := insert slot (al_slots al a))"
      by (auto simp: fun_eq_iff)
    then show ?thesis by (auto simp: al' ContainsAddress_def)
  next
    case False
    then obtain idx where idx: "addresses al a = Some idx" "idx \<noteq> -1" by auto
    note r = al_wf_index [OF assms(1) idx]
    have other: "nat j \<noteq> nat idx" if "addresses al y = Some j" "j \<noteq> -1" "y \<noteq> a" for y j
    proof -
      have "j \<noteq> idx" using that idx assms(1) unfolding al_wf_def by metis
      then show ?thesis using al_wf_index(1) [OF assms(1) that(1,2)] r(1) by simp
    qed
    from assms idx have al': "al' = al\<lparr>slots := (slots al)[nat idx := insert slot (slots al ! nat idx)]\<rparr>"
      by (simp add: AddSlot_old)
    have "al_slots al' y = al_slots al y" if "y \<noteq> a" for y
    proof (cases "addresses al y")
      case (Some i)
      then show ?thesis
        using other [OF Some _ that] by (cases "i = -1") (simp_all add: al' al_slots_def)
    qed (simp add: al' al_slots_def)
    moreover have "al_slots al' a = insert slot (al_slots al a)"
      using idx r by (simp add: al' al_slots_def)
    ultimately have "al_slots al' = (al_slots al)(a := insert slot (al_slots al a))"
      by (auto simp: fun_eq_iff)
    then show ?thesis using idx by (auto simp: al' ContainsAddress_def)
  qed
  then show "ContainsAddress al' x \<longleftrightarrow> x = a \<or> ContainsAddress al x"
    and "al_slots al' = (al_slots al)(a := insert slot (al_slots al a))" by simp_all
qed

end
