(* ===== verification/State_Objects.thy ===== *)
theory State_Objects
  imports State_AccessList "HOL-Library.Mapping"
begin

text \<open>
  The data of the state database: accounts and their cached objects (\<open>core/state/state_object.go\<close>),
  transient storage (\<open>core/state/transient_storage.go\<close>), the journal (\<open>core/state/journal.go\<close>) and the
  database record (\<open>core/state/statedb.go\<close>). A Go map is a HOL map. An object is reached through the
  \<open>stateObjects\<close> map by its address, so that a write through an object pointer is an update of that
  map (\<open>setStateObject\<close>). Left out are the fields that only measure or prefetch (timers, counters,
  prefetcher, tries, witness).

  \<open>Reader\<close> stands for the database below (tries, snapshots, disk): a deterministic function of the
  address and key at the root the state was opened with, where every lookup may fail.
\<close>

section \<open>Accounts and their reader\<close>

definition EmptyCodeHash :: hash where
  "EmptyCodeHash = 0xc5d2460186f7233c927e7db2dcc703c0e500b653ca82273b7bfad8045d85a470"

definition EmptyRootHash :: hash where
  "EmptyRootHash = 0x56e81f171bcc55a6ff8345e692c0f86e5b48e01b996cadc001622fb5e363b421"

record StateAccount =
  Nonce :: u64
  Balance :: u256
  Root :: hash
  aCodeHash :: hash

definition NewEmptyStateAccount :: StateAccount where
  "NewEmptyStateAccount = \<lparr>Nonce = 0, Balance = 0, Root = EmptyRootHash, aCodeHash = EmptyCodeHash\<rparr>"

record Reader =
  rAccount :: "address \<Rightarrow> string + StateAccount option"
  rStorage :: "address \<Rightarrow> hash \<Rightarrow> string + hash"
  rCode :: "address \<Rightarrow> hash \<Rightarrow> bytes \<times> string option"
  rCodeSize :: "address \<Rightarrow> hash \<Rightarrow> nat \<times> string option"

datatype dberr =
    AccountErr address string
  | StorageErr string
  | CodeErr hash string
  | CodeSizeErr hash string
  | CodeNotFound hash

type_synonym Storage = "hash \<Rightarrow> hash option"

record stateObject =
  oAddress :: address
  origin :: "StateAccount option"
  data :: StateAccount
  ocode :: bytes
  originStorage :: Storage
  dirtyStorage :: Storage
  pendingStorage :: Storage
  uncommittedStorage :: Storage
  dirtyCode :: bool
  selfDestructed :: bool
  newContract :: bool

definition so_empty :: "stateObject \<Rightarrow> bool" where
  "so_empty obj = (Nonce (data obj) = 0 \<and> Balance (data obj) = 0 \<and> aCodeHash (data obj) = EmptyCodeHash)"

definition newObject :: "address \<Rightarrow> StateAccount option \<Rightarrow> stateObject" where
  "newObject a acct =
     \<lparr>oAddress = a, origin = acct,
      data = (case acct of None \<Rightarrow> NewEmptyStateAccount | Some d \<Rightarrow> d), ocode = [],
      originStorage = Map.empty, dirtyStorage = Map.empty, pendingStorage = Map.empty,
      uncommittedStorage = Map.empty,
      dirtyCode = False, selfDestructed = False, newContract = False\<rparr>"

section \<open>Transient storage\<close>

type_synonym transientStorage = "(address, (hash, hash) mapping) mapping"

definition newTransientStorage :: transientStorage where
  "newTransientStorage = Mapping.empty"

definition ts_Set :: "transientStorage \<Rightarrow> address \<Rightarrow> hash \<Rightarrow> hash \<Rightarrow> transientStorage" where
  "ts_Set t a key v =
     (if v = 0 then
        case Mapping.lookup t a of
          None \<Rightarrow> t
        | Some m \<Rightarrow>
            let m = Mapping.delete key m in
            if Mapping.is_empty m then Mapping.delete a t else Mapping.update a m t
      else
        let m = (case Mapping.lookup t a of None \<Rightarrow> Mapping.empty | Some m \<Rightarrow> m)
        in Mapping.update a (Mapping.update key v m) t)"

definition ts_Get :: "transientStorage \<Rightarrow> address \<Rightarrow> hash \<Rightarrow> hash" where
  "ts_Get t a key =
     (case Mapping.lookup t a of
        None \<Rightarrow> 0
      | Some m \<Rightarrow> (case Mapping.lookup m key of None \<Rightarrow> 0 | Some v \<Rightarrow> v))"

lemma ts_Get_new [simp]: "ts_Get newTransientStorage a k = 0"
  by (simp add: ts_Get_def newTransientStorage_def lookup_empty)

lemma is_empty_lookup: "Mapping.is_empty m \<Longrightarrow> Mapping.lookup m k = None"
  by (simp add: Mapping.is_empty_def keys_dom_lookup dom_def)

lemma ts_Get_Set: "ts_Get (ts_Set t a k v) b k' = (if b = a \<and> k' = k then v else ts_Get t b k')"
proof (cases "v = 0 \<and> Mapping.lookup t a \<noteq> None")
  case True
  then obtain m where m: "Mapping.lookup t a = Some m" by auto
  show ?thesis
  proof (cases "Mapping.is_empty (Mapping.delete k m)")
    case e: True
    have "Mapping.lookup m j = None" if "j \<noteq> k" for j
      using is_empty_lookup [OF e, of j] that by (simp add: lookup_delete_neq)
    then show ?thesis using True m e
      by (cases "b = a") (auto simp: ts_Get_def ts_Set_def Let_def lookup_delete lookup_delete_neq)
  next
    case False
    then show ?thesis using True m
      by (cases "b = a"; cases "k' = k")
         (simp_all add: ts_Get_def ts_Set_def Let_def lookup_update lookup_update_neq
            lookup_delete lookup_delete_neq)
  qed
next
  case False
  then show ?thesis
    by (cases "b = a"; cases "k' = k"; cases "Mapping.lookup t a")
       (auto simp: ts_Get_def ts_Set_def Let_def lookup_update lookup_update_neq lookup_empty)
qed

section \<open>Journal and database\<close>

datatype journalEntry =
    createObjectChange address
  | createContractChange address
  | selfDestructChange address
  | balanceChange address u256
  | nonceChange address u64
  | storageChange address hash hash hash
  | codeChange address bytes
  | refundChange u64
  | addLogChange hash
  | touchChange address
  | accessListAddAccountChange address
  | accessListAddSlotChange address hash
  | transientStorageChange address hash hash

fun dirtied :: "journalEntry \<Rightarrow> address option" where
  "dirtied (createObjectChange a) = Some a"
| "dirtied (createContractChange a) = None"
| "dirtied (selfDestructChange a) = Some a"
| "dirtied (balanceChange a prev) = Some a"
| "dirtied (nonceChange a prev) = Some a"
| "dirtied (storageChange a key prev orig) = Some a"
| "dirtied (codeChange a prev) = Some a"
| "dirtied (refundChange prev) = None"
| "dirtied (addLogChange h) = None"
| "dirtied (touchChange a) = Some a"
| "dirtied (accessListAddAccountChange a) = None"
| "dirtied (accessListAddSlotChange a slot) = None"
| "dirtied (transientStorageChange a key prev) = None"

record revision =
  rid :: nat
  journalIndex :: nat

record journal =
  entries :: "journalEntry list"
  dirties :: "address \<Rightarrow> int option"
  validRevisions :: "revision list"
  nextRevisionId :: nat

definition newJournal :: journal where
  "newJournal = \<lparr>entries = [], dirties = Map.empty, validRevisions = [], nextRevisionId = 0\<rparr>"

datatype mutationType = m_update | m_deletion

record mutation =
  mtyp :: mutationType
  applied :: bool

record Log =
  lAddress :: address
  lTopics :: "hash list"
  lData :: bytes
  lBlockNumber :: u64
  lTxHash :: hash
  lTxIndex :: u64
  lIndex :: u64

record StateDB =
  reader :: Reader
  stateObjects :: "address \<Rightarrow> stateObject option"
  stateObjectsDestruct :: "address \<Rightarrow> stateObject option"
  mutations :: "address \<Rightarrow> mutation option"
  dbErr :: "dberr option"
  refund :: u64
  thash :: hash
  txIndex :: u64
  logs :: "hash \<Rightarrow> Log list option"
  logSize :: u64
  preimages :: "hash \<Rightarrow> bytes option"
  sAccessList :: accessList
  sTransient :: transientStorage
  sJournal :: journal

definition NewWithReader :: "Reader \<Rightarrow> StateDB" where
  "NewWithReader rd =
     \<lparr>reader = rd, stateObjects = Map.empty, stateObjectsDestruct = Map.empty,
      mutations = Map.empty, dbErr = None, refund = 0, thash = 0, txIndex = 0, logs = Map.empty,
      logSize = 0, preimages = Map.empty, sAccessList = newAccessList,
      sTransient = newTransientStorage, sJournal = newJournal\<rparr>"

end
