(* ===== verification/State_DB.thy ===== *)
theory State_DB
  imports State_Objects Params
begin

text \<open>
  The operations of the state database: \<open>core/state/statedb.go\<close>, the object methods of
  \<open>core/state/state_object.go\<close> and the journal of \<open>core/state/journal.go\<close>. A method that may load an
  account or a slot into the cache returns the database too. \<open>H\<close> is \<open>crypto.Keccak256Hash\<close>. \<open>None\<close>
  stands for a panic: a nil object, a bad revision id, a refund counter below zero.
\<close>

section \<open>Journal\<close>

definition j_append :: "journal \<Rightarrow> journalEntry \<Rightarrow> journal" where
  "j_append j e =
     (let j = j\<lparr>entries := entries j @ [e]\<rparr> in
      case dirtied e of
        None \<Rightarrow> j
      | Some a \<Rightarrow> j\<lparr>dirties := (dirties j)(a \<mapsto> (case dirties j a of None \<Rightarrow> 0 | Some n \<Rightarrow> n) + 1)\<rparr>)"

definition j_dirty :: "journal \<Rightarrow> address \<Rightarrow> journal" where
  "j_dirty j a = j\<lparr>dirties := (dirties j)(a \<mapsto> (case dirties j a of None \<Rightarrow> 0 | Some n \<Rightarrow> n) + 1)\<rparr>"

definition ripemd :: address where
  "ripemd = 3"

definition j_touchChange :: "journal \<Rightarrow> address \<Rightarrow> journal" where
  "j_touchChange j a =
     (let j = j_append j (touchChange a) in if a = ripemd then j_dirty j a else j)"

definition j_snapshot :: "journal \<Rightarrow> nat \<times> journal" where
  "j_snapshot j =
     (let id = nextRevisionId j in
      (id, j\<lparr>nextRevisionId := id + 1,
            validRevisions := validRevisions j @ [\<lparr>rid = id, journalIndex = length (entries j)\<rparr>]\<rparr>))"

definition j_reset :: "journal \<Rightarrow> journal" where
  "j_reset j = j\<lparr>entries := [], validRevisions := [], dirties := Map.empty, nextRevisionId := 0\<rparr>"

definition journal_append :: "StateDB \<Rightarrow> journalEntry \<Rightarrow> StateDB" where
  "journal_append s e = s\<lparr>sJournal := j_append (sJournal s) e\<rparr>"

section \<open>Objects\<close>

definition setError :: "StateDB \<Rightarrow> dberr \<Rightarrow> StateDB" where
  "setError s err = (if dbErr s = None then s\<lparr>dbErr := Some err\<rparr> else s)"

definition setStateObject :: "StateDB \<Rightarrow> stateObject \<Rightarrow> StateDB" where
  "setStateObject s obj = s\<lparr>stateObjects := (stateObjects s)(oAddress obj \<mapsto> obj)\<rparr>"

definition getStateObject :: "StateDB \<Rightarrow> address \<Rightarrow> stateObject option \<times> StateDB" where
  "getStateObject s a =
     (case stateObjects s a of
        Some obj \<Rightarrow> (Some obj, s)
      | None \<Rightarrow>
          if stateObjectsDestruct s a \<noteq> None then (None, s)
          else
            case rAccount (reader s) a of
              Inl err \<Rightarrow> (None, setError s (AccountErr a err))
            | Inr None \<Rightarrow> (None, s)
            | Inr (Some acct) \<Rightarrow>
                let obj = newObject a (Some acct) in (Some obj, setStateObject s obj))"

definition createObject :: "StateDB \<Rightarrow> address \<Rightarrow> stateObject \<times> StateDB" where
  "createObject s a =
     (let obj = newObject a None;
          s = journal_append s (createObjectChange a)
      in (obj, setStateObject s obj))"

definition getOrNewStateObject :: "StateDB \<Rightarrow> address \<Rightarrow> stateObject \<times> StateDB" where
  "getOrNewStateObject s a =
     (let (o', s) = getStateObject s a in
      case o' of None \<Rightarrow> createObject s a | Some obj \<Rightarrow> (obj, s))"

definition so_GetCommittedState ::
  "StateDB \<Rightarrow> stateObject \<Rightarrow> hash \<Rightarrow> hash \<times> stateObject \<times> StateDB" where
  "so_GetCommittedState s obj key =
     (case pendingStorage obj key of
        Some v \<Rightarrow> (v, obj, s)
      | None \<Rightarrow>
        case originStorage obj key of
          Some v \<Rightarrow> (v, obj, s)
        | None \<Rightarrow>
          if stateObjectsDestruct s (oAddress obj) \<noteq> None then
            let obj = obj\<lparr>originStorage := (originStorage obj)(key \<mapsto> 0)\<rparr>
            in (0, obj, setStateObject s obj)
          else
            case rStorage (reader s) (oAddress obj) key of
              Inl err \<Rightarrow> (0, obj, setError s (StorageErr err))
            | Inr v \<Rightarrow>
                let obj = obj\<lparr>originStorage := (originStorage obj)(key \<mapsto> v)\<rparr>
                in (v, obj, setStateObject s obj))"

definition so_getState ::
  "StateDB \<Rightarrow> stateObject \<Rightarrow> hash \<Rightarrow> hash \<times> hash \<times> stateObject \<times> StateDB" where
  "so_getState s obj key =
     (let (orig, obj, s) = so_GetCommittedState s obj key in
      case dirtyStorage obj key of
        Some v \<Rightarrow> (v, orig, obj, s)
      | None \<Rightarrow> (orig, orig, obj, s))"

definition so_setState :: "stateObject \<Rightarrow> hash \<Rightarrow> hash \<Rightarrow> hash \<Rightarrow> stateObject" where
  "so_setState obj key v orig =
     (if v = orig then obj\<lparr>dirtyStorage := (dirtyStorage obj)(key := None)\<rparr>
      else obj\<lparr>dirtyStorage := (dirtyStorage obj)(key \<mapsto> v)\<rparr>)"

definition so_SetState :: "StateDB \<Rightarrow> stateObject \<Rightarrow> hash \<Rightarrow> hash \<Rightarrow> hash \<times> StateDB" where
  "so_SetState s obj key v =
     (let (prev, orig, obj, s) = so_getState s obj key in
      if prev = v then (prev, s)
      else
        let s = journal_append s (storageChange (oAddress obj) key prev orig)
        in (prev, setStateObject s (so_setState obj key v orig)))"

definition so_setBalance :: "stateObject \<Rightarrow> u256 \<Rightarrow> stateObject" where
  "so_setBalance obj amount = obj\<lparr>data := (data obj)\<lparr>Balance := amount\<rparr>\<rparr>"

definition so_SetBalance :: "StateDB \<Rightarrow> stateObject \<Rightarrow> u256 \<Rightarrow> u256 \<times> StateDB" where
  "so_SetBalance s obj amount =
     (let prev = Balance (data obj);
          s = journal_append s (balanceChange (oAddress obj) prev)
      in (prev, setStateObject s (so_setBalance obj amount)))"

definition so_touch :: "StateDB \<Rightarrow> stateObject \<Rightarrow> StateDB" where
  "so_touch s obj = s\<lparr>sJournal := j_touchChange (sJournal s) (oAddress obj)\<rparr>"

definition so_AddBalance :: "StateDB \<Rightarrow> stateObject \<Rightarrow> u256 \<Rightarrow> u256 \<times> StateDB" where
  "so_AddBalance s obj amount =
     (if amount = 0 then
        (Balance (data obj), if so_empty obj then so_touch s obj else s)
      else so_SetBalance s obj (Balance (data obj) + amount))"

definition so_setNonce :: "stateObject \<Rightarrow> u64 \<Rightarrow> stateObject" where
  "so_setNonce obj nonce = obj\<lparr>data := (data obj)\<lparr>Nonce := nonce\<rparr>\<rparr>"

definition so_SetNonce :: "StateDB \<Rightarrow> stateObject \<Rightarrow> u64 \<Rightarrow> StateDB" where
  "so_SetNonce s obj nonce =
     (let s = journal_append s (nonceChange (oAddress obj) (Nonce (data obj)))
      in setStateObject s (so_setNonce obj nonce))"

definition so_setCode :: "stateObject \<Rightarrow> hash \<Rightarrow> bytes \<Rightarrow> stateObject" where
  "so_setCode obj codeHash code =
     obj\<lparr>ocode := code, data := (data obj)\<lparr>aCodeHash := codeHash\<rparr>, dirtyCode := True\<rparr>"

definition so_SetCode :: "StateDB \<Rightarrow> stateObject \<Rightarrow> hash \<Rightarrow> bytes \<Rightarrow> bytes \<times> StateDB" where
  "so_SetCode s obj codeHash code =
     (let prev = ocode obj;
          s = journal_append s (codeChange (oAddress obj) prev)
      in (prev, setStateObject s (so_setCode obj codeHash code)))"

definition so_Code :: "StateDB \<Rightarrow> stateObject \<Rightarrow> bytes \<times> StateDB" where
  "so_Code s obj =
     (if ocode obj \<noteq> [] then (ocode obj, s)
      else if aCodeHash (data obj) = EmptyCodeHash then ([], s)
      else
        let h = aCodeHash (data obj);
            (code, err) = rCode (reader s) (oAddress obj) h;
            s = (case err of None \<Rightarrow> s | Some e \<Rightarrow> setError s (CodeErr h e));
            s = (if code = [] then setError s (CodeNotFound h) else s)
        in (code, setStateObject s (obj\<lparr>ocode := code\<rparr>)))"

definition so_CodeSize :: "StateDB \<Rightarrow> stateObject \<Rightarrow> nat \<times> StateDB" where
  "so_CodeSize s obj =
     (if ocode obj \<noteq> [] then (length (ocode obj), s)
      else if aCodeHash (data obj) = EmptyCodeHash then (0, s)
      else
        let h = aCodeHash (data obj);
            (sz, err) = rCodeSize (reader s) (oAddress obj) h;
            s = (case err of None \<Rightarrow> s | Some e \<Rightarrow> setError s (CodeSizeErr h e));
            s = (if sz = 0 then setError s (CodeNotFound h) else s)
        in (sz, s))"

section \<open>Readers\<close>

definition Exist :: "StateDB \<Rightarrow> address \<Rightarrow> bool \<times> StateDB" where
  "Exist s a = (let (o', s) = getStateObject s a in (o' \<noteq> None, s))"

definition Empty :: "StateDB \<Rightarrow> address \<Rightarrow> bool \<times> StateDB" where
  "Empty s a =
     (let (o', s) = getStateObject s a in
      (case o' of None \<Rightarrow> True | Some obj \<Rightarrow> so_empty obj, s))"

definition GetBalance :: "StateDB \<Rightarrow> address \<Rightarrow> u256 \<times> StateDB" where
  "GetBalance s a =
     (let (o', s) = getStateObject s a in
      (case o' of None \<Rightarrow> 0 | Some obj \<Rightarrow> Balance (data obj), s))"

definition GetNonce :: "StateDB \<Rightarrow> address \<Rightarrow> u64 \<times> StateDB" where
  "GetNonce s a =
     (let (o', s) = getStateObject s a in
      (case o' of None \<Rightarrow> 0 | Some obj \<Rightarrow> Nonce (data obj), s))"

definition GetStorageRoot :: "StateDB \<Rightarrow> address \<Rightarrow> hash \<times> StateDB" where
  "GetStorageRoot s a =
     (let (o', s) = getStateObject s a in
      (case o' of None \<Rightarrow> 0 | Some obj \<Rightarrow> Root (data obj), s))"

definition GetCode :: "StateDB \<Rightarrow> address \<Rightarrow> bytes \<times> StateDB" where
  "GetCode s a =
     (let (o', s) = getStateObject s a in
      case o' of None \<Rightarrow> ([], s) | Some obj \<Rightarrow> so_Code s obj)"

definition GetCodeSize :: "StateDB \<Rightarrow> address \<Rightarrow> nat \<times> StateDB" where
  "GetCodeSize s a =
     (let (o', s) = getStateObject s a in
      case o' of None \<Rightarrow> (0, s) | Some obj \<Rightarrow> so_CodeSize s obj)"

definition GetCodeHash :: "StateDB \<Rightarrow> address \<Rightarrow> hash \<times> StateDB" where
  "GetCodeHash s a =
     (let (o', s) = getStateObject s a in
      (case o' of None \<Rightarrow> 0 | Some obj \<Rightarrow> aCodeHash (data obj), s))"

definition GetState :: "StateDB \<Rightarrow> address \<Rightarrow> hash \<Rightarrow> hash \<times> StateDB" where
  "GetState s a key =
     (let (o', s) = getStateObject s a in
      case o' of
        None \<Rightarrow> (0, s)
      | Some obj \<Rightarrow> let (v, orig, obj, s) = so_getState s obj key in (v, s))"

definition GetCommittedState :: "StateDB \<Rightarrow> address \<Rightarrow> hash \<Rightarrow> hash \<times> StateDB" where
  "GetCommittedState s a key =
     (let (o', s) = getStateObject s a in
      case o' of
        None \<Rightarrow> (0, s)
      | Some obj \<Rightarrow> let (v, obj, s) = so_GetCommittedState s obj key in (v, s))"

definition HasSelfDestructed :: "StateDB \<Rightarrow> address \<Rightarrow> bool \<times> StateDB" where
  "HasSelfDestructed s a =
     (let (o', s) = getStateObject s a in
      (case o' of None \<Rightarrow> False | Some obj \<Rightarrow> selfDestructed obj, s))"

definition GetTransientState :: "StateDB \<Rightarrow> address \<Rightarrow> hash \<Rightarrow> hash" where
  "GetTransientState s a key = ts_Get (sTransient s) a key"

definition AddressInAccessList :: "StateDB \<Rightarrow> address \<Rightarrow> bool" where
  "AddressInAccessList s a = ContainsAddress (sAccessList s) a"

definition SlotInAccessList :: "StateDB \<Rightarrow> address \<Rightarrow> hash \<Rightarrow> (bool \<times> bool) option" where
  "SlotInAccessList s a slot = Contains (sAccessList s) a slot"

section \<open>Writers\<close>

definition AddLog :: "StateDB \<Rightarrow> Log \<Rightarrow> StateDB" where
  "AddLog s log =
     (let s = journal_append s (addLogChange (thash s));
          log = log\<lparr>lTxHash := thash s, lTxIndex := txIndex s, lIndex := logSize s\<rparr>;
          old = (case logs s (thash s) of None \<Rightarrow> [] | Some ls \<Rightarrow> ls)
      in s\<lparr>logs := (logs s)(thash s \<mapsto> old @ [log]), logSize := logSize s + 1\<rparr>)"

definition AddPreimage :: "StateDB \<Rightarrow> hash \<Rightarrow> bytes \<Rightarrow> StateDB" where
  "AddPreimage s h preimage =
     (if preimages s h = None then s\<lparr>preimages := (preimages s)(h \<mapsto> preimage)\<rparr> else s)"

definition AddRefund :: "StateDB \<Rightarrow> u64 \<Rightarrow> StateDB" where
  "AddRefund s gas =
     (let s = journal_append s (refundChange (refund s)) in s\<lparr>refund := refund s + gas\<rparr>)"

definition SubRefund :: "StateDB \<Rightarrow> u64 \<Rightarrow> StateDB option" where
  "SubRefund s gas =
     (let s = journal_append s (refundChange (refund s)) in
      if gas > refund s then None else Some (s\<lparr>refund := refund s - gas\<rparr>))"

definition AddBalance :: "StateDB \<Rightarrow> address \<Rightarrow> u256 \<Rightarrow> u256 \<times> StateDB" where
  "AddBalance s a amount =
     (let (obj, s) = getOrNewStateObject s a in so_AddBalance s obj amount)"

definition SubBalance :: "StateDB \<Rightarrow> address \<Rightarrow> u256 \<Rightarrow> u256 \<times> StateDB" where
  "SubBalance s a amount =
     (let (obj, s) = getOrNewStateObject s a in
      if amount = 0 then (Balance (data obj), s)
      else so_SetBalance s obj (Balance (data obj) - amount))"

definition SetBalance :: "StateDB \<Rightarrow> address \<Rightarrow> u256 \<Rightarrow> StateDB" where
  "SetBalance s a amount =
     (let (obj, s) = getOrNewStateObject s a in snd (so_SetBalance s obj amount))"

definition SetNonce :: "StateDB \<Rightarrow> address \<Rightarrow> u64 \<Rightarrow> StateDB" where
  "SetNonce s a nonce =
     (let (obj, s) = getOrNewStateObject s a in so_SetNonce s obj nonce)"

definition SetCode :: "(bytes \<Rightarrow> hash) \<Rightarrow> StateDB \<Rightarrow> address \<Rightarrow> bytes \<Rightarrow> bytes \<times> StateDB" where
  "SetCode H s a code =
     (let (obj, s) = getOrNewStateObject s a in so_SetCode s obj (H code) code)"

definition SetState :: "StateDB \<Rightarrow> address \<Rightarrow> hash \<Rightarrow> hash \<Rightarrow> hash \<times> StateDB" where
  "SetState s a key v =
     (let (obj, s) = getOrNewStateObject s a in so_SetState s obj key v)"

definition SelfDestruct :: "StateDB \<Rightarrow> address \<Rightarrow> u256 \<times> StateDB" where
  "SelfDestruct s a =
     (let (o', s) = getStateObject s a in
      case o' of
        None \<Rightarrow> (0, s)
      | Some obj \<Rightarrow>
          let prevBalance = Balance (data obj);
              s = (if prevBalance \<noteq> 0 then snd (so_SetBalance s obj 0) else s);
              obj = (if prevBalance \<noteq> 0 then so_setBalance obj 0 else obj)
          in if \<not> selfDestructed obj then
               let s = journal_append s (selfDestructChange a)
               in (prevBalance, setStateObject s (obj\<lparr>selfDestructed := True\<rparr>))
             else (prevBalance, s))"

definition SelfDestruct6780 :: "StateDB \<Rightarrow> address \<Rightarrow> (u256 \<times> bool) \<times> StateDB" where
  "SelfDestruct6780 s a =
     (let (o', s) = getStateObject s a in
      case o' of
        None \<Rightarrow> ((0, False), s)
      | Some obj \<Rightarrow>
          if newContract obj then let (b, s) = SelfDestruct s a in ((b, True), s)
          else ((Balance (data obj), False), s))"

definition setTransientState :: "StateDB \<Rightarrow> address \<Rightarrow> hash \<Rightarrow> hash \<Rightarrow> StateDB" where
  "setTransientState s a key v = s\<lparr>sTransient := ts_Set (sTransient s) a key v\<rparr>"

definition SetTransientState :: "StateDB \<Rightarrow> address \<Rightarrow> hash \<Rightarrow> hash \<Rightarrow> StateDB" where
  "SetTransientState s a key v =
     (let prev = GetTransientState s a key in
      if prev = v then s
      else setTransientState (journal_append s (transientStorageChange a key prev)) a key v)"

definition CreateAccount :: "StateDB \<Rightarrow> address \<Rightarrow> StateDB" where
  "CreateAccount s a = snd (createObject s a)"

definition CreateContract :: "StateDB \<Rightarrow> address \<Rightarrow> StateDB option" where
  "CreateContract s a =
     (let (o', s) = getStateObject s a in
      case o' of
        None \<Rightarrow> None
      | Some obj \<Rightarrow>
          if \<not> newContract obj then
            Some (journal_append (setStateObject s (obj\<lparr>newContract := True\<rparr>)) (createContractChange a))
          else Some s)"

definition AddAddressToAccessList :: "StateDB \<Rightarrow> address \<Rightarrow> StateDB" where
  "AddAddressToAccessList s a =
     (let (added, al) = AddAddress (sAccessList s) a;
          s = s\<lparr>sAccessList := al\<rparr>
      in if added then journal_append s (accessListAddAccountChange a) else s)"

definition AddSlotToAccessList :: "StateDB \<Rightarrow> address \<Rightarrow> hash \<Rightarrow> StateDB option" where
  "AddSlotToAccessList s a slot = do {
     (addrMod, slotMod, al) \<leftarrow> AddSlot (sAccessList s) a slot;
     let s = s\<lparr>sAccessList := al\<rparr>;
     let s = (if addrMod then journal_append s (accessListAddAccountChange a) else s);
     Some (if slotMod then journal_append s (accessListAddSlotChange a slot) else s)
   }"

section \<open>Snapshots\<close>

definition Snapshot :: "StateDB \<Rightarrow> nat \<times> StateDB" where
  "Snapshot s = (let (id, j) = j_snapshot (sJournal s) in (id, s\<lparr>sJournal := j\<rparr>))"

text \<open>\<open>journalEntry.revert\<close>.\<close>

fun je_revert :: "(bytes \<Rightarrow> hash) \<Rightarrow> journalEntry \<Rightarrow> StateDB \<Rightarrow> StateDB option" where
  "je_revert H (createObjectChange a) s = Some (s\<lparr>stateObjects := (stateObjects s)(a := None)\<rparr>)"
| "je_revert H (createContractChange a) s =
     (let (o', s) = getStateObject s a in
      case o' of None \<Rightarrow> None | Some obj \<Rightarrow> Some (setStateObject s (obj\<lparr>newContract := False\<rparr>)))"
| "je_revert H (selfDestructChange a) s =
     (let (o', s) = getStateObject s a in
      case o' of None \<Rightarrow> Some s | Some obj \<Rightarrow> Some (setStateObject s (obj\<lparr>selfDestructed := False\<rparr>)))"
| "je_revert H (balanceChange a prev) s =
     (let (o', s) = getStateObject s a in
      case o' of None \<Rightarrow> None | Some obj \<Rightarrow> Some (setStateObject s (so_setBalance obj prev)))"
| "je_revert H (nonceChange a prev) s =
     (let (o', s) = getStateObject s a in
      case o' of None \<Rightarrow> None | Some obj \<Rightarrow> Some (setStateObject s (so_setNonce obj prev)))"
| "je_revert H (storageChange a key prev orig) s =
     (let (o', s) = getStateObject s a in
      case o' of None \<Rightarrow> None | Some obj \<Rightarrow> Some (setStateObject s (so_setState obj key prev orig)))"
| "je_revert H (codeChange a prev) s =
     (let (o', s) = getStateObject s a in
      case o' of None \<Rightarrow> None | Some obj \<Rightarrow> Some (setStateObject s (so_setCode obj (H prev) prev)))"
| "je_revert H (refundChange prev) s = Some (s\<lparr>refund := prev\<rparr>)"
| "je_revert H (addLogChange h) s =
     (let ls = (case logs s h of None \<Rightarrow> [] | Some ls \<Rightarrow> ls) in
      if length ls = 1 then Some (s\<lparr>logs := (logs s)(h := None), logSize := logSize s - 1\<rparr>)
      else if ls = [] then None
      else Some (s\<lparr>logs := (logs s)(h \<mapsto> butlast ls), logSize := logSize s - 1\<rparr>))"
| "je_revert H (touchChange a) s = Some s"
| "je_revert H (accessListAddAccountChange a) s =
     Some (s\<lparr>sAccessList := DeleteAddress (sAccessList s) a\<rparr>)"
| "je_revert H (accessListAddSlotChange a slot) s = do {
     al \<leftarrow> DeleteSlot (sAccessList s) a slot;
     Some (s\<lparr>sAccessList := al\<rparr>)
   }"
| "je_revert H (transientStorageChange a key prev) s = Some (setTransientState s a key prev)"

definition j_undirty :: "journal \<Rightarrow> journalEntry \<Rightarrow> journal" where
  "j_undirty j e =
     (case dirtied e of
        None \<Rightarrow> j
      | Some a \<Rightarrow>
          let n = (case dirties j a of None \<Rightarrow> 0 | Some n \<Rightarrow> n) - 1 in
          j\<lparr>dirties := (dirties j)(a := if n = 0 then None else Some n)\<rparr>)"

text \<open>The loop of \<open>journal.revert\<close>: the \<open>n\<close> last entries, newest first.\<close>

fun j_revert_loop :: "(bytes \<Rightarrow> hash) \<Rightarrow> nat \<Rightarrow> nat \<Rightarrow> StateDB \<Rightarrow> StateDB option" where
  "j_revert_loop H snapshot 0 s = Some s"
| "j_revert_loop H snapshot (Suc n) s = do {
     e \<leftarrow> go_index (entries (sJournal s)) (snapshot + n);
     s \<leftarrow> je_revert H e s;
     j_revert_loop H snapshot n (s\<lparr>sJournal := j_undirty (sJournal s) e\<rparr>)
   }"

definition j_revert :: "(bytes \<Rightarrow> hash) \<Rightarrow> nat \<Rightarrow> StateDB \<Rightarrow> StateDB option" where
  "j_revert H snapshot s = do {
     s \<leftarrow> j_revert_loop H snapshot (length (entries (sJournal s)) - snapshot) s;
     es \<leftarrow> go_slice (entries (sJournal s)) 0 snapshot;
     Some (s\<lparr>sJournal := (sJournal s)\<lparr>entries := es\<rparr>\<rparr>)
   }"

text \<open>Go's \<open>sort.Search\<close>: binary search for the first index at which \<open>f\<close> holds.\<close>

function sort_Search :: "nat \<Rightarrow> nat \<Rightarrow> (nat \<Rightarrow> bool) \<Rightarrow> nat" where
  "sort_Search i j f =
     (if i < j then
        let h = (i + j) div 2 in if \<not> f h then sort_Search (h + 1) j f else sort_Search i h f
      else i)"
  by pat_completeness auto
termination by (relation "measure (\<lambda>(i, j, f). j - i)") auto

declare sort_Search.simps [simp del]

definition RevertToSnapshot :: "(bytes \<Rightarrow> hash) \<Rightarrow> StateDB \<Rightarrow> nat \<Rightarrow> StateDB option" where
  "RevertToSnapshot H s revid = do {
     let revs = validRevisions (sJournal s);
     let idx = sort_Search 0 (length revs) (\<lambda>i. rid (revs ! i) \<ge> revid);
     if idx = length revs \<or> rid (revs ! idx) \<noteq> revid then None
     else do {
       s \<leftarrow> j_revert H (journalIndex (revs ! idx)) s;
       Some (s\<lparr>sJournal := (sJournal s)\<lparr>validRevisions := take idx (validRevisions (sJournal s))\<rparr>\<rparr>)
     }
   }"

section \<open>Transaction boundaries\<close>

text \<open>
  Go iterates over a map in an unspecified order. The iteration order is an argument here: \<open>keys\<close> and
  \<open>order\<close> enumerate the domain of the map that the code ranges over.
\<close>

fun so_finalise_loop :: "hash list \<Rightarrow> StateDB \<Rightarrow> stateObject \<Rightarrow> stateObject \<times> StateDB" where
  "so_finalise_loop [] s obj = (obj, s)"
| "so_finalise_loop (key # keys) s obj =
     (case dirtyStorage obj key of
        None \<Rightarrow> so_finalise_loop keys s obj
      | Some v \<Rightarrow>
          let (obj, s) =
            (case uncommittedStorage obj key of
               Some orig \<Rightarrow>
                 if orig = v
                 then (obj\<lparr>uncommittedStorage := (uncommittedStorage obj)(key := None)\<rparr>, s)
                 else (obj, s)
             | None \<Rightarrow>
                 let (c, obj, s) = so_GetCommittedState s obj key
                 in (obj\<lparr>uncommittedStorage := (uncommittedStorage obj)(key \<mapsto> c)\<rparr>, s))
          in so_finalise_loop keys s (obj\<lparr>pendingStorage := (pendingStorage obj)(key \<mapsto> v)\<rparr>))"

definition so_finalise :: "hash list \<Rightarrow> StateDB \<Rightarrow> stateObject \<Rightarrow> StateDB" where
  "so_finalise keys s obj =
     (let (obj, s) = so_finalise_loop keys s obj
      in setStateObject s (obj\<lparr>dirtyStorage := Map.empty, newContract := False\<rparr>))"

definition markDelete :: "StateDB \<Rightarrow> address \<Rightarrow> StateDB" where
  "markDelete s a = s\<lparr>mutations := (mutations s)(a \<mapsto> \<lparr>mtyp = m_deletion, applied = False\<rparr>)\<rparr>"

definition markUpdate :: "StateDB \<Rightarrow> address \<Rightarrow> StateDB" where
  "markUpdate s a = s\<lparr>mutations := (mutations s)(a \<mapsto> \<lparr>mtyp = m_update, applied = False\<rparr>)\<rparr>"

definition clearJournalAndRefund :: "StateDB \<Rightarrow> StateDB" where
  "clearJournalAndRefund s = s\<lparr>sJournal := j_reset (sJournal s), refund := 0\<rparr>"

definition finalise_account :: "bool \<Rightarrow> (address \<Rightarrow> hash list) \<Rightarrow> StateDB \<Rightarrow> address \<Rightarrow> StateDB" where
  "finalise_account deleteEmptyObjects keys s a =
     (case stateObjects s a of
        None \<Rightarrow> s
      | Some obj \<Rightarrow>
          if selfDestructed obj \<or> deleteEmptyObjects \<and> so_empty obj then
            let s = s\<lparr>stateObjects := (stateObjects s)(oAddress obj := None)\<rparr>;
                s = markDelete s a
            in if stateObjectsDestruct s (oAddress obj) = None
               then s\<lparr>stateObjectsDestruct := (stateObjectsDestruct s)(oAddress obj \<mapsto> obj)\<rparr>
               else s
          else markUpdate (so_finalise (keys a) s obj) a)"

definition Finalise :: "address list \<Rightarrow> (address \<Rightarrow> hash list) \<Rightarrow> StateDB \<Rightarrow> bool \<Rightarrow> StateDB" where
  "Finalise order keys s deleteEmptyObjects =
     clearJournalAndRefund (fold (\<lambda>a s. finalise_account deleteEmptyObjects keys s a) order s)"

type_synonym AccessList = "(address \<times> hash list) list"

fun prepare_slots :: "accessList \<Rightarrow> address \<Rightarrow> hash list \<Rightarrow> accessList option" where
  "prepare_slots al a [] = Some al"
| "prepare_slots al a (key # keys) = do {
     (_, _, al) \<leftarrow> AddSlot al a key;
     prepare_slots al a keys
   }"

fun prepare_list :: "accessList \<Rightarrow> AccessList \<Rightarrow> accessList option" where
  "prepare_list al [] = Some al"
| "prepare_list al ((a, keys) # rest) = do {
     al \<leftarrow> prepare_slots (snd (AddAddress al a)) a keys;
     prepare_list al rest
   }"

definition Prepare ::
  "StateDB \<Rightarrow> Rules \<Rightarrow> address \<Rightarrow> address \<Rightarrow> address option \<Rightarrow> address list \<Rightarrow> AccessList \<Rightarrow> StateDB option" where
  "Prepare s rules sender coinbase dst precompiles list =
     (if IsEIP2929 rules \<and> IsEIP4762 rules then None
      else do {
        s \<leftarrow> (if IsEIP2929 rules then do {
                let al = snd (AddAddress newAccessList sender);
                let al = (case dst of None \<Rightarrow> al | Some d \<Rightarrow> snd (AddAddress al d));
                let al = fold (\<lambda>a al. snd (AddAddress al a)) precompiles al;
                al \<leftarrow> prepare_list al list;
                Some (s\<lparr>sAccessList := if IsShanghai rules then snd (AddAddress al coinbase) else al\<rparr>)
              } else Some s);
        Some (s\<lparr>sTransient := newTransientStorage\<rparr>)
      })"

definition SetTxContext :: "StateDB \<Rightarrow> hash \<Rightarrow> u64 \<Rightarrow> StateDB" where
  "SetTxContext s h ti = s\<lparr>thash := h, txIndex := ti\<rparr>"

end
