(* ===== verification/State_View.thy ===== *)
theory State_View
  imports State_DB
begin

text \<open>
  What the state database means. \<open>view\<close> maps a \<open>StateDB\<close>, with its caches, to the abstract world it
  represents: for every address the account as a reader would see it, the refund counter, logs,
  access list and transient storage. Loading an account, a slot or code into a cache does not
  change the view. Every operation is described by its effect on the view, and \<open>vrevert\<close> is the
  abstract meaning of undoing one journal entry; \<open>view_je_revert\<close> says that the code refines it.
\<close>

section \<open>The abstract world\<close>

record aview =
  avData :: StateAccount
  avCode :: bytes
  avState :: "hash \<Rightarrow> hash"
  avCommitted :: "hash \<Rightarrow> hash"
  avSelfDestructed :: bool
  avNewContract :: bool

type_synonym destructs = "address \<Rightarrow> stateObject option"

definition committed_of :: "Reader \<Rightarrow> destructs \<Rightarrow> stateObject \<Rightarrow> hash \<Rightarrow> hash" where
  "committed_of rd ds obj key =
     (case pendingStorage obj key of
        Some v \<Rightarrow> v
      | None \<Rightarrow>
        case originStorage obj key of
          Some v \<Rightarrow> v
        | None \<Rightarrow>
          if ds (oAddress obj) \<noteq> None then 0
          else case rStorage rd (oAddress obj) key of Inl _ \<Rightarrow> 0 | Inr v \<Rightarrow> v)"

definition code_of :: "Reader \<Rightarrow> stateObject \<Rightarrow> bytes" where
  "code_of rd obj =
     (if ocode obj \<noteq> [] then ocode obj
      else if aCodeHash (data obj) = EmptyCodeHash then []
      else fst (rCode rd (oAddress obj) (aCodeHash (data obj))))"

definition obj_view :: "Reader \<Rightarrow> destructs \<Rightarrow> stateObject \<Rightarrow> aview" where
  "obj_view rd ds obj =
     \<lparr>avData = data obj, avCode = code_of rd obj,
      avState = (\<lambda>key. case dirtyStorage obj key of Some v \<Rightarrow> v | None \<Rightarrow> committed_of rd ds obj key),
      avCommitted = committed_of rd ds obj,
      avSelfDestructed = selfDestructed obj, avNewContract = newContract obj\<rparr>"

text \<open>The object that a fresh lookup in the database below would make.\<close>

definition base_obj :: "Reader \<Rightarrow> destructs \<Rightarrow> address \<Rightarrow> stateObject option" where
  "base_obj rd ds a =
     (if ds a \<noteq> None then None
      else case rAccount rd a of Inr (Some acct) \<Rightarrow> Some (newObject a (Some acct)) | _ \<Rightarrow> None)"

definition peek_obj :: "StateDB \<Rightarrow> address \<Rightarrow> stateObject option" where
  "peek_obj s a =
     (case stateObjects s a of
        Some obj \<Rightarrow> Some obj
      | None \<Rightarrow> base_obj (reader s) (stateObjectsDestruct s) a)"

record sview =
  vReader :: Reader
  vDestruct :: destructs
  vThash :: hash
  vTxIndex :: u64
  vAccounts :: "address \<Rightarrow> aview option"
  vRefund :: u64
  vLogs :: "hash \<Rightarrow> Log list option"
  vLogSize :: u64
  vAccessList :: accessList
  vTransient :: "address \<Rightarrow> hash \<Rightarrow> hash"

definition view :: "StateDB \<Rightarrow> sview" where
  "view s =
     \<lparr>vReader = reader s, vDestruct = stateObjectsDestruct s, vThash = thash s, vTxIndex = txIndex s,
      vAccounts = (\<lambda>a. map_option (obj_view (reader s) (stateObjectsDestruct s)) (peek_obj s a)),
      vRefund = refund s, vLogs = logs s, vLogSize = logSize s, vAccessList = sAccessList s,
      vTransient = ts_Get (sTransient s)\<rparr>"

definition base_view :: "sview \<Rightarrow> address \<Rightarrow> aview option" where
  "base_view v a = map_option (obj_view (vReader v) (vDestruct v)) (base_obj (vReader v) (vDestruct v) a)"

definition v_set :: "address \<Rightarrow> aview option \<Rightarrow> sview \<Rightarrow> sview" where
  "v_set a w v = v\<lparr>vAccounts := (vAccounts v)(a := w)\<rparr>"

text \<open>The abstract account that \<open>createObject\<close> makes.\<close>

definition fresh_view :: "sview \<Rightarrow> address \<Rightarrow> aview" where
  "fresh_view v a = obj_view (vReader v) (vDestruct v) (newObject a None)"

section \<open>Undoing a journal entry, abstractly\<close>

definition v_modify :: "address \<Rightarrow> (aview \<Rightarrow> aview) \<Rightarrow> sview \<Rightarrow> sview option" where
  "v_modify a f v = map_option (\<lambda>w. v_set a (Some (f w)) v) (vAccounts v a)"

fun vrevert :: "(bytes \<Rightarrow> hash) \<Rightarrow> journalEntry \<Rightarrow> sview \<Rightarrow> sview option" where
  "vrevert H (createObjectChange a) v = Some (v_set a (base_view v a) v)"
| "vrevert H (createContractChange a) v = v_modify a (avNewContract_update (\<lambda>_. False)) v"
| "vrevert H (selfDestructChange a) v =
     (case vAccounts v a of None \<Rightarrow> Some v | Some w \<Rightarrow> Some (v_set a (Some (w\<lparr>avSelfDestructed := False\<rparr>)) v))"
| "vrevert H (balanceChange a prev) v = v_modify a (avData_update (Balance_update (\<lambda>_. prev))) v"
| "vrevert H (nonceChange a prev) v = v_modify a (avData_update (Nonce_update (\<lambda>_. prev))) v"
| "vrevert H (storageChange a key prev orig) v =
     v_modify a (\<lambda>w. w\<lparr>avState := (avState w)(key := if prev = orig then avCommitted w key else prev)\<rparr>) v"
| "vrevert H (codeChange a prev) v =
     v_modify a (\<lambda>w. w\<lparr>avCode := prev, avData := (avData w)\<lparr>aCodeHash := H prev\<rparr>\<rparr>) v"
| "vrevert H (refundChange prev) v = Some (v\<lparr>vRefund := prev\<rparr>)"
| "vrevert H (addLogChange h) v =
     (let ls = (case vLogs v h of None \<Rightarrow> [] | Some ls \<Rightarrow> ls) in
      if ls = [] then None
      else Some (v\<lparr>vLogs := (vLogs v)(h := if length ls = 1 then None else Some (butlast ls)),
                  vLogSize := vLogSize v - 1\<rparr>))"
| "vrevert H (touchChange a) v = Some v"
| "vrevert H (accessListAddAccountChange a) v = Some (v\<lparr>vAccessList := DeleteAddress (vAccessList v) a\<rparr>)"
| "vrevert H (accessListAddSlotChange a slot) v =
     map_option (\<lambda>al. v\<lparr>vAccessList := al\<rparr>) (DeleteSlot (vAccessList v) a slot)"
| "vrevert H (transientStorageChange a key prev) v =
     Some (v\<lparr>vTransient := (vTransient v)(a := (vTransient v a)(key := prev))\<rparr>)"

section \<open>Well-formed databases\<close>

text \<open>
  What the code relies on: of the hash, that \<open>types.EmptyCodeHash\<close> is the hash of the empty string;
  of the reader, that code is stored under its hash and that \<open>CodeSize\<close> is its length.
\<close>

definition hash_ok :: "(bytes \<Rightarrow> hash) \<Rightarrow> bool" where
  "hash_ok H \<longleftrightarrow> H [] = EmptyCodeHash"

definition reader_ok :: "(bytes \<Rightarrow> hash) \<Rightarrow> Reader \<Rightarrow> bool" where
  "reader_ok H rd \<longleftrightarrow> (\<forall>a h. (fst (rCode rd a h) \<noteq> [] \<longrightarrow> H (fst (rCode rd a h)) = h)
     \<and> fst (rCodeSize rd a h) = length (fst (rCode rd a h)))"

text \<open>Objects are stored under their own address and cached code belongs to the code hash.\<close>

definition obj_ok :: "(bytes \<Rightarrow> hash) \<Rightarrow> address \<Rightarrow> stateObject \<Rightarrow> bool" where
  "obj_ok H a obj \<longleftrightarrow> oAddress obj = a \<and> (ocode obj \<noteq> [] \<longrightarrow> H (ocode obj) = aCodeHash (data obj))"

definition sdb_ok :: "(bytes \<Rightarrow> hash) \<Rightarrow> StateDB \<Rightarrow> bool" where
  "sdb_ok H s \<longleftrightarrow> hash_ok H \<and> reader_ok H (reader s) \<and> (\<forall>a obj. stateObjects s a = Some obj \<longrightarrow> obj_ok H a obj)"

text \<open>The code of the object at \<open>a\<close>, if any, is in the cache (or empty).\<close>

definition loaded :: "StateDB \<Rightarrow> address \<Rightarrow> bool" where
  "loaded s a \<longleftrightarrow> (\<forall>obj. peek_obj s a = Some obj \<longrightarrow> ocode obj \<noteq> [] \<or> aCodeHash (data obj) = EmptyCodeHash)"

lemma obj_ok_address: "obj_ok H a obj \<Longrightarrow> oAddress obj = a"
  by (simp add: obj_ok_def)

lemma base_obj_ok: "base_obj rd ds a = Some obj \<Longrightarrow> obj_ok H a obj"
  by (auto simp: base_obj_def obj_ok_def newObject_def split: if_splits sum.splits option.splits)

lemma peek_obj_ok: "sdb_ok H s \<Longrightarrow> peek_obj s a = Some obj \<Longrightarrow> obj_ok H a obj"
  by (auto simp: peek_obj_def sdb_ok_def base_obj_ok split: option.splits)

lemma view_simps [simp]:
  "vReader (view s) = reader s" "vDestruct (view s) = stateObjectsDestruct s"
  "vThash (view s) = thash s" "vTxIndex (view s) = txIndex s" "vRefund (view s) = refund s"
  "vLogs (view s) = logs s" "vLogSize (view s) = logSize s" "vAccessList (view s) = sAccessList s"
  "vTransient (view s) a k = ts_Get (sTransient s) a k"
  "vAccounts (view s) a = map_option (obj_view (reader s) (stateObjectsDestruct s)) (peek_obj s a)"
  by (simp_all add: view_def)

lemma v_set_same [simp]: "w = vAccounts v a \<Longrightarrow> v_set a w v = v"
  by (simp add: v_set_def)

lemma v_set_v_set [simp]: "v_set a w (v_set a w' v) = v_set a w v"
  by (simp add: v_set_def)

lemma v_set_sel [simp]:
  "vAccounts (v_set a w v) = (vAccounts v)(a := w)" "vReader (v_set a w v) = vReader v"
  "vDestruct (v_set a w v) = vDestruct v" "vThash (v_set a w v) = vThash v"
  "vTxIndex (v_set a w v) = vTxIndex v" "vRefund (v_set a w v) = vRefund v"
  "vLogs (v_set a w v) = vLogs v" "vLogSize (v_set a w v) = vLogSize v"
  "vAccessList (v_set a w v) = vAccessList v" "vTransient (v_set a w v) = vTransient v"
  by (simp_all add: v_set_def)

section \<open>Caching is invisible\<close>

named_theorems sdb_simps \<open>view and lookups after elementary updates\<close>

lemma peek_setStateObject [sdb_simps]:
  "peek_obj (setStateObject s obj) b = (if b = oAddress obj then Some obj else peek_obj s b)"
  by (simp add: peek_obj_def setStateObject_def cong: option.case_cong)

lemma sel_setStateObject [sdb_simps]:
  "reader (setStateObject s obj) = reader s"
  "stateObjectsDestruct (setStateObject s obj) = stateObjectsDestruct s"
  "sJournal (setStateObject s obj) = sJournal s"
  by (simp_all add: setStateObject_def)

lemma view_setStateObject [sdb_simps]:
  "view (setStateObject s obj) =
     v_set (oAddress obj) (Some (obj_view (reader s) (stateObjectsDestruct s) obj)) (view s)"
  by (simp add: view_def v_set_def sdb_simps fun_eq_iff) (simp add: setStateObject_def)

lemma peek_cong:
  "stateObjects t = stateObjects s \<Longrightarrow> reader t = reader s \<Longrightarrow>
   stateObjectsDestruct t = stateObjectsDestruct s \<Longrightarrow> peek_obj t = peek_obj s"
  by (rule ext) (simp add: peek_obj_def cong: option.case_cong)

lemma view_journal:
  "peek_obj (s\<lparr>sJournal := j\<rparr>) = peek_obj s" "view (s\<lparr>sJournal := j\<rparr>) = view s"
proof -
  show p: "peek_obj (s\<lparr>sJournal := j\<rparr>) = peek_obj s" by (rule peek_cong) simp_all
  show "view (s\<lparr>sJournal := j\<rparr>) = view s" by (simp add: view_def p)
qed

lemma journal_append_sel [sdb_simps]:
  "stateObjects (journal_append s e) = stateObjects s" "reader (journal_append s e) = reader s"
  "stateObjectsDestruct (journal_append s e) = stateObjectsDestruct s"
  "peek_obj (journal_append s e) = peek_obj s" "view (journal_append s e) = view s"
  "entries (sJournal (journal_append s e)) = entries (sJournal s) @ [e]"
  "validRevisions (sJournal (journal_append s e)) = validRevisions (sJournal s)"
  "nextRevisionId (sJournal (journal_append s e)) = nextRevisionId (sJournal s)"
  by (simp_all add: journal_append_def view_journal j_append_def Let_def split: option.split)

lemma setError_sel [sdb_simps]:
  "stateObjects (setError s e) = stateObjects s" "reader (setError s e) = reader s"
  "stateObjectsDestruct (setError s e) = stateObjectsDestruct s"
  "peek_obj (setError s e) = peek_obj s" "view (setError s e) = view s"
  "sJournal (setError s e) = sJournal s"
proof -
  show p: "peek_obj (setError s e) = peek_obj s" by (rule peek_cong) (simp_all add: setError_def)
  show "view (setError s e) = view s" by (simp add: view_def p) (simp add: setError_def)
qed (simp_all add: setError_def)

text \<open>\<open>quiet H s t\<close>: \<open>t\<close> is \<open>s\<close> up to caches; nothing observable and nothing of the journal changed.\<close>

definition quiet :: "(bytes \<Rightarrow> hash) \<Rightarrow> StateDB \<Rightarrow> StateDB \<Rightarrow> bool" where
  "quiet H s t \<longleftrightarrow> view t = view s \<and> sJournal t = sJournal s \<and> (sdb_ok H s \<longrightarrow> sdb_ok H t)
     \<and> (\<forall>a. loaded s a \<longrightarrow> loaded t a)"

lemma quiet_refl [simp]: "quiet H s s"
  by (simp add: quiet_def)

lemma quiet_trans: "quiet H s t \<Longrightarrow> quiet H t u \<Longrightarrow> quiet H s u"
  by (simp add: quiet_def)

lemma quiet_setError: "quiet H s (setError s e)"
  by (simp add: quiet_def sdb_simps sdb_ok_def loaded_def)

lemma view_static:
  "view t = view s \<Longrightarrow> reader t = reader s \<and> stateObjectsDestruct t = stateObjectsDestruct s"
  by (simp add: view_def)

lemma quiet_cache:
  assumes "peek_obj s (oAddress obj) = Some old"
    and "obj_view (reader s) (stateObjectsDestruct s) obj = obj_view (reader s) (stateObjectsDestruct s) old"
    and "sdb_ok H s \<Longrightarrow> obj_ok H (oAddress obj) obj"
    and "ocode old \<noteq> [] \<Longrightarrow> ocode obj \<noteq> []"
  shows "quiet H s (setStateObject s obj)"
proof -
  have "aCodeHash (data obj) = aCodeHash (data old)"
    using arg_cong [OF assms(2), of avData] by (simp add: obj_view_def)
  then show ?thesis
    using assms
    by (auto simp: quiet_def sdb_simps sdb_ok_def loaded_def) (auto simp: setStateObject_def split: if_splits)
qed

lemma getStateObject_eq:
  "getStateObject s a = (peek_obj s a, snd (getStateObject s a))"
  by (auto simp: getStateObject_def peek_obj_def base_obj_def Let_def split: option.splits sum.splits)

lemma getStateObject_quiet: "quiet H s (snd (getStateObject s a))"
proof (cases "stateObjects s a")
  case None
  show ?thesis
  proof (cases "rAccount (reader s) a")
    case (Inl e)
    then show ?thesis using None by (simp add: getStateObject_def quiet_setError)
  next
    case (Inr r)
    show ?thesis
    proof (cases "stateObjectsDestruct s a = None \<and> r \<noteq> None")
      case True
      then obtain acct where r: "r = Some acct" by auto
      let ?o = "newObject a (Some acct)"
      have "peek_obj s (oAddress ?o) = Some ?o"
        using None True Inr r by (simp add: peek_obj_def base_obj_def newObject_def)
      then have "quiet H s (setStateObject s ?o)"
        by (rule quiet_cache) (simp_all add: obj_ok_def newObject_def)
      then show ?thesis using None True Inr r by (simp add: getStateObject_def Let_def)
    next
      case False
      then show ?thesis using None Inr by (auto simp: getStateObject_def)
    qed
  qed
qed (simp add: getStateObject_def)

lemma getStateObject_peek: "peek_obj (snd (getStateObject s a)) = peek_obj s"
  by (auto simp: getStateObject_def sdb_simps fun_eq_iff Let_def split: option.splits sum.splits)
     (auto simp: peek_obj_def base_obj_def newObject_def)

text \<open>The pair of facts that every proof about an object method starts from.\<close>

lemma getStateObjectD:
  assumes "getStateObject s a = (r, t)"
  shows "r = peek_obj s a" and "quiet H s t" and "peek_obj t = peek_obj s"
  using assms getStateObject_eq [of s a] getStateObject_quiet [of H s a] getStateObject_peek [of s a] by auto

section \<open>Object methods on the view\<close>

abbreviation ov :: "StateDB \<Rightarrow> stateObject \<Rightarrow> aview" where
  "ov s obj \<equiv> obj_view (reader s) (stateObjectsDestruct s) obj"

lemma ov_sel [simp]:
  "avData (obj_view rd ds obj) = data obj" "avCommitted (obj_view rd ds obj) = committed_of rd ds obj"
  "avSelfDestructed (obj_view rd ds obj) = selfDestructed obj"
  "avNewContract (obj_view rd ds obj) = newContract obj" "avCode (obj_view rd ds obj) = code_of rd obj"
  by (simp_all add: obj_view_def)

lemma ov_state [simp]:
  "avState (obj_view rd ds obj) key =
     (case dirtyStorage obj key of Some v \<Rightarrow> v | None \<Rightarrow> committed_of rd ds obj key)"
  by (simp add: obj_view_def)

lemma committed_of_cong:
  "pendingStorage obj' = pendingStorage obj \<Longrightarrow> originStorage obj' = originStorage obj \<Longrightarrow>
   oAddress obj' = oAddress obj \<Longrightarrow> committed_of rd ds obj' = committed_of rd ds obj"
  by (rule ext) (simp add: committed_of_def cong: option.case_cong)

text \<open>An update that leaves the committed storage alone.\<close>

lemma ov_update:
  assumes "pendingStorage obj' = pendingStorage obj" and "originStorage obj' = originStorage obj"
    and "oAddress obj' = oAddress obj"
  shows "obj_view rd ds obj' =
     \<lparr>avData = data obj', avCode = code_of rd obj',
      avState = (\<lambda>key. case dirtyStorage obj' key of Some v \<Rightarrow> v | None \<Rightarrow> committed_of rd ds obj key),
      avCommitted = committed_of rd ds obj,
      avSelfDestructed = selfDestructed obj', avNewContract = newContract obj'\<rparr>"
  unfolding obj_view_def committed_of_cong [OF assms] ..

lemma ov_setBalance [sdb_simps]:
  "obj_view rd ds (so_setBalance obj x) = avData_update (Balance_update (\<lambda>_. x)) (obj_view rd ds obj)"
  "oAddress (so_setBalance obj x) = oAddress obj" "ocode (so_setBalance obj x) = ocode obj"
  "aCodeHash (data (so_setBalance obj x)) = aCodeHash (data obj)"
  by (subst ov_update [of _ obj], simp_all add: so_setBalance_def) (simp add: obj_view_def code_of_def)

lemma ov_setNonce [sdb_simps]:
  "obj_view rd ds (so_setNonce obj x) = avData_update (Nonce_update (\<lambda>_. x)) (obj_view rd ds obj)"
  "oAddress (so_setNonce obj x) = oAddress obj" "ocode (so_setNonce obj x) = ocode obj"
  "aCodeHash (data (so_setNonce obj x)) = aCodeHash (data obj)"
  by (subst ov_update [of _ obj], simp_all add: so_setNonce_def) (simp add: obj_view_def code_of_def)

lemma ov_newContract [sdb_simps]:
  "obj_view rd ds (obj\<lparr>newContract := b\<rparr>) = (obj_view rd ds obj)\<lparr>avNewContract := b\<rparr>"
  by (subst ov_update [of _ obj]) (simp_all add: obj_view_def code_of_def)

lemma ov_selfDestructed [sdb_simps]:
  "obj_view rd ds (obj\<lparr>selfDestructed := b\<rparr>) = (obj_view rd ds obj)\<lparr>avSelfDestructed := b\<rparr>"
  by (subst ov_update [of _ obj]) (simp_all add: obj_view_def code_of_def)

lemma ov_setCode [sdb_simps]:
  "code = [] \<longrightarrow> h = EmptyCodeHash \<Longrightarrow> obj_view rd ds (so_setCode obj h code) =
     (obj_view rd ds obj)\<lparr>avCode := code, avData := (data obj)\<lparr>aCodeHash := h\<rparr>\<rparr>"
  by (subst ov_update [of _ obj], simp_all add: so_setCode_def) (simp add: obj_view_def code_of_def)

lemma sel_setCode [sdb_simps]:
  "oAddress (so_setCode obj h code) = oAddress obj" "ocode (so_setCode obj h code) = code"
  "aCodeHash (data (so_setCode obj h code)) = h"
  by (simp_all add: so_setCode_def)

lemma ov_setState [sdb_simps]:
  "obj_view rd ds (so_setState obj key v orig) = (obj_view rd ds obj)
     \<lparr>avState := (avState (obj_view rd ds obj))(key := if v = orig then committed_of rd ds obj key else v)\<rparr>"
  by (subst ov_update [of _ obj], simp_all add: so_setState_def)
     (auto simp: obj_view_def code_of_def fun_eq_iff)

lemma sel_setState [sdb_simps]:
  "oAddress (so_setState obj key v orig) = oAddress obj" "ocode (so_setState obj key v orig) = ocode obj"
  "data (so_setState obj key v orig) = data obj"
  by (simp_all add: so_setState_def)

text \<open>\<open>caches s obj t obj'\<close>: \<open>obj'\<close> in \<open>t\<close> is \<open>obj\<close> in \<open>s\<close> with more of it cached.\<close>

definition caches :: "(bytes \<Rightarrow> hash) \<Rightarrow> StateDB \<Rightarrow> stateObject \<Rightarrow> StateDB \<Rightarrow> stateObject \<Rightarrow> bool" where
  "caches H s obj t obj' \<longleftrightarrow> quiet H s t \<and> peek_obj t (oAddress obj) = Some obj'
     \<and> oAddress obj' = oAddress obj \<and> ov s obj' = ov s obj \<and> ocode obj' = ocode obj
     \<and> dirtyStorage obj' = dirtyStorage obj"

lemma caches_refl: "peek_obj s (oAddress obj) = Some obj \<Longrightarrow> caches H s obj s obj"
  by (simp add: caches_def)

lemma caches_origin:
  assumes "peek_obj s (oAddress obj) = Some obj" and "committed_of (reader s) (stateObjectsDestruct s) obj key = v"
    and "sdb_ok H s \<Longrightarrow> obj_ok H (oAddress obj) obj" and "pendingStorage obj key = None"
    and "originStorage obj key = None"
  defines "obj' \<equiv> obj\<lparr>originStorage := (originStorage obj)(key \<mapsto> v)\<rparr>"
  shows "caches H s obj (setStateObject s obj') obj'"
proof -
  have "committed_of (reader s) (stateObjectsDestruct s) obj' k
      = committed_of (reader s) (stateObjectsDestruct s) obj k" for k
    using assms(2,4,5) by (cases "k = key") (simp_all add: committed_of_def obj'_def cong: option.case_cong)
  then have "committed_of (reader s) (stateObjectsDestruct s) obj'
      = committed_of (reader s) (stateObjectsDestruct s) obj" by (rule ext)
  then have c: "ov s obj' = ov s obj"
    unfolding obj_view_def by (simp cong: option.case_cong) (simp add: obj'_def code_of_def)
  have "quiet H s (setStateObject s obj')"
    by (rule quiet_cache [where old = obj]) (use assms(1,3) c in \<open>simp_all add: obj'_def obj_ok_def\<close>)
  with c show ?thesis by (simp add: caches_def sdb_simps obj'_def)
qed

lemma so_GetCommittedState_spec:
  assumes "peek_obj s (oAddress obj) = Some obj" and "sdb_ok H s"
  shows "\<exists>obj' t. so_GetCommittedState s obj key
      = (committed_of (reader s) (stateObjectsDestruct s) obj key, obj', t) \<and> caches H s obj t obj'"
proof (cases "pendingStorage obj key = None \<and> originStorage obj key = None")
  case False
  then show ?thesis using caches_refl [OF assms(1)]
    by (auto simp: so_GetCommittedState_def committed_of_def split: option.splits)
next
  case True
  have ok: "obj_ok H (oAddress obj) obj" using peek_obj_ok [OF assms(2,1)] .
  note co = caches_origin [OF assms(1) _ ok, where key = key]
  show ?thesis
  proof (cases "stateObjectsDestruct s (oAddress obj)")
    case (Some d)
    then have "committed_of (reader s) (stateObjectsDestruct s) obj key = 0"
      using True by (simp add: committed_of_def)
    with co [OF this] show ?thesis using True Some by (simp add: so_GetCommittedState_def Let_def)
  next
    case None
    show ?thesis
    proof (cases "rStorage (reader s) (oAddress obj) key")
      case (Inl e)
      have "caches H s obj (setError s (StorageErr e)) obj"
        using assms(1) by (simp add: caches_def quiet_setError sdb_simps)
      with Inl None True show ?thesis by (simp add: so_GetCommittedState_def committed_of_def)
    next
      case (Inr v)
      then have "committed_of (reader s) (stateObjectsDestruct s) obj key = v"
        using True None by (simp add: committed_of_def)
      with co [OF this] show ?thesis using True None Inr by (simp add: so_GetCommittedState_def Let_def)
    qed
  qed
qed

lemma so_getState_spec:
  assumes "peek_obj s (oAddress obj) = Some obj" and "sdb_ok H s"
  shows "\<exists>obj' t. so_getState s obj key = (avState (ov s obj) key,
      committed_of (reader s) (stateObjectsDestruct s) obj key, obj', t) \<and> caches H s obj t obj'"
proof -
  obtain obj' t where g: "so_GetCommittedState s obj key
      = (committed_of (reader s) (stateObjectsDestruct s) obj key, obj', t)" "caches H s obj t obj'"
    using so_GetCommittedState_spec [OF assms] by blast
  then have "dirtyStorage obj' = dirtyStorage obj" by (simp add: caches_def)
  with g show ?thesis by (auto simp: so_getState_def split: option.splits)
qed

lemma so_Code_spec:
  assumes "peek_obj s (oAddress obj) = Some obj" and "sdb_ok H s"
  shows "\<exists>t. so_Code s obj = (code_of (reader s) obj, t) \<and> quiet H s t"
proof (cases "ocode obj \<noteq> [] \<or> aCodeHash (data obj) = EmptyCodeHash")
  case True
  then show ?thesis by (auto simp: so_Code_def code_of_def)
next
  case False
  define h where "h = aCodeHash (data obj)"
  obtain code err where rc: "rCode (reader s) (oAddress obj) h = (code, err)" by fastforce
  define t where "t = (case err of None \<Rightarrow> s | Some e \<Rightarrow> setError s (CodeErr h e))"
  define u where "u = (if code = [] then setError t (CodeNotFound h) else t)"
  have q: "quiet H s u"
    using quiet_setError quiet_trans by (auto simp: u_def t_def split: option.splits) blast+
  have p: "peek_obj u (oAddress obj) = Some obj" and st: "reader u = reader s"
    using assms(1) by (auto simp: u_def t_def sdb_simps split: option.splits)
  have c: "code_of (reader s) obj = code" using False rc by (simp add: code_of_def h_def)
  have hc: "code \<noteq> [] \<Longrightarrow> H code = h"
    using assms(2) rc unfolding sdb_ok_def reader_ok_def by (metis fst_conv)
  have "quiet H u (setStateObject u (obj\<lparr>ocode := code\<rparr>))"
  proof (rule quiet_cache [where old = obj])
    show "ov u (obj\<lparr>ocode := code\<rparr>) = ov u obj"
      using c False rc by (subst ov_update [of _ obj]) (auto simp: obj_view_def code_of_def st h_def cong: option.case_cong)
  qed (use p False hc in \<open>auto simp: obj_ok_def h_def\<close>)
  then have "quiet H s (setStateObject u (obj\<lparr>ocode := code\<rparr>))" using q quiet_trans by blast
  moreover have "so_Code s obj = (code, setStateObject u (obj\<lparr>ocode := code\<rparr>))"
    using False rc by (simp add: so_Code_def Let_def u_def t_def flip: h_def)
  ultimately show ?thesis using c by auto
qed

lemma so_CodeSize_spec:
  assumes "sdb_ok H s"
  shows "\<exists>t. so_CodeSize s obj = (length (code_of (reader s) obj), t) \<and> quiet H s t"
proof (cases "ocode obj \<noteq> [] \<or> aCodeHash (data obj) = EmptyCodeHash")
  case True
  then show ?thesis by (auto simp: so_CodeSize_def code_of_def)
next
  case False
  define h where "h = aCodeHash (data obj)"
  obtain n err where rc: "rCodeSize (reader s) (oAddress obj) h = (n, err)" by fastforce
  have "fst (rCodeSize (reader s) (oAddress obj) h) = length (fst (rCode (reader s) (oAddress obj) h))"
    using assms by (simp add: sdb_ok_def reader_ok_def)
  then have n: "n = length (code_of (reader s) obj)"
    using rc False by (simp add: code_of_def h_def)
  define t where "t = (case err of None \<Rightarrow> s | Some e \<Rightarrow> setError s (CodeSizeErr h e))"
  define u where "u = (if n = 0 then setError t (CodeNotFound h) else t)"
  have "quiet H s u"
    using quiet_setError quiet_trans by (auto simp: u_def t_def split: option.splits) blast+
  moreover have "so_CodeSize s obj = (n, u)"
    using False rc by (simp add: so_CodeSize_def Let_def u_def t_def flip: h_def)
  ultimately show ?thesis using n by auto
qed

section \<open>Undoing an entry refines its abstract meaning\<close>

lemma sdb_okD: "sdb_ok H s \<Longrightarrow> hash_ok H" "sdb_ok H s \<Longrightarrow> reader_ok H (reader s)"
  by (simp_all add: sdb_ok_def)

lemma quiet_static:
  "quiet H s t \<Longrightarrow> reader t = reader s" "quiet H s t \<Longrightarrow> stateObjectsDestruct t = stateObjectsDestruct s"
  by (simp_all add: quiet_def view_def)

lemma peek_upd [sdb_simps]:
  "peek_obj (s\<lparr>refund := x\<rparr>) = peek_obj s" "peek_obj (s\<lparr>logs := l\<rparr>) = peek_obj s"
  "peek_obj (s\<lparr>logSize := n\<rparr>) = peek_obj s" "peek_obj (s\<lparr>sAccessList := al\<rparr>) = peek_obj s"
  "peek_obj (s\<lparr>sTransient := t\<rparr>) = peek_obj s" "peek_obj (s\<lparr>preimages := p\<rparr>) = peek_obj s"
  by (rule peek_cong; simp)+

lemma view_upd [sdb_simps]:
  "view (s\<lparr>refund := x\<rparr>) = (view s)\<lparr>vRefund := x\<rparr>"
  "view (s\<lparr>logs := l\<rparr>) = (view s)\<lparr>vLogs := l\<rparr>"
  "view (s\<lparr>logSize := n\<rparr>) = (view s)\<lparr>vLogSize := n\<rparr>"
  "view (s\<lparr>sAccessList := al\<rparr>) = (view s)\<lparr>vAccessList := al\<rparr>"
  "view (s\<lparr>sTransient := t\<rparr>) = (view s)\<lparr>vTransient := ts_Get t\<rparr>"
  "view (s\<lparr>preimages := p\<rparr>) = view s"
  by (simp_all add: view_def peek_upd)

lemma view_delete [sdb_simps]:
  "view (s\<lparr>stateObjects := (stateObjects s)(a := None)\<rparr>) = v_set a (base_view (view s) a) (view s)"
  by (simp add: view_def v_set_def base_view_def peek_obj_def fun_eq_iff cong: option.case_cong)

lemma je_revert_obj:
  assumes "sdb_ok H s"
    and g: "\<And>w. peek_obj s a = Some w \<Longrightarrow> obj_view (reader s) (stateObjectsDestruct s) (f w)
              = g (obj_view (reader s) (stateObjectsDestruct s) w)"
    and f: "\<And>w. oAddress (f w) = oAddress w"
  shows "map_option view
      (let (o', s) = getStateObject s a in
       case o' of None \<Rightarrow> None | Some obj \<Rightarrow> Some (setStateObject s (f obj)))
    = v_modify a g (view s)"
proof -
  obtain t where t: "getStateObject s a = (peek_obj s a, t)" and q: "quiet H s t"
    using getStateObject_eq [of s a] getStateObject_quiet [of H s a] by metis
  have "view t = view s" using q by (simp add: quiet_def)
  moreover have "peek_obj s a = Some w \<Longrightarrow> oAddress w = a" for w
    using peek_obj_ok [OF assms(1)] obj_ok_address by blast
  ultimately show ?thesis using g f
    by (cases "peek_obj s a") (simp_all add: t v_modify_def sdb_simps quiet_static [OF q])
qed

lemma view_je_revert:
  assumes "sdb_ok H s"
  shows "map_option view (je_revert H e s) = vrevert H e (view s)"
proof (cases e)
  case (createObjectChange a)
  then show ?thesis by (simp add: sdb_simps)
next
  case (createContractChange a)
  then show ?thesis using je_revert_obj [OF assms, of a "newContract_update (\<lambda>_. False)"]
    by (simp add: sdb_simps)
next
  case (selfDestructChange a)
  obtain t where t: "getStateObject s a = (peek_obj s a, t)" and q: "quiet H s t"
    using getStateObject_eq [of s a] getStateObject_quiet [of H s a] by metis
  have "view t = view s" using q by (simp add: quiet_def)
  moreover have "peek_obj s a = Some w \<Longrightarrow> oAddress w = a" for w
    using peek_obj_ok [OF assms] obj_ok_address by blast
  ultimately show ?thesis using selfDestructChange
    by (cases "peek_obj s a") (simp_all add: t sdb_simps quiet_static [OF q])
next
  case (balanceChange a prev)
  then show ?thesis using je_revert_obj [OF assms, of a "\<lambda>w. so_setBalance w prev"]
    by (simp add: sdb_simps)
next
  case (nonceChange a prev)
  then show ?thesis using je_revert_obj [OF assms, of a "\<lambda>w. so_setNonce w prev"]
    by (simp add: sdb_simps)
next
  case (storageChange a key prev orig)
  then show ?thesis
    using je_revert_obj [OF assms, of a "\<lambda>w. so_setState w key prev orig"
      "\<lambda>w. w\<lparr>avState := (avState w)(key := if prev = orig then avCommitted w key else prev)\<rparr>"]
    by (simp add: sdb_simps)
next
  case (codeChange a prev)
  have "prev = [] \<longrightarrow> H prev = EmptyCodeHash" using sdb_okD(1) [OF assms] by (simp add: hash_ok_def)
  with codeChange show ?thesis
    using je_revert_obj [OF assms, of a "\<lambda>w. so_setCode w (H prev) prev"
      "\<lambda>w. w\<lparr>avCode := prev, avData := (avData w)\<lparr>aCodeHash := H prev\<rparr>\<rparr>"]
    by (simp add: sdb_simps)
next
  case (addLogChange h)
  then show ?thesis by (auto simp: Let_def sdb_simps split: option.splits)
next
  case (accessListAddSlotChange a slot)
  then show ?thesis
    by (cases "DeleteSlot (sAccessList s) a slot") (simp_all add: sdb_simps)
next
  case (transientStorageChange a key prev)
  have "ts_Get (ts_Set (sTransient s) a key prev)
      = (ts_Get (sTransient s))(a := (ts_Get (sTransient s) a)(key := prev))"
    by (auto simp: fun_eq_iff ts_Get_Set)
  moreover have "vTransient (view s) = ts_Get (sTransient s)" by (simp add: view_def)
  ultimately show ?thesis using transientStorageChange by (simp add: setTransientState_def sdb_simps)
qed (simp_all add: sdb_simps)

end
