(* ===== verification/State_Journal.thy ===== *)
theory State_Journal
  imports State_View
begin

text \<open>
  The journal as an implementation of snapshots. \<open>hist s k\<close> is the abstract world at journal index
  \<open>k\<close>, obtained by undoing the later entries on the view. \<open>sinv\<close> is the invariant of a database
  between calls: every index has such a world. \<open>evolves s t\<close> says that \<open>t\<close> is reached from \<open>s\<close> by
  journalled changes: the worlds at the indices of \<open>s\<close> are still the same ones. Both are established
  for every operation, and imply that reverting to a snapshot restores the world it was taken in.
\<close>

section \<open>The world at a journal index\<close>

fun vunwind :: "(bytes \<Rightarrow> hash) \<Rightarrow> journalEntry list \<Rightarrow> sview \<Rightarrow> sview option" where
  "vunwind H [] v = Some v"
| "vunwind H (e # es) v = Option.bind (vrevert H e v) (vunwind H es)"

definition hist :: "(bytes \<Rightarrow> hash) \<Rightarrow> StateDB \<Rightarrow> nat \<Rightarrow> sview option" where
  "hist H s k = vunwind H (rev (drop k (entries (sJournal s)))) (view s)"

text \<open>What every such world satisfies: a well-formed access list, and no empty list of logs.\<close>

definition vwf :: "sview \<Rightarrow> bool" where
  "vwf v \<longleftrightarrow> al_wf (vAccessList v) \<and> (\<forall>h. vLogs v h \<noteq> Some [])"

definition hist_ok :: "(bytes \<Rightarrow> hash) \<Rightarrow> StateDB \<Rightarrow> bool" where
  "hist_ok H s \<longleftrightarrow> (\<forall>k \<le> length (entries (sJournal s)). \<exists>v. hist H s k = Some v \<and> vwf v)"

definition created_fresh :: "StateDB \<Rightarrow> bool" where
  "created_fresh s \<longleftrightarrow> (\<forall>a. createObjectChange a \<in> set (entries (sJournal s)) \<longrightarrow>
     base_obj (reader s) (stateObjectsDestruct s) a = None)"

definition revs_ok :: "StateDB \<Rightarrow> bool" where
  "revs_ok s \<longleftrightarrow>
     sorted_wrt (\<lambda>r r'. rid r < rid r' \<and> journalIndex r \<le> journalIndex r') (validRevisions (sJournal s))
     \<and> (\<forall>r \<in> set (validRevisions (sJournal s)).
          rid r < nextRevisionId (sJournal s) \<and> journalIndex r \<le> length (entries (sJournal s)))"

definition sinv :: "(bytes \<Rightarrow> hash) \<Rightarrow> StateDB \<Rightarrow> bool" where
  "sinv H s \<longleftrightarrow> sdb_ok H s \<and> hist_ok H s \<and> created_fresh s \<and> revs_ok s"

definition evolves :: "(bytes \<Rightarrow> hash) \<Rightarrow> StateDB \<Rightarrow> StateDB \<Rightarrow> bool" where
  "evolves H s t \<longleftrightarrow> sinv H t
     \<and> (\<exists>es. entries (sJournal t) = entries (sJournal s) @ es)
     \<and> (\<forall>k \<le> length (entries (sJournal s)). hist H t k = hist H s k)
     \<and> (\<exists>rs. validRevisions (sJournal t) = validRevisions (sJournal s) @ rs
          \<and> (\<forall>r \<in> set rs. nextRevisionId (sJournal s) \<le> rid r \<and> length (entries (sJournal s)) \<le> journalIndex r))
     \<and> nextRevisionId (sJournal s) \<le> nextRevisionId (sJournal t)
     \<and> (\<forall>a. loaded s a \<longrightarrow> loaded t a)"

lemma sinvD:
  assumes "sinv H s"
  shows "sdb_ok H s" "hist_ok H s" "created_fresh s" "revs_ok s"
  using assms by (simp_all add: sinv_def)

lemma hist_now [simp]: "hist H s (length (entries (sJournal s))) = Some (view s)"
  by (simp add: hist_def)

lemma vwf_upd [simp]:
  "vwf (v_set a w v) = vwf v" "vwf (v\<lparr>vRefund := x\<rparr>) = vwf v" "vwf (v\<lparr>vTransient := t\<rparr>) = vwf v"
  by (simp_all add: vwf_def)

lemma sinv_vwf: "sinv H s \<Longrightarrow> vwf (view s)"
  unfolding sinv_def hist_ok_def using hist_now [of H s] by fastforce

lemma sinv_al_wf: "sinv H s \<Longrightarrow> al_wf (sAccessList s)"
  using sinv_vwf [of H s] by (simp add: vwf_def)

lemma evolves_refl: "sinv H s \<Longrightarrow> evolves H s s"
  by (simp add: evolves_def)

lemma evolves_sinv: "evolves H s t \<Longrightarrow> sinv H t"
  by (simp add: evolves_def)

lemma evolves_loaded: "evolves H s t \<Longrightarrow> loaded s a \<Longrightarrow> loaded t a"
  by (simp add: evolves_def)

lemma evolves_trans:
  assumes "evolves H s t" and "evolves H t u"
  shows "evolves H s u"
proof -
  obtain es es' where e: "entries (sJournal t) = entries (sJournal s) @ es"
    "entries (sJournal u) = entries (sJournal t) @ es'"
    using assms by (auto simp: evolves_def)
  obtain rs rs' where r: "validRevisions (sJournal t) = validRevisions (sJournal s) @ rs"
    "\<forall>r \<in> set rs. nextRevisionId (sJournal s) \<le> rid r \<and> length (entries (sJournal s)) \<le> journalIndex r"
    "validRevisions (sJournal u) = validRevisions (sJournal t) @ rs'"
    "\<forall>r \<in> set rs'. nextRevisionId (sJournal t) \<le> rid r \<and> length (entries (sJournal t)) \<le> journalIndex r"
    using assms unfolding evolves_def by blast
  have n: "nextRevisionId (sJournal s) \<le> nextRevisionId (sJournal t)"
    "nextRevisionId (sJournal t) \<le> nextRevisionId (sJournal u)"
    using assms by (simp_all add: evolves_def)
  have "\<forall>r \<in> set (rs @ rs'). nextRevisionId (sJournal s) \<le> rid r \<and> length (entries (sJournal s)) \<le> journalIndex r"
    using r(2,4) n(1) e(1) by fastforce
  moreover have "\<forall>k \<le> length (entries (sJournal s)). hist H u k = hist H s k"
    using assms e(1) by (simp add: evolves_def)
  ultimately show ?thesis
    using assms e r(1,3) n by (auto simp: evolves_def intro: order_trans)
qed

section \<open>Elementary steps\<close>

text \<open>
  \<open>logged H e s t\<close>: \<open>t\<close> appends the entry \<open>e\<close> to the journal, and undoing \<open>e\<close> on the view of \<open>t\<close>
  gives back the view of \<open>s\<close>.
\<close>

definition logged :: "(bytes \<Rightarrow> hash) \<Rightarrow> journalEntry \<Rightarrow> StateDB \<Rightarrow> StateDB \<Rightarrow> bool" where
  "logged H e s t \<longleftrightarrow> entries (sJournal t) = entries (sJournal s) @ [e]
     \<and> validRevisions (sJournal t) = validRevisions (sJournal s)
     \<and> nextRevisionId (sJournal t) = nextRevisionId (sJournal s)
     \<and> vrevert H e (view t) = Some (view s) \<and> sdb_ok H t \<and> vwf (view t)
     \<and> (\<forall>a. loaded s a \<longrightarrow> loaded t a)
     \<and> (\<forall>a. e = createObjectChange a \<longrightarrow> base_obj (reader s) (stateObjectsDestruct s) a = None)"

lemma vrevert_static:
  "vrevert H e v = Some w \<Longrightarrow> vReader w = vReader v \<and> vDestruct w = vDestruct v
     \<and> vThash w = vThash v \<and> vTxIndex w = vTxIndex v"
  by (cases e) (auto simp: v_modify_def Let_def split: option.splits if_splits)

lemma vunwind_static:
  "vunwind H es v = Some w \<Longrightarrow> vReader w = vReader v \<and> vDestruct w = vDestruct v
     \<and> vThash w = vThash v \<and> vTxIndex w = vTxIndex v"
  by (induction es arbitrary: v) (auto simp: bind_Some_iff dest!: vrevert_static)

lemma evolves_static:
  assumes "evolves H s t"
  shows "reader t = reader s" "stateObjectsDestruct t = stateObjectsDestruct s" "thash t = thash s"
    "txIndex t = txIndex s"
proof -
  have "hist H t (length (entries (sJournal s))) = Some (view s)"
    using assms by (simp add: evolves_def)
  from vunwind_static [OF this [unfolded hist_def]]
  show "reader t = reader s" "stateObjectsDestruct t = stateObjectsDestruct s" "thash t = thash s"
    "txIndex t = txIndex s" by simp_all
qed

lemma evolves_quiet:
  assumes "sinv H s" and "quiet H s t"
  shows "evolves H s t"
proof -
  have v: "view t = view s" and j: "sJournal t = sJournal s"
    using assms(2) by (simp_all add: quiet_def)
  have h: "hist H t = hist H s" by (simp add: hist_def fun_eq_iff v j)
  have "sinv H t"
    using assms v view_static [OF v]
    by (simp add: sinv_def quiet_def hist_ok_def h j created_fresh_def revs_ok_def)
  with assms(2) show ?thesis by (simp add: evolves_def h j quiet_def)
qed

lemma hist_append:
  assumes "entries (sJournal t) = entries (sJournal s) @ [e]" and "vrevert H e (view t) = Some (view s)"
    and "k \<le> length (entries (sJournal s))"
  shows "hist H t k = hist H s k"
  using assms by (simp add: hist_def)

lemma evolves_logged:
  assumes "sinv H s" and l: "logged H e s t"
  shows "evolves H s t"
proof -
  have ent: "entries (sJournal t) = entries (sJournal s) @ [e]"
    and rev: "vrevert H e (view t) = Some (view s)"
    and j: "validRevisions (sJournal t) = validRevisions (sJournal s)"
      "nextRevisionId (sJournal t) = nextRevisionId (sJournal s)"
    using l by (simp_all add: logged_def)
  note h = hist_append [OF ent rev]
  have "hist_ok H t" unfolding hist_ok_def
  proof (intro allI impI)
    fix k assume k: "k \<le> length (entries (sJournal t))"
    show "\<exists>v. hist H t k = Some v \<and> vwf v"
    proof (cases "k \<le> length (entries (sJournal s))")
      case True
      then show ?thesis using sinvD(2) [OF assms(1)] by (simp add: h hist_ok_def)
    next
      case False
      with k have "k = length (entries (sJournal t))" by (simp add: ent)
      then have "hist H t k = Some (view t)" by simp
      then show ?thesis using l by (simp add: logged_def)
    qed
  qed
  moreover have "created_fresh t"
    using sinvD(3) [OF assms(1)] l vrevert_static [OF rev] by (auto simp: created_fresh_def logged_def)
  moreover have "revs_ok t"
    using sinvD(4) [OF assms(1)] by (auto simp: revs_ok_def j ent)
  ultimately have "sinv H t" using l by (simp add: sinv_def logged_def)
  with l h show ?thesis by (simp add: evolves_def logged_def)
qed

lemma evolves_Snapshot:
  assumes "sinv H s" and "Snapshot s = (revid, t)"
  shows "evolves H s t" and "view t = view s"
proof -
  have t: "t = s\<lparr>sJournal := (sJournal s)\<lparr>nextRevisionId := revid + 1, validRevisions := validRevisions (sJournal s)
        @ [\<lparr>rid = revid, journalIndex = length (entries (sJournal s))\<rparr>]\<rparr>\<rparr>"
    and revid: "revid = nextRevisionId (sJournal s)"
    using assms(2) by (auto simp: Snapshot_def j_snapshot_def Let_def)
  show v: "view t = view s" by (simp add: t view_journal)
  have h: "hist H t = hist H s" by (simp add: hist_def fun_eq_iff v) (simp add: t)
  have l: "loaded t a = loaded s a" for a by (simp add: loaded_def t view_journal)
  have "revs_ok t"
    using sinvD(4) [OF assms(1)] by (auto simp: revs_ok_def t revid sorted_wrt_append)
  then have "sinv H t"
    using assms(1) by (simp add: sinv_def hist_ok_def h) (simp add: t sdb_ok_def created_fresh_def)
  then show "evolves H s t"
    by (auto simp: evolves_def h l) (auto simp: t revid)
qed

section \<open>Reverting\<close>

text \<open>
  The shapes of an undo step: an object is changed in place, an object is dropped, nothing but
  caches changes, or a part of the database other than the objects changes.
\<close>

lemma je_revert_cases:
  assumes "sdb_ok H s" and "je_revert H e s = Some t"
  obtains (obj) a w w' u where "getStateObject s a = (Some w, u)" "t = setStateObject u w'"
      "oAddress w' = oAddress w"
      "ocode w' = ocode w \<and> aCodeHash (data w') = aCodeHash (data w) \<or> aCodeHash (data w') = H (ocode w')"
  | (drop) a where "e = createObjectChange a" "t = s\<lparr>stateObjects := (stateObjects s)(a := None)\<rparr>"
  | (cache) a u where "getStateObject s a = (None, u)" "t = u"
  | (other) "stateObjects t = stateObjects s" "reader t = reader s" "sJournal t = sJournal s"
      "stateObjectsDestruct t = stateObjectsDestruct s"
proof (cases e)
  case (createContractChange a)
  then show ?thesis using assms(2) by (auto split: prod.splits option.splits intro: obj)
next
  case (selfDestructChange a)
  then show ?thesis using assms(2) by (auto split: prod.splits option.splits intro: obj cache)
next
  case (balanceChange a prev)
  then show ?thesis using assms(2)
    by (auto split: prod.splits option.splits intro: obj simp: sdb_simps)
next
  case (nonceChange a prev)
  then show ?thesis using assms(2)
    by (auto split: prod.splits option.splits intro: obj simp: sdb_simps)
next
  case (storageChange a key prev orig)
  then show ?thesis using assms(2)
    by (auto split: prod.splits option.splits intro: obj simp: sdb_simps)
next
  case (codeChange a prev)
  then show ?thesis using assms(2)
    by (auto split: prod.splits option.splits intro: obj simp: sdb_simps)
qed (use assms(2) in \<open>auto simp: Let_def bind_Some_iff setTransientState_def split: if_splits intro: drop other\<close>)

lemma sdb_ok_setStateObject:
  "sdb_ok H u \<Longrightarrow> obj_ok H (oAddress obj) obj \<Longrightarrow> sdb_ok H (setStateObject u obj)"
  by (auto simp: sdb_ok_def setStateObject_def)

lemma je_revert_frame:
  assumes "sdb_ok H s" and "je_revert H e s = Some t"
  shows "sdb_ok H t" and "sJournal t = sJournal s"
proof -
  have "sdb_ok H t \<and> sJournal t = sJournal s"
    using assms
  proof (cases rule: je_revert_cases)
    case (obj a w w' u)
    note g = getStateObjectD(1) [OF obj(1)] getStateObjectD(2) [OF obj(1), of H] getStateObjectD(3) [OF obj(1)]
    have "sdb_ok H u" using g(2) assms(1) by (simp add: quiet_def)
    moreover have "obj_ok H (oAddress w') w'"
      using obj(3,4) peek_obj_ok [OF assms(1) g(1) [symmetric]] by (auto simp: obj_ok_def)
    ultimately show ?thesis
      using g(2) by (simp add: obj(2) sdb_ok_setStateObject sdb_simps quiet_def)
  next
    case (drop a)
    then show ?thesis using assms(1) by (auto simp: sdb_ok_def)
  next
    case (cache a u)
    then show ?thesis using getStateObjectD(2) [OF cache(1), of H] assms(1) by (simp add: quiet_def)
  next
    case other
    then show ?thesis using assms(1) by (simp add: sdb_ok_def)
  qed
  then show "sdb_ok H t" "sJournal t = sJournal s" by simp_all
qed

lemma je_revert_loaded:
  assumes ok: "sdb_ok H s" and r: "je_revert H e s = Some t" and l: "loaded s b"
    and fresh: "\<And>a. e = createObjectChange a \<Longrightarrow> base_obj (reader s) (stateObjectsDestruct s) a = None"
  shows "loaded t b"
  using ok r
proof (cases rule: je_revert_cases)
  case (obj a w w' u)
  note g = getStateObjectD(1) [OF obj(1)] getStateObjectD(2) [OF obj(1), of H] getStateObjectD(3) [OF obj(1)]
  have "oAddress w = a" using peek_obj_ok [OF ok g(1) [symmetric]] by (simp add: obj_ok_def)
  moreover have "H [] = EmptyCodeHash" using sdb_okD(1) [OF ok] by (simp add: hash_ok_def)
  ultimately show ?thesis
    using l g obj(3,4) by (auto simp: obj(2) loaded_def sdb_simps)
next
  case (drop a)
  then show ?thesis using fresh [OF drop(1)] l
    by (auto simp: loaded_def peek_obj_def split: if_splits option.splits)
next
  case (cache a u)
  then show ?thesis using getStateObjectD(2) [OF cache(1), of H] l by (simp add: quiet_def)
next
  case other
  then have "peek_obj t = peek_obj s" by (intro peek_cong) simp_all
  then show ?thesis using l by (simp add: loaded_def)
qed

lemma j_undirty_sel [sdb_simps]:
  "entries (j_undirty j e) = entries j" "validRevisions (j_undirty j e) = validRevisions j"
  "nextRevisionId (j_undirty j e) = nextRevisionId j"
  by (simp_all add: j_undirty_def Let_def split: option.split)

lemma sdb_ok_journal: "sdb_ok H (s\<lparr>sJournal := j\<rparr>) = sdb_ok H s"
  by (simp add: sdb_ok_def)

lemma loaded_journal: "loaded (s\<lparr>sJournal := j\<rparr>) b = loaded s b"
  by (simp add: loaded_def view_journal)

text \<open>\<open>reverted\<close>: what a completed run of the undo loop leaves as it was.\<close>

definition reverted :: "(bytes \<Rightarrow> hash) \<Rightarrow> StateDB \<Rightarrow> StateDB \<Rightarrow> bool" where
  "reverted H s t \<longleftrightarrow> sdb_ok H t \<and> entries (sJournal t) = entries (sJournal s)
     \<and> validRevisions (sJournal t) = validRevisions (sJournal s)
     \<and> nextRevisionId (sJournal t) = nextRevisionId (sJournal s)
     \<and> reader t = reader s \<and> stateObjectsDestruct t = stateObjectsDestruct s
     \<and> (\<forall>b. loaded s b \<longrightarrow> loaded t b)"

lemma je_revert_step:
  assumes "sdb_ok H s" and "created_fresh s" and "e \<in> set (entries (sJournal s))"
    and "vrevert H e (view s) = Some v"
  shows "\<exists>t. je_revert H e s = Some t \<and> view t = v
    \<and> reverted H s (t\<lparr>sJournal := j_undirty (sJournal t) e\<rparr>)"
proof -
  obtain t where t: "je_revert H e s = Some t" and v: "view t = v"
    using view_je_revert [OF assms(1), of e] assms(4) by auto
  have "reader t = reader s" "stateObjectsDestruct t = stateObjectsDestruct s"
    using vrevert_static [OF assms(4)] v by auto
  moreover have "loaded s b \<longrightarrow> loaded t b" for b
    using je_revert_loaded [OF assms(1) t, of b] assms(2,3) unfolding created_fresh_def by blast
  ultimately show ?thesis
    using t v je_revert_frame [OF assms(1) t]
    by (simp add: reverted_def sdb_simps sdb_ok_journal loaded_journal)
qed

lemma j_revert_loop_spec:
  assumes "sdb_ok H s" and "created_fresh s" and "k + n \<le> length (entries (sJournal s))"
    and "vunwind H (rev (take n (drop k (entries (sJournal s))))) (view s) = Some v"
  shows "\<exists>t. j_revert_loop H k n s = Some t \<and> view t = v \<and> reverted H s t"
  using assms
proof (induction n arbitrary: s)
  case 0
  then show ?case by (simp add: reverted_def)
next
  case (Suc n)
  let ?es = "entries (sJournal s)" and ?e = "entries (sJournal s) ! (k + n)"
  have lt: "k + n < length ?es" using Suc.prems(3) by simp
  have "rev (take (Suc n) (drop k ?es)) = ?e # rev (take n (drop k ?es))"
    using lt by (simp add: take_Suc_conv_app_nth)
  with Suc.prems(4) obtain v1 where v1: "vrevert H ?e (view s) = Some v1"
    and rest: "vunwind H (rev (take n (drop k ?es))) v1 = Some v" by (auto simp: bind_Some_iff)
  obtain t where t: "je_revert H ?e s = Some t" "view t = v1"
    and r: "reverted H s (t\<lparr>sJournal := j_undirty (sJournal t) ?e\<rparr>)"
    using je_revert_step [OF Suc.prems(1,2) _ v1] lt by auto
  let ?u = "t\<lparr>sJournal := j_undirty (sJournal t) ?e\<rparr>"
  have "created_fresh ?u" using Suc.prems(2) r by (simp add: created_fresh_def reverted_def)
  then obtain w where "j_revert_loop H k n ?u = Some w" "view w = v" "reverted H ?u w"
    using Suc.IH [of ?u] Suc.prems(3) rest r t(2) by (auto simp: reverted_def view_journal)
  with t(1) r lt show ?case by (auto simp: go_simps reverted_def)
qed

lemma j_revert_spec:
  assumes "sinv H s" and "k \<le> length (entries (sJournal s))" and "hist H s k = Some v"
  shows "\<exists>t. j_revert H k s = Some t \<and> view t = v \<and> sdb_ok H t
    \<and> entries (sJournal t) = take k (entries (sJournal s))
    \<and> validRevisions (sJournal t) = validRevisions (sJournal s)
    \<and> nextRevisionId (sJournal t) = nextRevisionId (sJournal s)
    \<and> reader t = reader s \<and> stateObjectsDestruct t = stateObjectsDestruct s
    \<and> (\<forall>b. loaded s b \<longrightarrow> loaded t b)"
proof -
  let ?n = "length (entries (sJournal s)) - k"
  have "take ?n (drop k (entries (sJournal s))) = drop k (entries (sJournal s))" by simp
  then obtain t where "j_revert_loop H k ?n s = Some t" "view t = v" "reverted H s t"
    using j_revert_loop_spec [OF sinvD(1,3) [OF assms(1)], of k ?n] assms(2,3) by (auto simp: hist_def)
  with assms(2) show ?thesis
    by (auto simp: j_revert_def go_simps reverted_def view_journal sdb_ok_journal loaded_journal)
qed

section \<open>Finding the revision\<close>

lemma sort_Search_spec:
  assumes "i \<le> j" and "\<And>a b. a \<le> b \<Longrightarrow> b < n \<Longrightarrow> f a \<Longrightarrow> f b"
    and "\<And>a. a < i \<Longrightarrow> \<not> f a" and "\<And>a. j \<le> a \<Longrightarrow> a < n \<Longrightarrow> f a" and "j \<le> n"
  shows "sort_Search i j f \<le> n \<and> (\<forall>a < sort_Search i j f. \<not> f a) \<and>
    (sort_Search i j f < n \<longrightarrow> f (sort_Search i j f))"
  using assms
proof (induction i j f rule: sort_Search.induct)
  case (1 i j f)
  let ?h = "(i + j) div 2"
  show ?case
  proof (cases "i < j")
    case True
    then have h: "i \<le> ?h" "?h < j" by auto
    show ?thesis
    proof (cases "f ?h")
      case f: True
      have "\<And>a. ?h \<le> a \<Longrightarrow> a < n \<Longrightarrow> f a" using f "1.prems"(2) by blast
      then have "sort_Search i ?h f \<le> n \<and> (\<forall>a < sort_Search i ?h f. \<not> f a) \<and>
          (sort_Search i ?h f < n \<longrightarrow> f (sort_Search i ?h f))"
        using h "1.prems"(5) by (intro "1.IH"(2) [OF True refl _ _ "1.prems"(2,3)]) (simp_all add: f)
      moreover have "sort_Search i j f = sort_Search i ?h f"
        using True f by (subst sort_Search.simps) (simp add: Let_def)
      ultimately show ?thesis by simp
    next
      case f: False
      have "?h < n" using h(2) "1.prems"(5) by simp
      then have "\<And>a. a < ?h + 1 \<Longrightarrow> \<not> f a"
        using f "1.prems"(2) by (metis less_Suc_eq_le Suc_eq_plus1)
      then have "sort_Search (?h + 1) j f \<le> n \<and> (\<forall>a < sort_Search (?h + 1) j f. \<not> f a) \<and>
          (sort_Search (?h + 1) j f < n \<longrightarrow> f (sort_Search (?h + 1) j f))"
        using h by (intro "1.IH"(1) [OF True refl f _ "1.prems"(2) _ "1.prems"(4,5)]) simp_all
      moreover have "sort_Search i j f = sort_Search (?h + 1) j f"
        using True f by (subst sort_Search.simps) (simp add: Let_def)
      ultimately show ?thesis by simp
    qed
  next
    case False
    then have "sort_Search i j f = i" by (subst sort_Search.simps) simp
    with False "1.prems" show ?thesis by auto
  qed
qed

lemma vunwind_append: "vunwind H (xs @ ys) v = Option.bind (vunwind H xs v) (vunwind H ys)"
proof (induction xs arbitrary: v)
  case (Cons e xs)
  then show ?case by (cases "vrevert H e v") simp_all
qed simp

lemma hist_take:
  assumes "hist H s k = Some (view t)" and "entries (sJournal t) = take k (entries (sJournal s))"
    and "j \<le> k" and "k \<le> length (entries (sJournal s))"
  shows "hist H t j = hist H s j"
proof -
  let ?es = "entries (sJournal s)"
  have "drop j ?es = drop j (take k ?es @ drop k ?es)" by simp
  also have "\<dots> = drop j (take k ?es) @ drop k ?es"
    using assms(3,4) by (simp only: drop_append length_take) simp
  finally show ?thesis using assms(1,2) by (simp add: hist_def vunwind_append)
qed

lemma RevertToSnapshot_spec:
  assumes inv: "sinv H s" and i: "i < length (validRevisions (sJournal s))"
  defines "r \<equiv> validRevisions (sJournal s) ! i"
  shows "\<exists>t. RevertToSnapshot H s (rid r) = Some t \<and> hist H s (journalIndex r) = Some (view t)
    \<and> entries (sJournal t) = take (journalIndex r) (entries (sJournal s))
    \<and> validRevisions (sJournal t) = take i (validRevisions (sJournal s))
    \<and> nextRevisionId (sJournal t) = nextRevisionId (sJournal s)
    \<and> sinv H t \<and> (\<forall>b. loaded s b \<longrightarrow> loaded t b)"
proof -
  let ?revs = "validRevisions (sJournal s)" and ?es = "entries (sJournal s)"
  let ?f = "\<lambda>j. rid (?revs ! j) \<ge> rid r"
  have sorted: "sorted_wrt (\<lambda>r r'. rid r < rid r' \<and> journalIndex r \<le> journalIndex r') ?revs"
    and k: "journalIndex r \<le> length ?es"
    using sinvD(4) [OF inv] i by (auto simp: revs_ok_def r_def)
  have lt: "rid (?revs ! a) < rid (?revs ! b)" if "a < b" "b < length ?revs" for a b
    using sorted_wrt_nth_less [OF sorted that] by simp
  have mono: "?f b" if "a \<le> b" "b < length ?revs" "?f a" for a b
    using lt [of a b] that by (cases "a = b") auto
  define idx where "idx = sort_Search 0 (length ?revs) ?f"
  have "idx \<le> length ?revs \<and> (\<forall>a < idx. \<not> ?f a) \<and> (idx < length ?revs \<longrightarrow> ?f idx)"
    unfolding idx_def by (rule sort_Search_spec) (use mono in auto)
  then have "idx = i"
    using i lt [of idx i] by (metis r_def leD le_refl linorder_neqE_nat)
  then have idx: "sort_Search 0 (length ?revs) ?f = i" by (simp add: idx_def)
  obtain v where v: "hist H s (journalIndex r) = Some v"
    using sinvD(2) [OF inv] k by (auto simp: hist_ok_def)
  obtain t where t: "j_revert H (journalIndex r) s = Some t" "view t = v" "sdb_ok H t"
    "entries (sJournal t) = take (journalIndex r) ?es" "validRevisions (sJournal t) = ?revs"
    "nextRevisionId (sJournal t) = nextRevisionId (sJournal s)"
    "reader t = reader s" "stateObjectsDestruct t = stateObjectsDestruct s" "\<forall>b. loaded s b \<longrightarrow> loaded t b"
    using j_revert_spec [OF inv k v] by auto
  define u where "u = t\<lparr>sJournal := (sJournal t)\<lparr>validRevisions := take i ?revs\<rparr>\<rparr>"
  have res: "RevertToSnapshot H s (rid r) = Some u"
    using i idx t(1) by (simp add: RevertToSnapshot_def u_def t(5) flip: r_def)
  have vu: "view u = v" using t(2) by (simp add: u_def view_journal)
  have eu: "entries (sJournal u) = take (journalIndex r) ?es" by (simp add: u_def t(4))
  have hu: "hist H u j = hist H s j" if "j \<le> journalIndex r" for j
    using hist_take [OF _ eu that k] v vu by simp
  have "hist_ok H u"
    using sinvD(2) [OF inv] k by (auto simp: hist_ok_def eu hu)
  moreover have "created_fresh u"
    using sinvD(3) [OF inv] in_set_takeD [of _ "journalIndex r" ?es]
    by (simp add: created_fresh_def eu) (simp add: u_def t)
  moreover have "revs_ok u" unfolding revs_ok_def
  proof (intro conjI ballI)
    have "sorted_wrt (\<lambda>r r'. rid r < rid r' \<and> journalIndex r \<le> journalIndex r') (take i ?revs)"
      using sorted by (rule sorted_wrt_take)
    then show "sorted_wrt (\<lambda>r r'. rid r < rid r' \<and> journalIndex r \<le> journalIndex r') (validRevisions (sJournal u))"
      by (simp add: u_def)
    fix x assume "x \<in> set (validRevisions (sJournal u))"
    then obtain a where a: "a < i" "x = ?revs ! a" by (auto simp: u_def in_set_conv_nth)
    then have "x \<in> set ?revs" using i by simp
    then show "rid x < nextRevisionId (sJournal u)"
      using sinvD(4) [OF inv] by (simp add: revs_ok_def u_def t(6))
    have "journalIndex x \<le> journalIndex r"
      using sorted_wrt_nth_less [OF sorted a(1) i] by (simp add: a(2) r_def)
    then show "journalIndex x \<le> length (entries (sJournal u))" using k by (simp add: eu)
  qed
  ultimately have "sinv H u" using t(3) by (simp add: sinv_def u_def sdb_ok_journal)
  then show ?thesis using res v t(6,9) by (auto simp: vu eu) (simp_all add: u_def loaded_journal)
qed

end
