(* ===== verification/State_Snapshots.thy ===== *)
theory State_Snapshots
  imports State_Journal
begin

text \<open>
  The contract of snapshots as an interface, which the EVM relies on, and its implementation by the
  journal. The interface knows a state only through its observable world and through \<open>evolve\<close>, the
  changes a client can make between taking a snapshot and reverting to it.
\<close>

locale snapshots =
  fixes inv :: "'s \<Rightarrow> bool"
    and world :: "'s \<Rightarrow> 'w"
    and evolve :: "'s \<Rightarrow> 's \<Rightarrow> bool"
    and snap :: "'s \<Rightarrow> nat \<times> 's"
    and rollback :: "'s \<Rightarrow> nat \<Rightarrow> 's option"
  assumes evolve_refl: "inv s \<Longrightarrow> evolve s s"
    and evolve_trans: "evolve s t \<Longrightarrow> evolve t u \<Longrightarrow> evolve s u"
    and evolve_inv: "evolve s t \<Longrightarrow> inv t"
    and snap_evolve: "inv s \<Longrightarrow> snap s = (i, t) \<Longrightarrow> evolve s t \<and> world t = world s"
    and rollback_snap: "inv s \<Longrightarrow> snap s = (i, t) \<Longrightarrow> evolve t u \<Longrightarrow>
      \<exists>r. rollback u i = Some r \<and> world r = world s \<and> evolve s r"
begin

text \<open>
  A bracketed piece of work: take a snapshot, run the body, and roll back if it failed. Whatever
  the body did, the outcome is an evolution of the start, and a failure leaves the world as it was.
\<close>

lemma bracket:
  assumes "inv s" and "snap s = (i, t)" and "evolve t u"
  shows "\<exists>r. (if failed then rollback u i else Some u) = Some r \<and> evolve s r
    \<and> (failed \<longrightarrow> world r = world s)"
proof (cases failed)
  case True
  then show ?thesis using rollback_snap [OF assms] by auto
next
  case False
  have "evolve s t" using snap_evolve [OF assms(1,2)] by simp
  then show ?thesis using False evolve_trans [OF _ assms(3)] by simp
qed

text \<open>Nested brackets: an inner one is a possible body of an outer one.\<close>

lemma bracket_nested:
  assumes "inv s" and "snap s = (i, t)" and "evolve t u" and "snap u = (j, u')" and "evolve u' x"
  shows "\<exists>r r'. rollback x j = Some r' \<and> world r' = world u \<and> rollback r' i = Some r \<and> world r = world s"
proof -
  have u: "inv u" using evolve_inv [OF assms(3)] .
  obtain r' where r': "rollback x j = Some r'" "world r' = world u" "evolve u r'"
    using rollback_snap [OF u assms(4,5)] by blast
  obtain r where "rollback r' i = Some r" "world r = world s"
    using rollback_snap [OF assms(1,2) evolve_trans [OF assms(3) r'(3)]] by blast
  with r' show ?thesis by blast
qed

end

lemma evolves_RevertToSnapshot:
  assumes "sinv H s" and "Snapshot s = (i, t)" and "evolves H t u"
  shows "\<exists>r. RevertToSnapshot H u i = Some r \<and> view r = view s \<and> evolves H s r
    \<and> entries (sJournal r) = entries (sJournal s)
    \<and> validRevisions (sJournal r) = validRevisions (sJournal s)"
proof -
  let ?n = "length (validRevisions (sJournal s))" and ?l = "length (entries (sJournal s))"
  have t: "validRevisions (sJournal t) = validRevisions (sJournal s) @ [\<lparr>rid = i, journalIndex = ?l\<rparr>]"
    "entries (sJournal t) = entries (sJournal s)" "nextRevisionId (sJournal s) \<le> nextRevisionId (sJournal t)"
    using assms(2) by (auto simp: Snapshot_def j_snapshot_def Let_def)
  have st: "evolves H s t" and vt: "view t = view s"
    using evolves_Snapshot [OF assms(1,2)] by auto
  obtain es rs where u: "entries (sJournal u) = entries (sJournal s) @ es"
    "validRevisions (sJournal u) = validRevisions (sJournal s) @ \<lparr>rid = i, journalIndex = ?l\<rparr> # rs"
    using assms(3) t by (auto simp: evolves_def)
  have nr: "nextRevisionId (sJournal s) \<le> nextRevisionId (sJournal u)"
    using assms(3) t(3) by (simp add: evolves_def)
  have at: "validRevisions (sJournal u) ! ?n = \<lparr>rid = i, journalIndex = ?l\<rparr>"
    by (simp add: u(2))
  obtain r where r: "RevertToSnapshot H u i = Some r" "hist H u ?l = Some (view r)"
    "entries (sJournal r) = take ?l (entries (sJournal u))"
    "validRevisions (sJournal r) = take ?n (validRevisions (sJournal u))"
    "nextRevisionId (sJournal r) = nextRevisionId (sJournal u)"
    "sinv H r" "\<forall>b. loaded u b \<longrightarrow> loaded r b"
    using RevertToSnapshot_spec [OF evolves_sinv [OF assms(3)], of ?n] by (auto simp: at u(2))
  have hist: "hist H u k = hist H s k" if "k \<le> ?l" for k
    using evolves_trans [OF st assms(3)] that by (simp add: evolves_def)
  have v: "view r = view s" using r(2) hist [of ?l] by simp
  have er: "entries (sJournal r) = entries (sJournal s)" by (simp add: r(3) u(1))
  have vr: "validRevisions (sJournal r) = validRevisions (sJournal s)" by (simp add: r(4) u(2))
  have "hist H r k = hist H s k" for k by (simp add: hist_def er v)
  moreover have "\<forall>a. loaded s a \<longrightarrow> loaded r a"
    using r(7) evolves_loaded [OF evolves_trans [OF st assms(3)]] by blast
  ultimately have "evolves H s r"
    using r(5,6) nr by (simp add: evolves_def er vr)
  with r(1) v er vr show ?thesis by blast
qed

interpretation sdb: snapshots "sinv H" view "evolves H" Snapshot "RevertToSnapshot H" for H
proof
  show "evolves H s t \<and> view t = view s" if "sinv H s" "Snapshot s = (i, t)" for s t i
    using evolves_Snapshot [OF that] by simp
  show "\<exists>r. RevertToSnapshot H u i = Some r \<and> view r = view s \<and> evolves H s r"
    if "sinv H s" "Snapshot s = (i, t)" "evolves H t u" for s t u i
    using evolves_RevertToSnapshot [OF that] by blast
qed (fact evolves_refl evolves_trans evolves_sinv)+

end
