(* ===== verification/State_Ops.thy ===== *)
theory State_Ops
  imports State_Snapshots
begin

text \<open>
  Every reader and writer of the state database against the abstract world: a reader returns what
  the view holds and only fills caches (\<open>quiet\<close>); a writer changes the view as stated and is an
  evolution that takes no snapshot (\<open>mutates\<close>).
\<close>

section \<open>Readers\<close>

definition vBal :: "sview \<Rightarrow> address \<Rightarrow> u256" where
  "vBal v a = (case vAccounts v a of None \<Rightarrow> 0 | Some w \<Rightarrow> Balance (avData w))"

definition vNonceAt :: "sview \<Rightarrow> address \<Rightarrow> u64" where
  "vNonceAt v a = (case vAccounts v a of None \<Rightarrow> 0 | Some w \<Rightarrow> Nonce (avData w))"

definition vRootAt :: "sview \<Rightarrow> address \<Rightarrow> hash" where
  "vRootAt v a = (case vAccounts v a of None \<Rightarrow> 0 | Some w \<Rightarrow> Root (avData w))"

definition vCodeHashAt :: "sview \<Rightarrow> address \<Rightarrow> hash" where
  "vCodeHashAt v a = (case vAccounts v a of None \<Rightarrow> 0 | Some w \<Rightarrow> aCodeHash (avData w))"

definition vCodeAt :: "sview \<Rightarrow> address \<Rightarrow> bytes" where
  "vCodeAt v a = (case vAccounts v a of None \<Rightarrow> [] | Some w \<Rightarrow> avCode w)"

definition vStateAt :: "sview \<Rightarrow> address \<Rightarrow> hash \<Rightarrow> hash" where
  "vStateAt v a key = (case vAccounts v a of None \<Rightarrow> 0 | Some w \<Rightarrow> avState w key)"

definition vCommittedAt :: "sview \<Rightarrow> address \<Rightarrow> hash \<Rightarrow> hash" where
  "vCommittedAt v a key = (case vAccounts v a of None \<Rightarrow> 0 | Some w \<Rightarrow> avCommitted w key)"

definition vEmptyAt :: "sview \<Rightarrow> address \<Rightarrow> bool" where
  "vEmptyAt v a = (case vAccounts v a of None \<Rightarrow> True
     | Some w \<Rightarrow> Nonce (avData w) = 0 \<and> Balance (avData w) = 0 \<and> aCodeHash (avData w) = EmptyCodeHash)"

definition vDestructedAt :: "sview \<Rightarrow> address \<Rightarrow> bool" where
  "vDestructedAt v a = (case vAccounts v a of None \<Rightarrow> False | Some w \<Rightarrow> avSelfDestructed w)"

lemmas vget_defs = vBal_def vNonceAt_def vRootAt_def vCodeHashAt_def vCodeAt_def vStateAt_def
  vCommittedAt_def vEmptyAt_def vDestructedAt_def

text \<open>A reader that only looks at the object.\<close>

lemma getStateObject_spec:
  "\<exists>t. getStateObject s a = (peek_obj s a, t) \<and> quiet H s t \<and> peek_obj t = peek_obj s
     \<and> reader t = reader s \<and> stateObjectsDestruct t = stateObjectsDestruct s"
  using getStateObject_eq [of s a] getStateObject_quiet [of H s a] getStateObject_peek [of s a]
    quiet_static [OF getStateObject_quiet [of H s a]] by metis

lemma Exist_spec: "\<exists>t. Exist s a = (vAccounts (view s) a \<noteq> None, t) \<and> quiet H s t"
  using getStateObject_spec [of s a H] by (auto simp: Exist_def)

lemma Empty_spec: "\<exists>t. Empty s a = (vEmptyAt (view s) a, t) \<and> quiet H s t"
  using getStateObject_spec [of s a H]
  by (auto simp: Empty_def vget_defs so_empty_def split: option.splits)

lemma GetBalance_spec: "\<exists>t. GetBalance s a = (vBal (view s) a, t) \<and> quiet H s t"
  using getStateObject_spec [of s a H] by (auto simp: GetBalance_def vget_defs split: option.splits)

lemma GetNonce_spec: "\<exists>t. GetNonce s a = (vNonceAt (view s) a, t) \<and> quiet H s t"
  using getStateObject_spec [of s a H] by (auto simp: GetNonce_def vget_defs split: option.splits)

lemma GetStorageRoot_spec: "\<exists>t. GetStorageRoot s a = (vRootAt (view s) a, t) \<and> quiet H s t"
  using getStateObject_spec [of s a H] by (auto simp: GetStorageRoot_def vget_defs split: option.splits)

lemma GetCodeHash_spec: "\<exists>t. GetCodeHash s a = (vCodeHashAt (view s) a, t) \<and> quiet H s t"
  using getStateObject_spec [of s a H] by (auto simp: GetCodeHash_def vget_defs split: option.splits)

lemma HasSelfDestructed_spec: "\<exists>t. HasSelfDestructed s a = (vDestructedAt (view s) a, t) \<and> quiet H s t"
  using getStateObject_spec [of s a H] by (auto simp: HasSelfDestructed_def vget_defs split: option.splits)

text \<open>Readers that look into the object's caches.\<close>

lemma peek_own: "sdb_ok H s \<Longrightarrow> peek_obj s a = Some obj \<Longrightarrow> peek_obj s (oAddress obj) = Some obj"
  using peek_obj_ok obj_ok_address by fastforce

lemma GetCode_spec:
  assumes "sdb_ok H s"
  shows "\<exists>t. GetCode s a = (vCodeAt (view s) a, t) \<and> quiet H s t"
proof -
  obtain t where t: "getStateObject s a = (peek_obj s a, t)" "quiet H s t" "peek_obj t = peek_obj s"
    "reader t = reader s" using getStateObject_spec [of s a H] by auto
  show ?thesis
  proof (cases "peek_obj s a")
    case None
    with t show ?thesis by (simp add: GetCode_def vget_defs)
  next
    case (Some obj)
    have ok: "sdb_ok H t" using t(2) assms by (simp add: quiet_def)
    obtain u where "so_Code t obj = (code_of (reader t) obj, u)" "quiet H t u"
      using so_Code_spec [OF peek_own [OF ok] ok] Some t(3) by metis
    with Some t quiet_trans show ?thesis by (auto simp: GetCode_def vget_defs)
  qed
qed

lemma GetCodeSize_spec:
  assumes "sdb_ok H s"
  shows "\<exists>t. GetCodeSize s a = (length (vCodeAt (view s) a), t) \<and> quiet H s t"
proof -
  obtain t where t: "getStateObject s a = (peek_obj s a, t)" "quiet H s t" "peek_obj t = peek_obj s"
    "reader t = reader s" using getStateObject_spec [of s a H] by auto
  show ?thesis
  proof (cases "peek_obj s a")
    case None
    with t show ?thesis by (simp add: GetCodeSize_def vget_defs)
  next
    case (Some obj)
    have ok: "sdb_ok H t" using t(2) assms by (simp add: quiet_def)
    obtain u where "so_CodeSize t obj = (length (code_of (reader t) obj), u)" "quiet H t u"
      using so_CodeSize_spec [OF ok] by metis
    with Some t quiet_trans show ?thesis by (auto simp: GetCodeSize_def vget_defs)
  qed
qed

lemma GetState_spec:
  assumes "sdb_ok H s"
  shows "\<exists>t. GetState s a key = (vStateAt (view s) a key, t) \<and> quiet H s t"
proof -
  obtain t where t: "getStateObject s a = (peek_obj s a, t)" "quiet H s t" "peek_obj t = peek_obj s"
    "reader t = reader s" "stateObjectsDestruct t = stateObjectsDestruct s"
    using getStateObject_spec [of s a H] by auto
  show ?thesis
  proof (cases "peek_obj s a")
    case None
    with t show ?thesis by (simp add: GetState_def vget_defs)
  next
    case (Some obj)
    have ok: "sdb_ok H t" using t(2) assms by (simp add: quiet_def)
    obtain obj' u where g: "so_getState t obj key = (avState (ov t obj) key,
        committed_of (reader t) (stateObjectsDestruct t) obj key, obj', u)" "caches H t obj u obj'"
      using so_getState_spec [OF peek_own [OF ok] ok] Some t(3) by metis
    then have "quiet H s u" using t(2) quiet_trans by (auto simp: caches_def)
    with Some t g show ?thesis by (simp add: GetState_def vget_defs)
  qed
qed

lemma GetCommittedState_spec:
  assumes "sdb_ok H s"
  shows "\<exists>t. GetCommittedState s a key = (vCommittedAt (view s) a key, t) \<and> quiet H s t"
proof -
  obtain t where t: "getStateObject s a = (peek_obj s a, t)" "quiet H s t" "peek_obj t = peek_obj s"
    "reader t = reader s" "stateObjectsDestruct t = stateObjectsDestruct s"
    using getStateObject_spec [of s a H] by auto
  show ?thesis
  proof (cases "peek_obj s a")
    case None
    with t show ?thesis by (simp add: GetCommittedState_def vget_defs)
  next
    case (Some obj)
    have ok: "sdb_ok H t" using t(2) assms by (simp add: quiet_def)
    obtain obj' u where g: "so_GetCommittedState t obj key =
        (committed_of (reader t) (stateObjectsDestruct t) obj key, obj', u)" "caches H t obj u obj'"
      using so_GetCommittedState_spec [OF peek_own [OF ok] ok] Some t(3) by metis
    then have "quiet H s u" using t(2) quiet_trans by (auto simp: caches_def)
    with Some t g show ?thesis by (simp add: GetCommittedState_def vget_defs)
  qed
qed

section \<open>Writers\<close>

definition mutates :: "(bytes \<Rightarrow> hash) \<Rightarrow> StateDB \<Rightarrow> StateDB \<Rightarrow> bool" where
  "mutates H s t \<longleftrightarrow> evolves H s t \<and> validRevisions (sJournal t) = validRevisions (sJournal s)
     \<and> nextRevisionId (sJournal t) = nextRevisionId (sJournal s)"

lemma mutates_refl: "sinv H s \<Longrightarrow> mutates H s s"
  by (simp add: mutates_def evolves_refl)

lemma mutates_trans: "mutates H s t \<Longrightarrow> mutates H t u \<Longrightarrow> mutates H s u"
  using evolves_trans by (auto simp: mutates_def)

lemma mutates_quiet: "sinv H s \<Longrightarrow> quiet H s t \<Longrightarrow> mutates H s t"
  using evolves_quiet by (auto simp: mutates_def quiet_def)

lemma mutates_logged: "sinv H s \<Longrightarrow> logged H e s t \<Longrightarrow> mutates H s t"
  using evolves_logged by (auto simp: mutates_def logged_def)

lemma mutates_sinv: "mutates H s t \<Longrightarrow> sinv H t"
  by (simp add: mutates_def evolves_def)

lemma mutates_evolves: "mutates H s t \<Longrightarrow> evolves H s t"
  by (simp add: mutates_def)

lemma mutates_static:
  "mutates H s t \<Longrightarrow> reader t = reader s" "mutates H s t \<Longrightarrow> stateObjectsDestruct t = stateObjectsDestruct s"
  using evolves_static by (auto simp: mutates_def)

lemma v_modify_undo:
  "vAccounts v a = Some w \<Longrightarrow> f w' = w \<Longrightarrow> v_modify a f (v_set a (Some w') v) = Some v"
  by (simp add: v_modify_def)

lemma sAccessList_setStateObject [sdb_simps]:
  "sAccessList (setStateObject s obj) = sAccessList s" "sAccessList (journal_append s e) = sAccessList s"
  by (simp_all add: setStateObject_def journal_append_def)

lemma mutates_obj:
  assumes inv: "sinv H s" and obj: "peek_obj s a = Some obj" and a: "oAddress obj' = a"
    and ok: "obj_ok H a obj'"
    and l: "ocode obj \<noteq> [] \<or> aCodeHash (data obj) = EmptyCodeHash \<Longrightarrow>
            ocode obj' \<noteq> [] \<or> aCodeHash (data obj') = EmptyCodeHash"
    and undo: "vrevert H e (v_set a (Some (ov s obj')) (view s)) = Some (view s)"
    and e: "\<And>b. e \<noteq> createObjectChange b"
  shows "mutates H s (setStateObject (journal_append s e) obj')"
    and "view (setStateObject (journal_append s e) obj') = v_set a (Some (ov s obj')) (view s)"
proof -
  let ?t = "setStateObject (journal_append s e) obj'"
  show v: "view ?t = v_set a (Some (ov s obj')) (view s)" by (simp add: sdb_simps a)
  have "sdb_ok H (journal_append s e)" using sinvD(1) [OF inv] by (simp add: sdb_ok_def sdb_simps)
  then have "sdb_ok H ?t" using ok a by (simp add: sdb_ok_setStateObject)
  moreover have "\<forall>b. loaded s b \<longrightarrow> loaded ?t b"
    using obj a l by (auto simp: loaded_def sdb_simps)
  ultimately have "logged H e s ?t"
    using e undo sinv_vwf [OF inv] v by (auto simp: logged_def sdb_simps)
  then show "mutates H s ?t" using mutates_logged [OF inv] by blast
qed

definition v_ensure :: "address \<Rightarrow> sview \<Rightarrow> sview" where
  "v_ensure a v = (if vAccounts v a = None then v_set a (Some (fresh_view v a)) v else v)"

definition v_acct :: "address \<Rightarrow> sview \<Rightarrow> aview" where
  "v_acct a v = (case vAccounts v a of None \<Rightarrow> fresh_view v a | Some w \<Rightarrow> w)"

lemma v_ensure_acct: "vAccounts (v_ensure a v) a = Some (v_acct a v)"
  by (auto simp: v_ensure_def v_acct_def)

lemma createObject_spec:
  assumes inv: "sinv H s" and none: "peek_obj s a = None"
  shows "mutates H s (snd (createObject s a))"
    and "view (snd (createObject s a)) = v_set a (Some (fresh_view (view s) a)) (view s)"
    and "fst (createObject s a) = newObject a None"
    and "peek_obj (snd (createObject s a)) a = Some (newObject a None)"
proof -
  let ?o = "newObject a None" and ?e = "createObjectChange a"
  let ?t = "setStateObject (journal_append s ?e) ?o"
  have c: "createObject s a = (?o, ?t)" by (simp add: createObject_def Let_def)
  have oa: "oAddress ?o = a" by (simp add: newObject_def)
  show v: "view (snd (createObject s a)) = v_set a (Some (fresh_view (view s) a)) (view s)"
    by (simp add: c sdb_simps oa fresh_view_def)
  have base: "base_obj (reader s) (stateObjectsDestruct s) a = None"
    using none by (auto simp: peek_obj_def split: option.splits)
  have undo: "vrevert H ?e (view ?t) = Some (view s)"
    using v none base by (simp add: c base_view_def)
  have "sdb_ok H (journal_append s ?e)" using sinvD(1) [OF inv] by (simp add: sdb_ok_def sdb_simps)
  then have "sdb_ok H ?t" by (rule sdb_ok_setStateObject) (simp add: obj_ok_def newObject_def)
  moreover have "\<forall>b. loaded s b \<longrightarrow> loaded ?t b"
    by (auto simp: loaded_def sdb_simps newObject_def NewEmptyStateAccount_def)
  ultimately have "logged H ?e s ?t"
    using base undo sinv_vwf [OF inv] by (simp add: logged_def sdb_simps)
  then show "mutates H s (snd (createObject s a))" using mutates_logged [OF inv] by (simp add: c)
  show "fst (createObject s a) = ?o" "peek_obj (snd (createObject s a)) a = Some ?o"
    by (simp_all add: c sdb_simps oa)
qed

lemma getOrNewStateObject_spec:
  assumes inv: "sinv H s"
  shows "\<exists>obj t. getOrNewStateObject s a = (obj, t) \<and> mutates H s t \<and> view t = v_ensure a (view s)
    \<and> peek_obj t a = Some obj \<and> oAddress obj = a \<and> obj_ok H a obj \<and> ov t obj = v_acct a (view s)"
proof -
  obtain t where t: "getStateObject s a = (peek_obj s a, t)" "quiet H s t" "peek_obj t = peek_obj s"
    "reader t = reader s" "stateObjectsDestruct t = stateObjectsDestruct s"
    using getStateObject_spec [of s a H] by auto
  have mt: "mutates H s t" and vt: "view t = view s"
    using mutates_quiet [OF inv t(2)] t(2) by (auto simp: quiet_def)
  have it: "sinv H t" using mutates_sinv [OF mt] .
  show ?thesis
  proof (cases "peek_obj s a")
    case None
    note c = createObject_spec [OF it, of a, unfolded t(3), OF None]
    let ?u = "snd (createObject t a)"
    have "createObject t a = (newObject a None, ?u)" using c(3) by (simp add: prod_eq_iff)
    then have "getOrNewStateObject s a = (newObject a None, ?u)"
      by (simp add: getOrNewStateObject_def t(1) None)
    moreover have "ov ?u (newObject a None) = v_acct a (view s)"
      using mutates_static [OF c(1)] t(4,5) None by (simp add: fresh_view_def v_acct_def)
    moreover have "view ?u = v_ensure a (view s)"
      using c(2) vt None by (simp add: v_ensure_def)
    moreover have "oAddress (newObject a None) = a" "obj_ok H a (newObject a None)"
      by (simp_all add: newObject_def obj_ok_def)
    ultimately show ?thesis using c(4) mutates_trans [OF mt c(1)] by blast
  next
    case (Some obj)
    then show ?thesis
      using t mt vt peek_obj_ok [OF sinvD(1) [OF inv] Some]
      by (simp add: getOrNewStateObject_def v_ensure_def v_acct_def obj_ok_def)
  qed
qed

definition v_upd :: "address \<Rightarrow> (aview \<Rightarrow> aview) \<Rightarrow> sview \<Rightarrow> sview" where
  "v_upd a f v = v_set a (Some (f (v_acct a v))) v"

lemma v_set_ensure [simp]: "v_set a w (v_ensure a v) = v_set a w v"
  by (simp add: v_ensure_def)

lemma v_upd_id: "f (v_acct a v) = v_acct a v \<Longrightarrow> v_upd a f v = v_ensure a v"
  by (auto simp: v_upd_def v_ensure_def v_acct_def split: option.splits)

text \<open>
  The common pattern of a setter: get or create the object, journal the old value, write the new one.
\<close>

lemma mutates_setter:
  assumes inv: "sinv H s"
    and addr: "\<And>obj. oAddress (f obj) = oAddress obj"
    and code: "\<And>obj. ocode (f obj) = ocode obj \<and> aCodeHash (data (f obj)) = aCodeHash (data obj)"
    and g: "\<And>t obj. ov t (f obj) = g (ov t obj)"
    and e: "\<And>t obj b. oAddress obj = a \<Longrightarrow> e obj \<noteq> createObjectChange b
       \<and> (\<exists>h. (\<forall>v. vrevert H (e obj) v = v_modify a h v) \<and> h (g (ov t obj)) = ov t obj)"
  shows "mutates H s (let (obj, t) = getOrNewStateObject s a in setStateObject (journal_append t (e obj)) (f obj))"
    and "view (let (obj, t) = getOrNewStateObject s a in setStateObject (journal_append t (e obj)) (f obj))
       = v_upd a g (view s)"
proof -
  obtain obj t where t: "getOrNewStateObject s a = (obj, t)" "mutates H s t" "view t = v_ensure a (view s)"
    "peek_obj t a = Some obj" "oAddress obj = a" "obj_ok H a obj" "ov t obj = v_acct a (view s)"
    using getOrNewStateObject_spec [OF inv, of a] by blast
  have e1: "\<And>b. e obj \<noteq> createObjectChange b" using e [OF t(5)] by blast
  obtain h where h: "\<forall>v. vrevert H (e obj) v = v_modify a h v" "h (g (ov t obj)) = ov t obj"
    using e [OF t(5)] by blast
  have undo: "vrevert H (e obj) (v_set a (Some (ov t (f obj))) (view t)) = Some (view t)"
    using h v_modify_undo [of "view t" a "ov t obj" h] by (simp add: t(4) g)
  have "obj_ok H a (f obj)" using t(6) addr code by (simp add: obj_ok_def)
  with mutates_obj [OF mutates_sinv [OF t(2)] t(4), of "f obj" "e obj"] undo e1 addr code t(5)
  have m: "mutates H t (setStateObject (journal_append t (e obj)) (f obj))"
    and v: "view (setStateObject (journal_append t (e obj)) (f obj)) = v_set a (Some (ov t (f obj))) (view t)"
    by auto
  show "mutates H s (let (obj, t) = getOrNewStateObject s a in setStateObject (journal_append t (e obj)) (f obj))"
    using mutates_trans [OF t(2) m] by (simp add: t(1))
  show "view (let (obj, t) = getOrNewStateObject s a in setStateObject (journal_append t (e obj)) (f obj))
       = v_upd a g (view s)"
    by (simp add: t(1) v) (simp add: t(3,7) g v_upd_def)
qed

lemma SetNonce_spec:
  assumes "sinv H s"
  shows "mutates H s (SetNonce s a n)"
    and "view (SetNonce s a n) = v_upd a (avData_update (Nonce_update (\<lambda>_. n))) (view s)"
proof -
  note m = mutates_setter [OF assms, where f = "\<lambda>obj. so_setNonce obj n" and a = a
      and e = "\<lambda>obj. nonceChange (oAddress obj) (Nonce (data obj))"
      and g = "avData_update (Nonce_update (\<lambda>_. n))"]
  have eq: "SetNonce s a n = (let (obj, t) = getOrNewStateObject s a in
      setStateObject (journal_append t (nonceChange (oAddress obj) (Nonce (data obj)))) (so_setNonce obj n))"
    by (simp add: SetNonce_def so_SetNonce_def Let_def)
  have undo: "\<exists>h. (\<forall>v. vrevert H (nonceChange (oAddress obj) (Nonce (data obj))) v = v_modify a h v)
      \<and> h (avData_update (Nonce_update (\<lambda>_. n)) (ov t obj)) = ov t obj" if "oAddress obj = a" for t obj
    using that by (intro exI [of _ "avData_update (Nonce_update (\<lambda>_. Nonce (data obj)))"])
      (simp add: obj_view_def)
  show "mutates H s (SetNonce s a n)" unfolding eq
    by (rule m(1)) (auto simp: sdb_simps undo)
  show "view (SetNonce s a n) = v_upd a (avData_update (Nonce_update (\<lambda>_. n))) (view s)" unfolding eq
    by (rule m(2)) (auto simp: sdb_simps undo)
qed

lemma undo_balance:
  "oAddress obj = a \<Longrightarrow> \<exists>h. (\<forall>v. vrevert H (balanceChange (oAddress obj) (Balance (data obj))) v = v_modify a h v)
      \<and> h (avData_update (Balance_update (\<lambda>_. n)) (ov t obj)) = ov t obj"
  by (intro exI [of _ "avData_update (Balance_update (\<lambda>_. Balance (data obj)))"]) (simp add: obj_view_def)

lemma SetBalance_spec:
  assumes "sinv H s"
  shows "mutates H s (SetBalance s a n)"
    and "view (SetBalance s a n) = v_upd a (avData_update (Balance_update (\<lambda>_. n))) (view s)"
proof -
  note m = mutates_setter [OF assms, where f = "\<lambda>obj. so_setBalance obj n" and a = a
      and e = "\<lambda>obj. balanceChange (oAddress obj) (Balance (data obj))"
      and g = "avData_update (Balance_update (\<lambda>_. n))"]
  have eq: "SetBalance s a n = (let (obj, t) = getOrNewStateObject s a in
      setStateObject (journal_append t (balanceChange (oAddress obj) (Balance (data obj)))) (so_setBalance obj n))"
    by (simp add: SetBalance_def so_SetBalance_def Let_def case_prod_beta)
  show "mutates H s (SetBalance s a n)" unfolding eq
    by (rule m(1)) (auto simp: sdb_simps intro: undo_balance simp del: vrevert.simps)
  show "view (SetBalance s a n) = v_upd a (avData_update (Balance_update (\<lambda>_. n))) (view s)" unfolding eq
    by (rule m(2)) (auto simp: sdb_simps intro: undo_balance simp del: vrevert.simps)
qed

lemma so_touch_spec:
  assumes "sinv H s"
  shows "mutates H s (so_touch s obj)" and "view (so_touch s obj) = view s"
proof -
  let ?t = "so_touch s obj"
  have j: "entries (sJournal ?t) = entries (sJournal s) @ [touchChange (oAddress obj)]"
    "validRevisions (sJournal ?t) = validRevisions (sJournal s)"
    "nextRevisionId (sJournal ?t) = nextRevisionId (sJournal s)"
    by (simp_all add: so_touch_def j_touchChange_def j_append_def j_dirty_def Let_def)
  show v: "view ?t = view s" by (simp add: so_touch_def view_journal)
  have "logged H (touchChange (oAddress obj)) s ?t"
    using j v sinvD(1) [OF assms] sinv_vwf [OF assms]
    by (simp add: logged_def) (simp add: so_touch_def sdb_ok_journal loaded_journal)
  then show "mutates H s ?t" using mutates_logged [OF assms] by blast
qed

definition v_add_balance :: "address \<Rightarrow> u256 \<Rightarrow> sview \<Rightarrow> sview" where
  "v_add_balance a x = v_upd a (\<lambda>w. w\<lparr>avData := (avData w)\<lparr>Balance := Balance (avData w) + x\<rparr>\<rparr>)"

lemma v_add_balance_0: "v_add_balance a 0 v = v_ensure a v"
  by (simp add: v_add_balance_def v_upd_id)

lemma set_balance_by:
  fixes a :: address and x :: u256
  assumes "sinv H s"
  defines "u \<equiv> (let (obj, t) = getOrNewStateObject s a in
      setStateObject (journal_append t (balanceChange (oAddress obj) (Balance (data obj))))
        (so_setBalance obj (Balance (data obj) + x)))"
  shows "mutates H s u" and "view u = v_add_balance a x (view s)"
proof -
  note m = mutates_setter [OF assms(1), where f = "\<lambda>obj. so_setBalance obj (Balance (data obj) + x)" and a = a
      and e = "\<lambda>obj. balanceChange (oAddress obj) (Balance (data obj))"
      and g = "\<lambda>w. w\<lparr>avData := (avData w)\<lparr>Balance := Balance (avData w) + x\<rparr>\<rparr>"]
  have undo: "balanceChange (oAddress obj) (Balance (data obj)) \<noteq> createObjectChange b
      \<and> (\<exists>h. (\<forall>v. vrevert H (balanceChange (oAddress obj) (Balance (data obj))) v = v_modify a h v)
      \<and> h ((ov t obj)\<lparr>avData := (avData (ov t obj))\<lparr>Balance := Balance (avData (ov t obj)) + x\<rparr>\<rparr>) = ov t obj)"
    if "oAddress obj = a" for t obj b
    using that by (intro conjI exI [of _ "avData_update (Balance_update (\<lambda>_. Balance (data obj)))"])
      (simp_all add: obj_view_def)
  show "mutates H s u" unfolding u_def
    by (rule m(1) [OF _ _ _ undo]) (simp_all add: sdb_simps)
  show "view u = v_add_balance a x (view s)" unfolding u_def v_add_balance_def
    by (rule m(2) [OF _ _ _ undo]) (simp_all add: sdb_simps)
qed

lemma AddBalance_spec:
  assumes "sinv H s"
  shows "mutates H s (snd (AddBalance s a x))"
    and "view (snd (AddBalance s a x)) = v_add_balance a x (view s)"
proof -
  obtain obj t where t: "getOrNewStateObject s a = (obj, t)" "mutates H s t" "view t = v_ensure a (view s)"
    using getOrNewStateObject_spec [OF assms, of a] by blast
  have "mutates H s (snd (AddBalance s a x)) \<and> view (snd (AddBalance s a x)) = v_add_balance a x (view s)"
  proof (cases "x = 0")
    case True
    then show ?thesis
      using t so_touch_spec [OF mutates_sinv [OF t(2)], of obj] mutates_trans [OF t(2)]
      by (simp add: AddBalance_def so_AddBalance_def v_add_balance_0)
  next
    case False
    then show ?thesis
      using set_balance_by [OF assms, of a x]
      by (simp add: AddBalance_def so_AddBalance_def so_SetBalance_def Let_def t(1))
  qed
  then show "mutates H s (snd (AddBalance s a x))"
    "view (snd (AddBalance s a x)) = v_add_balance a x (view s)" by simp_all
qed

lemma SubBalance_spec:
  assumes "sinv H s"
  shows "mutates H s (snd (SubBalance s a x))"
    and "view (snd (SubBalance s a x)) = v_add_balance a (- x) (view s)"
proof -
  obtain obj t where t: "getOrNewStateObject s a = (obj, t)" "mutates H s t" "view t = v_ensure a (view s)"
    using getOrNewStateObject_spec [OF assms, of a] by blast
  have "mutates H s (snd (SubBalance s a x)) \<and> view (snd (SubBalance s a x)) = v_add_balance a (- x) (view s)"
  proof (cases "x = 0")
    case True
    then show ?thesis using t by (simp add: SubBalance_def v_add_balance_0)
  next
    case False
    then show ?thesis
      using set_balance_by [OF assms, of a "- x"]
      by (simp add: SubBalance_def so_SetBalance_def Let_def t(1))
  qed
  then show "mutates H s (snd (SubBalance s a x))"
    "view (snd (SubBalance s a x)) = v_add_balance a (- x) (view s)" by simp_all
qed

lemma SetCode_spec:
  assumes inv: "sinv H s" and l: "loaded s a"
  shows "mutates H s (snd (SetCode H s a code))"
    and "view (snd (SetCode H s a code)) =
      v_upd a (\<lambda>w. w\<lparr>avCode := code, avData := (avData w)\<lparr>aCodeHash := H code\<rparr>\<rparr>) (view s)"
proof -
  obtain obj t where t: "getOrNewStateObject s a = (obj, t)" "mutates H s t" "view t = v_ensure a (view s)"
    "peek_obj t a = Some obj" "oAddress obj = a" "obj_ok H a obj" "ov t obj = v_acct a (view s)"
    using getOrNewStateObject_spec [OF inv, of a] by blast
  have it: "sinv H t" using mutates_sinv [OF t(2)] .
  have h: "H [] = EmptyCodeHash" using sdb_okD(1) [OF sinvD(1) [OF inv]] by (simp add: hash_ok_def)
  have lt: "ocode obj \<noteq> [] \<or> aCodeHash (data obj) = EmptyCodeHash"
    using evolves_loaded [OF mutates_evolves [OF t(2)] l] t(4) by (simp add: loaded_def)
  then have prev: "H (ocode obj) = aCodeHash (data obj)" "code_of (reader t) obj = ocode obj"
    using t(6) h by (auto simp: obj_ok_def code_of_def)
  have ovn: "ov t (so_setCode obj (H code) code) =
      (ov t obj)\<lparr>avCode := code, avData := (data obj)\<lparr>aCodeHash := H code\<rparr>\<rparr>"
    using h by (intro ov_setCode) auto
  have undo: "vrevert H (codeChange a (ocode obj)) (v_set a (Some (ov t (so_setCode obj (H code) code))) (view t))
      = Some (view t)"
    unfolding vrevert.simps
  proof (rule v_modify_undo)
    show "vAccounts (view t) a = Some (ov t obj)" by (simp add: t(4))
    have "avCode (ov t obj) = ocode obj" using prev by simp
    then show "ov t (so_setCode obj (H code) code)\<lparr>avCode := ocode obj,
        avData := avData (ov t (so_setCode obj (H code) code))\<lparr>aCodeHash := H (ocode obj)\<rparr>\<rparr> = ov t obj"
      unfolding ovn by (simp add: prev(1) obj_view_def)
  qed
  note m = mutates_obj [OF it t(4), of "so_setCode obj (H code) code", OF _ _ _ undo]
  have eq: "snd (SetCode H s a code)
      = setStateObject (journal_append t (codeChange a (ocode obj))) (so_setCode obj (H code) code)"
    by (simp add: SetCode_def t(1) so_SetCode_def Let_def t(5))
  have "obj_ok H a (so_setCode obj (H code) code)" by (simp add: obj_ok_def sdb_simps t(5))
  with m h t(5) have mm: "mutates H t (snd (SetCode H s a code))"
    and v: "view (snd (SetCode H s a code)) = v_set a (Some (ov t (so_setCode obj (H code) code))) (view t)"
    unfolding eq by (auto simp: sdb_simps)
  show "mutates H s (snd (SetCode H s a code))" using mutates_trans [OF t(2) mm] .
  have "data obj = avData (v_acct a (view s))" by (simp flip: t(7))
  then show "view (snd (SetCode H s a code)) =
      v_upd a (\<lambda>w. w\<lparr>avCode := code, avData := (avData w)\<lparr>aCodeHash := H code\<rparr>\<rparr>) (view s)"
    by (simp add: v ovn t(3,7) v_upd_def)
qed

lemma SetState_spec:
  assumes inv: "sinv H s"
  shows "mutates H s (snd (SetState s a key v))"
    and "view (snd (SetState s a key v)) = v_upd a (\<lambda>w. w\<lparr>avState := (avState w)(key := v)\<rparr>) (view s)"
proof -
  obtain obj t where t: "getOrNewStateObject s a = (obj, t)" "mutates H s t" "view t = v_ensure a (view s)"
    "peek_obj t a = Some obj" "oAddress obj = a" "obj_ok H a obj" "ov t obj = v_acct a (view s)"
    using getOrNewStateObject_spec [OF inv, of a] by blast
  have it: "sinv H t" using mutates_sinv [OF t(2)] .
  let ?orig = "committed_of (reader t) (stateObjectsDestruct t) obj key"
  obtain obj' u where g: "so_getState t obj key = (avState (ov t obj) key, ?orig, obj', u)"
    and c: "caches H t obj u obj'"
    using so_getState_spec [OF _ sinvD(1) [OF it], of obj key] t(4,5) by auto
  have q: "quiet H t u" "peek_obj u a = Some obj'" "oAddress obj' = a" "ov t obj' = ov t obj"
    "ocode obj' = ocode obj"
    using c t(5) by (auto simp: caches_def)
  have st: "reader u = reader t" "stateObjectsDestruct u = stateObjectsDestruct t" "view u = view t"
    using quiet_static [OF q(1)] q(1) by (auto simp: quiet_def)
  have mu: "mutates H s u" using mutates_trans [OF t(2) mutates_quiet [OF it q(1)]] .
  have iu: "sinv H u" using mutates_sinv [OF mu] .
  have orig: "committed_of (reader u) (stateObjectsDestruct u) obj' key = ?orig"
    using arg_cong [OF q(4), of avCommitted] by (simp add: st fun_eq_iff)
  have "mutates H s (snd (SetState s a key v)) \<and>
    view (snd (SetState s a key v)) = v_upd a (\<lambda>w. w\<lparr>avState := (avState w)(key := v)\<rparr>) (view s)"
  proof (cases "avState (ov t obj) key = v")
    case True
    then have "view u = v_upd a (\<lambda>w. w\<lparr>avState := (avState w)(key := v)\<rparr>) (view s)"
      using t(3,7) st(3) by (subst v_upd_id) auto
    then show ?thesis using True mu by (simp add: SetState_def t(1) so_SetState_def g)
  next
    case False
    let ?e = "storageChange a key (avState (ov t obj) key) ?orig" and ?o = "so_setState obj' key v ?orig"
    have ovn: "ov u ?o = (ov t obj)\<lparr>avState := (avState (ov t obj))(key := v)\<rparr>"
      using orig q(4) by (simp add: sdb_simps st)
    have undo: "vrevert H ?e (v_set a (Some (ov u ?o)) (view u)) = Some (view u)"
      unfolding vrevert.simps
    proof (rule v_modify_undo)
      show "vAccounts (view u) a = Some (ov t obj)" using q(2,4) by (simp add: st(1,2))
      have "avCommitted (ov t obj) key = ?orig" by simp
      then show "ov u ?o\<lparr>avState := (avState (ov u ?o))(key := if avState (ov t obj) key = ?orig
          then avCommitted (ov u ?o) key else avState (ov t obj) key)\<rparr> = ov t obj"
        by (simp add: ovn fun_upd_idem del: ov_state ov_sel)
    qed
    have ok: "obj_ok H a ?o" using peek_obj_ok [OF sinvD(1) [OF iu] q(2)] by (simp add: obj_ok_def sdb_simps)
    have m: "mutates H u (setStateObject (journal_append u ?e) ?o)"
      "view (setStateObject (journal_append u ?e) ?o) = v_set a (Some (ov u ?o)) (view u)"
      using mutates_obj [OF iu q(2) _ ok _ undo] q(3) by (auto simp: sdb_simps)
    have eq: "snd (SetState s a key v) = setStateObject (journal_append u ?e) ?o"
      using False by (simp add: SetState_def t(1) so_SetState_def g q(3))
    show ?thesis
      using mutates_trans [OF mu m(1)] m(2) by (simp only: eq ovn st(3) t(3,7) v_upd_def v_set_ensure)
  qed
  then show "mutates H s (snd (SetState s a key v))"
    "view (snd (SetState s a key v)) = v_upd a (\<lambda>w. w\<lparr>avState := (avState w)(key := v)\<rparr>) (view s)" by simp_all
qed

text \<open>Changes outside the objects.\<close>

lemma mutates_other:
  assumes inv: "sinv H s"
    and same: "stateObjects t = stateObjects s" "reader t = reader s"
      "stateObjectsDestruct t = stateObjectsDestruct s"
    and j: "sJournal t = j_append (sJournal s) e" and wf: "vwf (view t)"
    and undo: "vrevert H e (view t) = Some (view s)" and e: "\<And>b. e \<noteq> createObjectChange b"
  shows "mutates H s t"
proof -
  have p: "peek_obj t = peek_obj s" by (rule peek_cong [OF same])
  have js: "entries (sJournal t) = entries (sJournal s) @ [e]"
    "validRevisions (sJournal t) = validRevisions (sJournal s)"
    "nextRevisionId (sJournal t) = nextRevisionId (sJournal s)"
    by (simp_all add: j j_append_def Let_def split: option.splits)
  have "logged H e s t"
    using js wf undo e sinvD(1) [OF inv] same by (simp add: logged_def sdb_ok_def loaded_def p)
  then show ?thesis using mutates_logged [OF inv] by blast
qed

lemma AddRefund_spec:
  assumes "sinv H s"
  shows "mutates H s (AddRefund s g)" and "view (AddRefund s g) = (view s)\<lparr>vRefund := refund s + g\<rparr>"
proof -
  show v: "view (AddRefund s g) = (view s)\<lparr>vRefund := refund s + g\<rparr>"
    by (simp add: AddRefund_def Let_def sdb_simps) (simp add: journal_append_def)
  show "mutates H s (AddRefund s g)"
    by (rule mutates_other [OF assms, where e = "refundChange (refund s)"])
      (use sinv_vwf [OF assms] in \<open>simp_all add: v, simp_all add: AddRefund_def journal_append_def Let_def view_def\<close>)
qed

lemma SubRefund_spec:
  assumes "sinv H s" and "SubRefund s g = Some t"
  shows "mutates H s t" and "view t = (view s)\<lparr>vRefund := refund s - g\<rparr>"
proof -
  have t: "t = (journal_append s (refundChange (refund s)))\<lparr>refund := refund s - g\<rparr>"
    using assms(2) by (auto simp: SubRefund_def Let_def journal_append_def split: if_splits)
  show v: "view t = (view s)\<lparr>vRefund := refund s - g\<rparr>" by (simp add: t sdb_simps)
  show "mutates H s t"
    by (rule mutates_other [OF assms(1), where e = "refundChange (refund s)"])
      (use sinv_vwf [OF assms(1)] in \<open>simp_all add: v, simp_all add: t journal_append_def view_def\<close>)
qed

lemma AddPreimage_quiet: "quiet H s (AddPreimage s h x)"
  by (simp add: AddPreimage_def quiet_def sdb_simps sdb_ok_def loaded_def)

lemma SetTransientState_spec:
  assumes "sinv H s"
  shows "mutates H s (SetTransientState s a k x)"
    and "view (SetTransientState s a k x) =
      (view s)\<lparr>vTransient := (vTransient (view s))(a := (vTransient (view s) a)(k := x))\<rparr>"
proof -
  have eqT: "ts_Get (ts_Set (sTransient s) a k x)
      = (ts_Get (sTransient s))(a := (ts_Get (sTransient s) a)(k := x))" for x
    by (auto simp: fun_eq_iff ts_Get_Set)
  have vT: "vTransient (view s) = ts_Get (sTransient s)" by (simp add: view_def)
  have "mutates H s (SetTransientState s a k x) \<and> view (SetTransientState s a k x) =
      (view s)\<lparr>vTransient := (vTransient (view s))(a := (vTransient (view s) a)(k := x))\<rparr>"
  proof (cases "GetTransientState s a k = x")
    case True
    then show ?thesis using mutates_refl [OF assms]
      by (simp add: SetTransientState_def GetTransientState_def vT fun_upd_idem)
  next
    case False
    let ?e = "transientStorageChange a k (GetTransientState s a k)"
    have t: "SetTransientState s a k x = (journal_append s ?e)\<lparr>sTransient := ts_Set (sTransient s) a k x\<rparr>"
      using False by (simp add: SetTransientState_def setTransientState_def journal_append_def Let_def)
    have v: "view (SetTransientState s a k x) =
      (view s)\<lparr>vTransient := (vTransient (view s))(a := (vTransient (view s) a)(k := x))\<rparr>"
      by (simp add: t sdb_simps eqT vT)
    moreover have "mutates H s (SetTransientState s a k x)"
      by (rule mutates_other [OF assms, where e = ?e])
        (use sinv_vwf [OF assms] in \<open>simp_all add: v, simp_all add: t journal_append_def GetTransientState_def vT\<close>)
    ultimately show ?thesis by simp
  qed
  then show "mutates H s (SetTransientState s a k x)"
    "view (SetTransientState s a k x) =
      (view s)\<lparr>vTransient := (vTransient (view s))(a := (vTransient (view s) a)(k := x))\<rparr>" by simp_all
qed

definition v_log :: "Log \<Rightarrow> sview \<Rightarrow> sview" where
  "v_log l v = v\<lparr>vLogs := (vLogs v)(vThash v \<mapsto> (case vLogs v (vThash v) of None \<Rightarrow> [] | Some ls \<Rightarrow> ls)
       @ [l\<lparr>lTxHash := vThash v, lTxIndex := vTxIndex v, lIndex := vLogSize v\<rparr>]), vLogSize := vLogSize v + 1\<rparr>"

lemma AddLog_view: "view (AddLog s l) = v_log l (view s)"
  by (simp add: AddLog_def v_log_def Let_def sdb_simps) (simp add: journal_append_def)

lemma AddLog_spec:
  assumes "sinv H s"
  shows "mutates H s (AddLog s l)"
proof (rule mutates_other [OF assms, where e = "addLogChange (thash s)"])
  show "vrevert H (addLogChange (thash s)) (view (AddLog s l)) = Some (view s)"
    using sinv_vwf [OF assms]
    by (auto simp: AddLog_view v_log_def Let_def vwf_def fun_upd_idem_iff split: option.splits)
  show "vwf (view (AddLog s l))"
    using sinv_vwf [OF assms] by (auto simp: AddLog_view v_log_def vwf_def)
qed (simp_all add: AddLog_def journal_append_def Let_def)

lemma AddAddressToAccessList_spec:
  assumes "sinv H s"
  shows "mutates H s (AddAddressToAccessList s a)"
    and "view (AddAddressToAccessList s a) = (view s)\<lparr>vAccessList := snd (AddAddress (sAccessList s) a)\<rparr>"
proof -
  obtain b al where al: "AddAddress (sAccessList s) a = (b, al)" by fastforce
  show v: "view (AddAddressToAccessList s a) = (view s)\<lparr>vAccessList := snd (AddAddress (sAccessList s) a)\<rparr>"
    by (simp add: AddAddressToAccessList_def Let_def al sdb_simps)
  show "mutates H s (AddAddressToAccessList s a)"
  proof (cases b)
    case True
    show ?thesis
    proof (rule mutates_other [OF assms, where e = "accessListAddAccountChange a"])
      show "vwf (view (AddAddressToAccessList s a))"
        using sinv_vwf [OF assms] AddAddress_wf [of "sAccessList s" a] by (simp add: v vwf_def)
      have "DeleteAddress al a = sAccessList s" using AddAddress_undo al True by simp
      then show "vrevert H (accessListAddAccountChange a) (view (AddAddressToAccessList s a)) = Some (view s)"
        by (simp add: v al)
    qed (use al True in \<open>simp_all add: AddAddressToAccessList_def Let_def journal_append_def\<close>)
  next
    case False
    then have "AddAddressToAccessList s a = s"
      using al AddAddress_idem [of "sAccessList s" a al] by (simp add: AddAddressToAccessList_def)
    then show ?thesis using mutates_refl [OF assms] by simp
  qed
qed

lemma AddSlotToAccessList_spec:
  assumes "sinv H s"
  shows "\<exists>x y al t. AddSlot (sAccessList s) a slot = Some (x, y, al) \<and> AddSlotToAccessList s a slot = Some t
    \<and> mutates H s t \<and> view t = (view s)\<lparr>vAccessList := al\<rparr>"
proof -
  have wf: "al_wf (sAccessList s)" using sinv_al_wf [OF assms] .
  obtain x y al where al: "AddSlot (sAccessList s) a slot = Some (x, y, al)" "al_wf al"
    "\<not> y \<longrightarrow> al = sAccessList s \<and> \<not> x"
    using AddSlot_Some [OF wf] by blast
  show ?thesis
  proof (cases y)
    case False
    then have "AddSlotToAccessList s a slot = Some s" "al = sAccessList s"
      using al by (simp_all add: AddSlotToAccessList_def)
    then show ?thesis using al(1) mutates_refl [OF assms] by (simp add: view_def)
  next
    case True
    let ?a1 = "if x then (sAccessList s)\<lparr>addresses := (addresses (sAccessList s))(a \<mapsto> -1)\<rparr> else sAccessList s"
    let ?s1 = "if x then journal_append (s\<lparr>sAccessList := ?a1\<rparr>) (accessListAddAccountChange a) else s"
    let ?t = "journal_append (?s1\<lparr>sAccessList := al\<rparr>) (accessListAddSlotChange a slot)"
    have undo: "DeleteSlot al a slot = Some ?a1" "x \<Longrightarrow> addresses (sAccessList s) a = None"
      using AddSlot_undo [OF wf, of a slot x al] al(1) True by auto
    have a1: "?s1 = (if x then AddAddressToAccessList s a else s)"
      using undo(2) by (auto simp: AddAddressToAccessList_def AddAddress_def)
    have m1: "mutates H s ?s1" unfolding a1
      using AddAddressToAccessList_spec(1) [OF assms] mutates_refl [OF assms] by simp
    have v1: "view ?s1 = (view s)\<lparr>vAccessList := ?a1\<rparr>"
      by (simp add: sdb_simps)
    have vt: "view ?t = (view s)\<lparr>vAccessList := al\<rparr>" by (simp add: sdb_simps)
    have t: "AddSlotToAccessList s a slot = Some ?t"
      using al(1) True by (simp add: AddSlotToAccessList_def journal_append_def)
    have "mutates H ?s1 ?t"
    proof (rule mutates_other [OF mutates_sinv [OF m1], where e = "accessListAddSlotChange a slot"])
      show "vwf (view ?t)" using al(2) sinv_vwf [OF assms] by (simp add: vt vwf_def)
      show "vrevert H (accessListAddSlotChange a slot) (view ?t) = Some (view ?s1)"
        unfolding vt v1 using undo(1) by simp
    qed (simp_all add: journal_append_def)
    with m1 have "mutates H s ?t" using mutates_trans by blast
    with al(1) t vt show ?thesis by blast
  qed
qed

lemma CreateAccount_spec:
  assumes "sinv H s" and "vAccounts (view s) a = None"
  shows "mutates H s (CreateAccount s a)"
    and "view (CreateAccount s a) = v_set a (Some (fresh_view (view s) a)) (view s)"
  using createObject_spec [OF assms(1), of a] assms(2) by (simp_all add: CreateAccount_def)

lemma obj_flag_spec:
  assumes inv: "sinv H s" and obj: "peek_obj s a = Some obj" and o': "oAddress obj' = a"
    "ocode obj' = ocode obj" "data obj' = data obj"
    and undo: "vrevert H e (v_set a (Some (ov s obj')) (view s)) = Some (view s)"
    and e: "\<And>b. e \<noteq> createObjectChange b"
  shows "mutates H s (setStateObject (journal_append s e) obj')"
    and "view (setStateObject (journal_append s e) obj') = v_set a (Some (ov s obj')) (view s)"
proof -
  have "obj_ok H a obj'" using peek_obj_ok [OF sinvD(1) [OF inv] obj] o' by (simp add: obj_ok_def)
  then show "mutates H s (setStateObject (journal_append s e) obj')"
    "view (setStateObject (journal_append s e) obj') = v_set a (Some (ov s obj')) (view s)"
    using mutates_obj [OF inv obj o'(1) _ _ undo e] o' by simp_all
qed

lemma CreateContract_spec:
  assumes inv: "sinv H s" and w: "vAccounts (view s) a = Some w"
  shows "\<exists>t. CreateContract s a = Some t \<and> mutates H s t
    \<and> view t = v_set a (Some (w\<lparr>avNewContract := True\<rparr>)) (view s)"
proof -
  obtain t where t: "getStateObject s a = (peek_obj s a, t)" "quiet H s t" "peek_obj t = peek_obj s"
    "reader t = reader s" "stateObjectsDestruct t = stateObjectsDestruct s"
    using getStateObject_spec [of s a H] by auto
  obtain obj where obj: "peek_obj s a = Some obj" "w = ov s obj" using w by auto
  have mt: "mutates H s t" and vt: "view t = view s"
    using mutates_quiet [OF inv t(2)] t(2) by (auto simp: quiet_def)
  note it = mutates_sinv [OF mt]
  show ?thesis
  proof (cases "newContract obj")
    case True
    then have "w\<lparr>avNewContract := True\<rparr> = w" by (simp add: obj(2) obj_view_def)
    then show ?thesis
      using True obj t mt vt w by (simp add: CreateContract_def)
  next
    case False
    have oa: "oAddress obj = a" using peek_obj_ok [OF sinvD(1) [OF inv] obj(1)] by (simp add: obj_ok_def)
    let ?o = "obj\<lparr>newContract := True\<rparr>"
    have undo: "vrevert H (createContractChange a) (v_set a (Some (ov t ?o)) (view t)) = Some (view t)"
      unfolding vrevert.simps
    proof (rule v_modify_undo)
      show "vAccounts (view t) a = Some (ov t obj)" by (simp add: t obj(1))
      show "ov t ?o\<lparr>avNewContract := False\<rparr> = ov t obj"
        using False by (simp add: sdb_simps)
    qed
    note f = obj_flag_spec [OF it _ _ _ _ undo, of obj]
    have "CreateContract s a = Some (setStateObject (journal_append t (createContractChange a)) ?o)"
      using False by (simp add: CreateContract_def t(1) obj(1) journal_append_def setStateObject_def)
    then show ?thesis
      using f obj t(3,4,5) oa mutates_trans [OF mt] vt by (auto simp: sdb_simps)
  qed
qed

definition v_destruct :: "address \<Rightarrow> sview \<Rightarrow> sview" where
  "v_destruct a v = (case vAccounts v a of None \<Rightarrow> v
     | Some w \<Rightarrow> v_set a (Some (w\<lparr>avData := (avData w)\<lparr>Balance := 0\<rparr>, avSelfDestructed := True\<rparr>)) v)"

lemma SelfDestruct_spec:
  assumes inv: "sinv H s"
  shows "fst (SelfDestruct s a) = vBal (view s) a" and "mutates H s (snd (SelfDestruct s a))"
    and "view (snd (SelfDestruct s a)) = v_destruct a (view s)"
proof -
  obtain t where t: "getStateObject s a = (peek_obj s a, t)" "quiet H s t" "peek_obj t = peek_obj s"
    "reader t = reader s" "stateObjectsDestruct t = stateObjectsDestruct s"
    using getStateObject_spec [of s a H] by auto
  have mt: "mutates H s t" and vt: "view t = view s"
    using mutates_quiet [OF inv t(2)] t(2) by (auto simp: quiet_def)
  have "fst (SelfDestruct s a) = vBal (view s) a \<and> mutates H s (snd (SelfDestruct s a))
    \<and> view (snd (SelfDestruct s a)) = v_destruct a (view s)"
  proof (cases "peek_obj s a")
    case None
    then show ?thesis using mt vt t(1) by (simp add: SelfDestruct_def v_destruct_def vBal_def)
  next
    case (Some obj)
    have ok: "obj_ok H a obj" and oa: "oAddress obj = a"
      using peek_obj_ok [OF sinvD(1) [OF inv] Some] by (simp_all add: obj_ok_def)
    let ?z = "Balance (data obj) \<noteq> 0"
    define obj1 where "obj1 = (if ?z then so_setBalance obj 0 else obj)"
    define s1 where "s1 = (if ?z then snd (so_SetBalance t obj 0) else t)"
    have o1: "oAddress obj1 = a" "obj_ok H a obj1" "selfDestructed obj1 = selfDestructed obj"
      using ok oa by (auto simp: obj1_def obj_ok_def sdb_simps so_setBalance_def)
    have ov1: "ov t obj1 = avData_update (Balance_update (\<lambda>_. 0)) (ov t obj)"
      by (simp add: obj1_def sdb_simps)
    have undo1: "vrevert H (balanceChange a (Balance (data obj))) (v_set a (Some (ov t (so_setBalance obj 0))) (view t)) = Some (view t)"
      unfolding vrevert.simps
    proof (rule v_modify_undo)
      show "vAccounts (view t) a = Some (ov t obj)" by (simp add: t Some)
      show "avData_update (Balance_update (\<lambda>_. Balance (data obj))) (ov t (so_setBalance obj 0)) = ov t obj"
        by (simp add: sdb_simps)
    qed
    note mo = mutates_obj [OF mutates_sinv [OF mt] _ _ _ _ undo1, of obj]
    have s1: "mutates H s s1 \<and> view s1 = v_set a (Some (ov t obj1)) (view t) \<and> peek_obj s1 a = Some obj1"
    proof (cases ?z)
      case True
      then have "s1 = setStateObject (journal_append t (balanceChange a (Balance (data obj)))) (so_setBalance obj 0)"
        "obj1 = so_setBalance obj 0"
        by (simp_all add: s1_def obj1_def so_SetBalance_def Let_def oa)
      moreover have "mutates H t (setStateObject (journal_append t (balanceChange a (Balance (data obj)))) (so_setBalance obj 0))"
        "view (setStateObject (journal_append t (balanceChange a (Balance (data obj)))) (so_setBalance obj 0))
          = v_set a (Some (ov t (so_setBalance obj 0))) (view t)"
        using mo Some t(3) ok oa by (auto simp: sdb_simps obj_ok_def)
      ultimately show ?thesis using mutates_trans [OF mt] by (simp add: sdb_simps oa)
    next
      case False
      then show ?thesis using mt Some t(3) by (simp add: s1_def obj1_def t)
    qed
    have st1: "reader s1 = reader s" "stateObjectsDestruct s1 = stateObjectsDestruct s"
      using mutates_static s1 by blast+
    show ?thesis
    proof (cases "selfDestructed obj")
      case True
      have "SelfDestruct s a = (Balance (data obj), s1)"
        using True o1(3) by (simp add: SelfDestruct_def t(1) Some Let_def s1_def obj1_def split: if_splits)
      moreover have "(ov s obj)\<lparr>avData := (data obj)\<lparr>Balance := 0\<rparr>, avSelfDestructed := True\<rparr> = ov t obj1"
        using True unfolding ov1 by (simp add: t(4,5) obj_view_def)
      ultimately show ?thesis using s1 Some by (simp add: v_destruct_def vBal_def vt)
    next
      case False
      let ?o2 = "obj1\<lparr>selfDestructed := True\<rparr>"
      have undo2: "vrevert H (selfDestructChange a) (v_set a (Some (ov s1 ?o2)) (view s1)) = Some (view s1)"
      proof -
        have "(ov s1 ?o2)\<lparr>avSelfDestructed := False\<rparr> = ov s1 obj1"
          using False o1(3) by (simp add: sdb_simps)
        moreover have "vAccounts (view s1) a = Some (ov s1 obj1)"
          using s1 by (simp add: st1 t(4,5))
        ultimately show ?thesis by (simp del: view_simps)
      qed
      note f = obj_flag_spec [OF mutates_sinv [of H s s1] _ _ _ _ undo2, of obj1]
      have eq: "SelfDestruct s a = (Balance (data obj), setStateObject (journal_append s1 (selfDestructChange a)) ?o2)"
        using False by (simp add: SelfDestruct_def t(1) Some Let_def s1_def obj1_def so_setBalance_def)
      have m: "mutates H s1 (setStateObject (journal_append s1 (selfDestructChange a)) ?o2)"
        "view (setStateObject (journal_append s1 (selfDestructChange a)) ?o2) = v_set a (Some (ov s1 ?o2)) (view s1)"
        using f s1 o1 by auto
      have "(ov s obj)\<lparr>avData := (data obj)\<lparr>Balance := 0\<rparr>, avSelfDestructed := True\<rparr> = ov s1 ?o2"
        using ov1 by (simp add: sdb_simps st1 t(4,5))
      then show ?thesis
        using s1 m mutates_trans Some by (auto simp: eq v_destruct_def vBal_def vt)
    qed
  qed
  then show "fst (SelfDestruct s a) = vBal (view s) a" "mutates H s (snd (SelfDestruct s a))"
    "view (snd (SelfDestruct s a)) = v_destruct a (view s)" by simp_all
qed

lemma SelfDestruct6780_spec:
  assumes inv: "sinv H s"
  shows "\<exists>b t. SelfDestruct6780 s a = ((vBal (view s) a, b), t) \<and> mutates H s t
    \<and> view t = (if b then v_destruct a (view s) else view s)
    \<and> b = (\<exists>w. vAccounts (view s) a = Some w \<and> avNewContract w)"
proof -
  obtain t where t: "getStateObject s a = (peek_obj s a, t)" "quiet H s t" "peek_obj t = peek_obj s"
    "reader t = reader s" "stateObjectsDestruct t = stateObjectsDestruct s"
    using getStateObject_spec [of s a H] by auto
  have mt: "mutates H s t" and vt: "view t = view s"
    using mutates_quiet [OF inv t(2)] t(2) by (auto simp: quiet_def)
  note sd = SelfDestruct_spec [OF mutates_sinv [OF mt], of a]
  show ?thesis
  proof (cases "\<exists>obj. peek_obj s a = Some obj \<and> newContract obj")
    case True
    then have "SelfDestruct6780 s a = ((fst (SelfDestruct t a), True), snd (SelfDestruct t a))"
      by (auto simp: SelfDestruct6780_def t(1) case_prod_beta)
    then show ?thesis using True sd mutates_trans [OF mt sd(2)] by (auto simp: vt)
  next
    case False
    then have "SelfDestruct6780 s a = ((vBal (view s) a, False), t)"
      by (auto simp: SelfDestruct6780_def t(1) vBal_def split: option.splits)
    then show ?thesis using False mt vt by auto
  qed
qed

end
