(* ===== verification/State_AccessEvents.thy ===== *)
theory State_AccessEvents
  imports Params
begin

text \<open>
  The access witness of EIP-4762 (\<open>core/state/access_events.go\<close>): which branches and leaves of the
  state tree a transaction has read and written, and the gas for each first access. A method
  returns its gas result and the updated witness. \<open>StorageIndex\<close> is the one of
  \<open>trie/utils/verkle.go\<close>. The point cache serves only \<open>Keys\<close> and is left out.
\<close>

section \<open>The witness\<close>

abbreviation AccessWitnessReadFlag :: byte where "AccessWitnessReadFlag \<equiv> 1"
abbreviation AccessWitnessWriteFlag :: byte where "AccessWitnessWriteFlag \<equiv> 2"
abbreviation BasicDataLeafKey :: byte where "BasicDataLeafKey \<equiv> 0"
abbreviation CodeHashLeafKey :: byte where "CodeHashLeafKey \<equiv> 1"
abbreviation zeroTreeIndex :: u256 where "zeroTreeIndex \<equiv> 0"

type_synonym branchAccessKey = "address \<times> u256"
type_synonym chunkAccessKey = "branchAccessKey \<times> byte"

record AccessEvents =
  branches :: "branchAccessKey \<Rightarrow> byte option"
  chunks :: "chunkAccessKey \<Rightarrow> byte option"

definition NewAccessEvents :: AccessEvents where
  "NewAccessEvents = \<lparr>branches = Map.empty, chunks = Map.empty\<rparr>"

definition newBranchAccessKey :: "address \<Rightarrow> u256 \<Rightarrow> branchAccessKey" where
  "newBranchAccessKey addr treeIndex = (addr, treeIndex)"

definition newChunkAccessKey :: "branchAccessKey \<Rightarrow> byte \<Rightarrow> chunkAccessKey" where
  "newChunkAccessKey branchKey leafKey = (branchKey, leafKey)"

text \<open>A Go map read: the zero value when the key is absent.\<close>

definition mode_of :: "byte option \<Rightarrow> byte" where
  "mode_of v = (case v of None \<Rightarrow> 0 | Some m \<Rightarrow> m)"

definition Merge :: "AccessEvents \<Rightarrow> AccessEvents \<Rightarrow> AccessEvents" where
  "Merge ae other =
     ae\<lparr>branches := (\<lambda>k. case branches other k of
          None \<Rightarrow> branches ae k | Some m \<Rightarrow> Some (or (mode_of (branches ae k)) m)),
        chunks := (\<lambda>k. case chunks other k of
          None \<Rightarrow> chunks ae k | Some m \<Rightarrow> Some (or (mode_of (chunks ae k)) m))\<rparr>"

definition touchAddressAndChargeGas ::
  "AccessEvents \<Rightarrow> address \<Rightarrow> u256 \<Rightarrow> byte \<Rightarrow> bool \<Rightarrow> u64 \<Rightarrow> (u64 \<times> u64) \<times> AccessEvents" where
  "touchAddressAndChargeGas ae addr treeIndex subIndex isWrite availableGas =
     (let branchKey = newBranchAccessKey addr treeIndex;
          chunkKey = newChunkAccessKey branchKey subIndex;
          branchRead = (branches ae branchKey = None);
          chunkRead = (chunks ae chunkKey = None);
          branchWrite = (isWrite \<and> and (mode_of (branches ae branchKey)) AccessWitnessWriteFlag = 0);
          chunkWrite = (isWrite \<and> and (mode_of (chunks ae chunkKey)) AccessWitnessWriteFlag = 0);
          chunkFill = False;
          gas = (0::u64);
          gas = (if branchRead then gas + WitnessBranchReadCost else gas);
          gas = (if chunkRead then gas + WitnessChunkReadCost else gas);
          gas = (if branchWrite then gas + WitnessBranchWriteCost else gas);
          gas = (if chunkWrite then gas + WitnessChunkWriteCost else gas);
          gas = (if chunkFill then gas + WitnessChunkFillCost else gas)
      in
        if availableGas < gas then ((availableGas, gas), ae)
        else
          let ae = (if branchRead
                    then ae\<lparr>branches := (branches ae)(branchKey \<mapsto> AccessWitnessReadFlag)\<rparr> else ae);
              ae = (if branchWrite
                    then ae\<lparr>branches := (branches ae)
                           (branchKey \<mapsto> or (mode_of (branches ae branchKey)) AccessWitnessWriteFlag)\<rparr> else ae);
              ae = (if chunkRead
                    then ae\<lparr>chunks := (chunks ae)(chunkKey \<mapsto> AccessWitnessReadFlag)\<rparr> else ae);
              ae = (if chunkWrite
                    then ae\<lparr>chunks := (chunks ae)
                           (chunkKey \<mapsto> or (mode_of (chunks ae chunkKey)) AccessWitnessWriteFlag)\<rparr> else ae)
          in ((gas, gas), ae))"

section \<open>Charges\<close>

definition AddAccount :: "AccessEvents \<Rightarrow> address \<Rightarrow> bool \<Rightarrow> u64 \<Rightarrow> u64 \<times> AccessEvents" where
  "AddAccount ae addr isWrite availableGas =
     (let ((consumed, expected), ae) =
        touchAddressAndChargeGas ae addr zeroTreeIndex BasicDataLeafKey isWrite availableGas in
      if consumed < expected then (expected, ae)
      else
        let gas = consumed;
            ((consumed, expected), ae) =
              touchAddressAndChargeGas ae addr zeroTreeIndex CodeHashLeafKey isWrite (availableGas - consumed)
        in if consumed < expected then (expected + gas, ae) else (gas + expected, ae))"

definition MessageCallGas :: "AccessEvents \<Rightarrow> address \<Rightarrow> u64 \<Rightarrow> u64 \<times> AccessEvents" where
  "MessageCallGas ae destination availableGas =
     (let ((_, expected), ae) =
        touchAddressAndChargeGas ae destination zeroTreeIndex BasicDataLeafKey False availableGas
      in (if expected = 0 then WarmStorageReadCostEIP2929 else expected, ae))"

definition ValueTransferGas :: "AccessEvents \<Rightarrow> address \<Rightarrow> address \<Rightarrow> u64 \<Rightarrow> u64 \<times> AccessEvents" where
  "ValueTransferGas ae callerAddr targetAddr availableGas =
     (let ((_, expected1), ae) =
        touchAddressAndChargeGas ae callerAddr zeroTreeIndex BasicDataLeafKey True availableGas in
      if expected1 > availableGas then (expected1, ae)
      else
        let ((_, expected2), ae) =
          touchAddressAndChargeGas ae targetAddr zeroTreeIndex BasicDataLeafKey True (availableGas - expected1)
        in (if expected1 + expected2 = 0 then WarmStorageReadCostEIP2929 else expected1 + expected2, ae))"

definition ContractCreatePreCheckGas :: "AccessEvents \<Rightarrow> address \<Rightarrow> u64 \<Rightarrow> u64 \<times> AccessEvents" where
  "ContractCreatePreCheckGas ae addr availableGas =
     (let ((consumed, expected1), ae) =
            touchAddressAndChargeGas ae addr zeroTreeIndex BasicDataLeafKey False availableGas;
          ((_, expected2), ae) =
            touchAddressAndChargeGas ae addr zeroTreeIndex CodeHashLeafKey False (availableGas - consumed)
      in (expected1 + expected2, ae))"

definition ContractCreateInitGas :: "AccessEvents \<Rightarrow> address \<Rightarrow> u64 \<Rightarrow> (u64 \<times> u64) \<times> AccessEvents" where
  "ContractCreateInitGas ae addr availableGas =
     (let ((consumed, expected1), ae) =
            touchAddressAndChargeGas ae addr zeroTreeIndex BasicDataLeafKey True availableGas;
          gas = consumed;
          ((consumed, expected2), ae) =
            touchAddressAndChargeGas ae addr zeroTreeIndex CodeHashLeafKey True (availableGas - consumed)
      in ((gas + consumed, expected1 + expected2), ae))"

definition AddTxOrigin :: "AccessEvents \<Rightarrow> address \<Rightarrow> AccessEvents" where
  "AddTxOrigin ae originAddr =
     (let (_, ae) = touchAddressAndChargeGas ae originAddr zeroTreeIndex BasicDataLeafKey True MaxUint64
      in snd (touchAddressAndChargeGas ae originAddr zeroTreeIndex CodeHashLeafKey False MaxUint64))"

definition AddTxDestination :: "AccessEvents \<Rightarrow> address \<Rightarrow> bool \<Rightarrow> bool \<Rightarrow> AccessEvents" where
  "AddTxDestination ae addr sendsValue doesntExist =
     (let (_, ae) = touchAddressAndChargeGas ae addr zeroTreeIndex BasicDataLeafKey sendsValue MaxUint64
      in snd (touchAddressAndChargeGas ae addr zeroTreeIndex CodeHashLeafKey doesntExist MaxUint64))"

definition StorageIndex :: "hash \<Rightarrow> u256 \<times> byte" where
  "StorageIndex key =
     (if key < 64 then (0, ucast (64 + key))
      else (drop_bit 8 key + push_bit 240 1, ucast key))"

definition SlotGas ::
  "AccessEvents \<Rightarrow> address \<Rightarrow> hash \<Rightarrow> bool \<Rightarrow> u64 \<Rightarrow> bool \<Rightarrow> u64 \<times> AccessEvents" where
  "SlotGas ae addr slot isWrite availableGas chargeWarmCosts =
     (let (treeIndex, subIndex) = StorageIndex slot;
          ((_, expected), ae) = touchAddressAndChargeGas ae addr treeIndex subIndex isWrite availableGas
      in (if expected = 0 \<and> chargeWarmCosts then WarmStorageReadCostEIP2929 else expected, ae))"

text \<open>
  The loop of \<open>CodeChunksRangeGas\<close>: \<open>n\<close> chunks from \<open>chunkNumber\<close> on. \<open>None\<close> is its explicit
  panic when the accumulated gas overflows.
\<close>

fun code_chunks_loop ::
  "nat \<Rightarrow> AccessEvents \<Rightarrow> address \<Rightarrow> u64 \<Rightarrow> bool \<Rightarrow> u64 \<Rightarrow> u64 \<Rightarrow> ((u64 \<times> u64) \<times> AccessEvents) option" where
  "code_chunks_loop 0 ae addr chunkNumber isWrite availableGas charged = Some ((charged, charged), ae)"
| "code_chunks_loop (Suc n) ae addr chunkNumber isWrite availableGas charged =
     (let treeIndex = ucast ((chunkNumber + 128) div 256);
          subIndex = ucast ((chunkNumber + 128) mod 256);
          ((consumed, expected), ae) =
            touchAddressAndChargeGas ae addr treeIndex subIndex isWrite availableGas
      in if expected > consumed then Some ((charged + consumed, charged + expected), ae)
         else
           let (charged, overflow) = SafeAdd charged consumed in
           if overflow then None
           else code_chunks_loop n ae addr (chunkNumber + 1) isWrite (availableGas - consumed) charged)"

definition CodeChunksRangeGas ::
  "AccessEvents \<Rightarrow> address \<Rightarrow> u64 \<Rightarrow> u64 \<Rightarrow> u64 \<Rightarrow> bool \<Rightarrow> u64 \<Rightarrow> ((u64 \<times> u64) \<times> AccessEvents) option" where
  "CodeChunksRangeGas ae contractAddr startPC sz codeLen isWrite availableGas =
     (if codeLen = 0 \<and> sz = 0 \<or> startPC > codeLen then Some ((0, 0), ae)
      else
        let endPC = startPC + sz;
            endPC = (if endPC > codeLen then codeLen else endPC);
            endPC = (if endPC > 0 then endPC - 1 else endPC);
            first = startPC div 31;
            n = (if first \<le> endPC div 31 then unat (endPC div 31 - first) + 1 else 0)
        in code_chunks_loop n ae contractAddr first isWrite availableGas 0)"

definition BasicDataGas ::
  "AccessEvents \<Rightarrow> address \<Rightarrow> bool \<Rightarrow> u64 \<Rightarrow> bool \<Rightarrow> u64 \<times> AccessEvents" where
  "BasicDataGas ae addr isWrite availableGas chargeWarmCosts =
     (let ((_, expected), ae) =
        touchAddressAndChargeGas ae addr zeroTreeIndex BasicDataLeafKey isWrite availableGas in
      if expected = 0 \<and> chargeWarmCosts then
        (if availableGas < WarmStorageReadCostEIP2929 then availableGas else WarmStorageReadCostEIP2929, ae)
      else (expected, ae))"

definition CodeHashGas ::
  "AccessEvents \<Rightarrow> address \<Rightarrow> bool \<Rightarrow> u64 \<Rightarrow> bool \<Rightarrow> u64 \<times> AccessEvents" where
  "CodeHashGas ae addr isWrite availableGas chargeWarmCosts =
     (let ((_, expected), ae) =
        touchAddressAndChargeGas ae addr zeroTreeIndex CodeHashLeafKey isWrite availableGas in
      if expected = 0 \<and> chargeWarmCosts then
        (if availableGas < WarmStorageReadCostEIP2929 then availableGas else WarmStorageReadCostEIP2929, ae)
      else (expected, ae))"

end
