(* ===== verification/VM_Types.thy ===== *)
theory VM_Types
  imports VM_Contract State_Ops State_AccessEvents
begin

text \<open>
  The types the EVM is built from: the block and transaction context and the configuration (\<open>env\<close>,
  fixed while a transaction runs), the mutable part of \<open>EVM\<close> and \<open>EVMInterpreter\<close> (\<open>evm\<close>),
  \<open>ScopeContext\<close> (\<open>scope\<close>) and the types of instructions and gas functions of
  \<open>core/vm/jump_table.go\<close>. A Go pointer that may be nil is an option, and dereferencing nil is a
  panic. A handler receives the EVM's call operations as the record \<open>calls\<close>; the recursion between
  \<open>EVMInterpreter.Run\<close> and \<open>EVM.Call\<close> is tied in the theory of the EVM.

  \<open>lib\<close> holds the third-party code: Keccak-256 and the \<open>uint256.Int\<close> methods beyond plain 256-bit
  word operations. \<open>aborts\<close> gives the answers of the successive \<open>evm.abort.Load()\<close> calls: the flag
  may be raised by another goroutine at any time. The tracer and the stateless witness only observe.
\<close>

section \<open>Context\<close>

record lib =
  keccak256 :: "bytes \<Rightarrow> hash"
  u_Div :: "u256 \<Rightarrow> u256 \<Rightarrow> u256"
  u_SDiv :: "u256 \<Rightarrow> u256 \<Rightarrow> u256"
  u_Mod :: "u256 \<Rightarrow> u256 \<Rightarrow> u256"
  u_SMod :: "u256 \<Rightarrow> u256 \<Rightarrow> u256"
  u_Exp :: "u256 \<Rightarrow> u256 \<Rightarrow> u256"
  u_ExtendSign :: "u256 \<Rightarrow> u256 \<Rightarrow> u256"
  u_Byte :: "u256 \<Rightarrow> u256 \<Rightarrow> u256"
  u_AddMod :: "u256 \<Rightarrow> u256 \<Rightarrow> u256 \<Rightarrow> u256"
  u_MulMod :: "u256 \<Rightarrow> u256 \<Rightarrow> u256 \<Rightarrow> u256"
  u_SRsh :: "u256 \<Rightarrow> nat \<Rightarrow> u256"
  u_BitLen :: "u256 \<Rightarrow> nat"

record PrecompiledContract =
  RequiredGas :: "bytes \<Rightarrow> u64"
  pRun :: "bytes \<Rightarrow> bytes \<times> vmerr option"

record env =
  eLib :: lib
  chainRules :: Rules
  ChainID :: "int option"
  precompiles :: "address \<Rightarrow> PrecompiledContract option"
  EnablePreimageRecording :: bool
  aborts :: "nat \<Rightarrow> bool"
  GetHash :: "u64 \<Rightarrow> hash"
  Coinbase :: address
  GasLimit :: u64
  BlockNumber :: int
  Time :: u64
  Difficulty :: "int option"
  BaseFee :: "int option"
  BlobBaseFee :: "int option"
  Random :: "hash option"
  Origin :: address
  GasPrice :: "int option"
  BlobHashes :: "hash list"

abbreviation keccak :: "env \<Rightarrow> bytes \<Rightarrow> hash" where
  "keccak E \<equiv> keccak256 (eLib E)"

section \<open>State\<close>

record evm =
  db :: StateDB
  depth :: nat
  readOnly :: bool
  returnData :: bytes
  callGasTemp :: u64
  jumpDests :: jumpDests
  accessEvents :: "AccessEvents option"
  loads :: nat

record scope =
  Mem :: Memory
  Stk :: Stack
  Con :: Contract

type_synonym callres = "(bytes \<times> u64 \<times> vmerr option \<times> evm) option"
type_synonym createres = "(bytes \<times> address \<times> u64 \<times> vmerr option \<times> evm) option"

record calls =
  kCall :: "evm \<Rightarrow> address \<Rightarrow> address \<Rightarrow> bytes \<Rightarrow> u64 \<Rightarrow> u256 \<Rightarrow> callres"
  kCallCode :: "evm \<Rightarrow> address \<Rightarrow> address \<Rightarrow> bytes \<Rightarrow> u64 \<Rightarrow> u256 \<Rightarrow> callres"
  kDelegateCall :: "evm \<Rightarrow> address \<Rightarrow> address \<Rightarrow> address \<Rightarrow> bytes \<Rightarrow> u64 \<Rightarrow> u256 \<Rightarrow> callres"
  kStaticCall :: "evm \<Rightarrow> address \<Rightarrow> address \<Rightarrow> bytes \<Rightarrow> u64 \<Rightarrow> callres"
  kCreate :: "evm \<Rightarrow> address \<Rightarrow> bytes \<Rightarrow> u64 \<Rightarrow> u256 \<Rightarrow> createres"
  kCreate2 :: "evm \<Rightarrow> address \<Rightarrow> bytes \<Rightarrow> u64 \<Rightarrow> u256 \<Rightarrow> u256 \<Rightarrow> createres"

section \<open>Instructions\<close>

type_synonym execres = "((bytes \<times> vmerr option) \<times> u64 \<times> evm \<times> scope) option"
type_synonym executionFunc = "env \<Rightarrow> calls \<Rightarrow> u64 \<Rightarrow> evm \<Rightarrow> scope \<Rightarrow> execres"
type_synonym gasres = "((u64 \<times> vmerr option) \<times> evm \<times> Contract \<times> Memory) option"
type_synonym gasFunc = "env \<Rightarrow> evm \<Rightarrow> Contract \<Rightarrow> Stack \<Rightarrow> Memory \<Rightarrow> u64 \<Rightarrow> gasres"

record operation =
  execute :: executionFunc
  constantGas :: u64
  dynamicGas :: "gasFunc option"
  op_minStack :: int
  op_maxStack :: int
  memorySize :: "memorySizeFunc option"
  op_undefined :: bool

type_synonym JumpTable = "byte \<Rightarrow> operation option"

text \<open>The three ways a handler leaves: \<open>nil, nil\<close>, an error, or a result with an error.\<close>

definition ok :: "u64 \<Rightarrow> evm \<Rightarrow> scope \<Rightarrow> execres" where
  "ok pc w sc = Some (([], None), pc, w, sc)"

definition fail :: "vmerr \<Rightarrow> u64 \<Rightarrow> evm \<Rightarrow> scope \<Rightarrow> execres" where
  "fail err pc w sc = Some (([], Some err), pc, w, sc)"

definition stop_with :: "bytes \<Rightarrow> vmerr option \<Rightarrow> u64 \<Rightarrow> evm \<Rightarrow> scope \<Rightarrow> execres" where
  "stop_with res err pc w sc = Some ((res, err), pc, w, sc)"

text \<open>The two ways a gas function leaves.\<close>

definition gas_ok :: "u64 \<Rightarrow> evm \<Rightarrow> Contract \<Rightarrow> Memory \<Rightarrow> gasres" where
  "gas_ok g w c m = Some ((g, None), w, c, m)"

definition gas_err :: "u64 \<Rightarrow> vmerr \<Rightarrow> evm \<Rightarrow> Contract \<Rightarrow> Memory \<Rightarrow> gasres" where
  "gas_err g err w c m = Some ((g, Some err), w, c, m)"

section \<open>Conversions\<close>

text \<open>\<open>uint256.Int.Bytes20\<close>, \<open>SetBytes\<close> of an address, \<open>uint256.FromBig\<close> and \<open>big.Int.Uint64\<close>.\<close>

definition Bytes20 :: "u256 \<Rightarrow> address" where
  "Bytes20 x = ucast x"

definition FromAddress :: "address \<Rightarrow> u256" where
  "FromAddress a = ucast a"

definition FromBig :: "int option \<Rightarrow> u256 option" where
  "FromBig b = map_option of_int b"

definition big_Uint64 :: "int \<Rightarrow> u64" where
  "big_Uint64 n = of_nat (nat \<bar>n\<bar>)"

definition SetUint64 :: "u64 \<Rightarrow> u256" where
  "SetUint64 x = ucast x"

text \<open>A read of the database: the value, with the caches it filled.\<close>

definition reads :: "(StateDB \<Rightarrow> 'a \<times> StateDB) \<Rightarrow> evm \<Rightarrow> 'a \<times> evm" where
  "reads f w = (let (x, s) = f (db w) in (x, w\<lparr>db := s\<rparr>))"

text \<open>A write to the database.\<close>

definition writes :: "(StateDB \<Rightarrow> StateDB) \<Rightarrow> evm \<Rightarrow> evm" where
  "writes f w = w\<lparr>db := f (db w)\<rparr>"

text \<open>A charge against the access witness; nil when EIP-4762 is not active.\<close>

definition charges :: "(AccessEvents \<Rightarrow> 'a \<times> AccessEvents) \<Rightarrow> evm \<Rightarrow> ('a \<times> evm) option" where
  "charges f w = (case accessEvents w of
     None \<Rightarrow> None
   | Some ae \<Rightarrow> let (x, ae) = f ae in Some (x, w\<lparr>accessEvents := Some ae\<rparr>))"

definition charges_opt ::
  "(AccessEvents \<Rightarrow> ('a \<times> AccessEvents) option) \<Rightarrow> evm \<Rightarrow> ('a \<times> evm) option" where
  "charges_opt f w = do {
     ae \<leftarrow> accessEvents w;
     (x, ae) \<leftarrow> f ae;
     Some (x, w\<lparr>accessEvents := Some ae\<rparr>)
   }"

definition abort_Load :: "env \<Rightarrow> evm \<Rightarrow> bool \<times> evm" where
  "abort_Load E w = (aborts E (loads w), w\<lparr>loads := loads w + 1\<rparr>)"

text \<open>\<open>types.ParseDelegation\<close> and \<open>AddressToDelegation\<close> (EIP-7702).\<close>

definition DelegationPrefix :: bytes where
  "DelegationPrefix = [0xef, 0x01, 0x00]"

definition ParseDelegation :: "bytes \<Rightarrow> address option" where
  "ParseDelegation b =
     (if length b \<noteq> 23 \<or> \<not> prefix DelegationPrefix b then None
      else Some (be_word (drop (length DelegationPrefix) b)))"

definition AddressToDelegation :: "address \<Rightarrow> bytes" where
  "AddressToDelegation a = DelegationPrefix @ be_bytes 20 a"

lemma ParseDelegation_AddressToDelegation: "ParseDelegation (AddressToDelegation a) = Some a"
  by (simp add: ParseDelegation_def AddressToDelegation_def DelegationPrefix_def)

end
