(* ===== verification/VM_GasTable.thy ===== *)
theory VM_GasTable
  imports VM_Types
begin

text \<open>
  The dynamic gas functions of \<open>core/vm/gas_table.go\<close> and \<open>callGas\<close> of \<open>core/vm/gas.go\<close>. A gas
  function returns its cost and error with the state it changed: refunds and warmed addresses in
  the database, \<open>callGasTemp\<close>, the contract's gas and the memory's \<open>lastGasCost\<close>.
\<close>

definition callGas :: "bool \<Rightarrow> u64 \<Rightarrow> u64 \<Rightarrow> u256 \<Rightarrow> u64 \<times> vmerr option" where
  "callGas isEip150 availableGas base callCost =
     (let avail = availableGas - base;
          gas = avail - avail div 64
      in if isEip150 \<and> (\<not> IsUint64 callCost \<or> gas < Uint64 callCost) then (gas, None)
         else if \<not> IsUint64 callCost then (0, Some ErrGasUintOverflow)
         else (Uint64 callCost, None))"

section \<open>Copies, logs and hashes\<close>

definition memoryCopierGas :: "nat \<Rightarrow> gasFunc" where
  "memoryCopierGas stackpos E w c st m sz =
     (let ((gas, err), m) = memoryGasCost m sz in
      case err of
        Some e \<Rightarrow> gas_err 0 e w c m
      | None \<Rightarrow> do {
          x \<leftarrow> Back st stackpos;
          let (words, overflow) = Uint64WithOverflow x;
          if overflow then gas_err 0 ErrGasUintOverflow w c m
          else
            let (words, overflow) = SafeMul (toWordSize words) CopyGas in
            if overflow then gas_err 0 ErrGasUintOverflow w c m
            else
              let (gas, overflow) = SafeAdd gas words in
              if overflow then gas_err 0 ErrGasUintOverflow w c m
              else gas_ok gas w c m
        })"

definition gasCallDataCopy :: gasFunc where "gasCallDataCopy = memoryCopierGas 2"
definition gasCodeCopy :: gasFunc where "gasCodeCopy = memoryCopierGas 2"
definition gasMcopy :: gasFunc where "gasMcopy = memoryCopierGas 2"
definition gasExtCodeCopy :: gasFunc where "gasExtCodeCopy = memoryCopierGas 3"
definition gasReturnDataCopy :: gasFunc where "gasReturnDataCopy = memoryCopierGas 2"

definition makeGasLog :: "u64 \<Rightarrow> gasFunc" where
  "makeGasLog n E w c st m sz = do {
     x \<leftarrow> Back st 1;
     let (requestedSize, overflow) = Uint64WithOverflow x;
     if overflow then gas_err 0 ErrGasUintOverflow w c m
     else
       let ((gas, err), m) = memoryGasCost m sz in
       case err of
         Some e \<Rightarrow> gas_err 0 e w c m
       | None \<Rightarrow>
         let (gas, overflow) = SafeAdd gas LogGas in
         if overflow then gas_err 0 ErrGasUintOverflow w c m
         else
           let (gas, overflow) = SafeAdd gas (n * LogTopicGas) in
           if overflow then gas_err 0 ErrGasUintOverflow w c m
           else
             let (memorySizeGas, overflow) = SafeMul requestedSize LogDataGas in
             if overflow then gas_err 0 ErrGasUintOverflow w c m
             else
               let (gas, overflow) = SafeAdd gas memorySizeGas in
               if overflow then gas_err 0 ErrGasUintOverflow w c m
               else gas_ok gas w c m
   }"

text \<open>\<open>gasKeccak256\<close> and \<open>gasCreate2\<close> have the same body but for the stack position of the size.\<close>

definition gas_keccak_words :: "nat \<Rightarrow> gasFunc" where
  "gas_keccak_words pos E w c st m sz =
     (let ((gas, err), m) = memoryGasCost m sz in
      case err of
        Some e \<Rightarrow> gas_err 0 e w c m
      | None \<Rightarrow> do {
          x \<leftarrow> Back st pos;
          let (wordGas, overflow) = Uint64WithOverflow x;
          if overflow then gas_err 0 ErrGasUintOverflow w c m
          else
            let (wordGas, overflow) = SafeMul (toWordSize wordGas) Keccak256WordGas in
            if overflow then gas_err 0 ErrGasUintOverflow w c m
            else
              let (gas, overflow) = SafeAdd gas wordGas in
              if overflow then gas_err 0 ErrGasUintOverflow w c m
              else gas_ok gas w c m
        })"

definition gasKeccak256 :: gasFunc where "gasKeccak256 = gas_keccak_words 1"
definition gasCreate2 :: gasFunc where "gasCreate2 = gas_keccak_words 2"

definition pureMemoryGascost :: gasFunc where
  "pureMemoryGascost E w c st m sz =
     (let ((gas, err), m) = memoryGasCost m sz in Some ((gas, err), w, c, m))"

definition gasReturn :: gasFunc where "gasReturn = pureMemoryGascost"
definition gasRevert :: gasFunc where "gasRevert = pureMemoryGascost"
definition gasMLoad :: gasFunc where "gasMLoad = pureMemoryGascost"
definition gasMStore8 :: gasFunc where "gasMStore8 = pureMemoryGascost"
definition gasMStore :: gasFunc where "gasMStore = pureMemoryGascost"
definition gasCreate :: gasFunc where "gasCreate = pureMemoryGascost"

text \<open>\<open>gasCreateEip3860\<close> and \<open>gasCreate2Eip3860\<close> differ in the cost of a word of init code.\<close>

definition gas_initcode :: "u64 \<Rightarrow> gasFunc" where
  "gas_initcode perWord E w c st m sz =
     (let ((gas, err), m) = memoryGasCost m sz in
      case err of
        Some e \<Rightarrow> gas_err 0 e w c m
      | None \<Rightarrow> do {
          x \<leftarrow> Back st 2;
          let (size', overflow) = Uint64WithOverflow x;
          if overflow then gas_err 0 ErrGasUintOverflow w c m
          else if size' > of_nat MaxInitCodeSize
          then gas_err 0 (WrapSize ErrMaxInitCodeSizeExceeded size') w c m
          else
            let moreGas = perWord * ((size' + 31) div 32);
                (gas, overflow) = SafeAdd gas moreGas
            in if overflow then gas_err 0 ErrGasUintOverflow w c m
               else gas_ok gas w c m
        })"

definition gasCreateEip3860 :: gasFunc where "gasCreateEip3860 = gas_initcode InitCodeWordGas"
definition gasCreate2Eip3860 :: gasFunc where
  "gasCreate2Eip3860 = gas_initcode (InitCodeWordGas + Keccak256WordGas)"

definition gas_exp :: "u64 \<Rightarrow> gasFunc" where
  "gas_exp perByte E w c st m sz = do {
     x \<leftarrow> Back st 1;
     let expByteLen = (of_nat ((u_BitLen (eLib E) x + 7) div 8) :: u64);
     let gas = expByteLen * perByte;
     let (gas, overflow) = SafeAdd gas ExpGas;
     if overflow then gas_err 0 ErrGasUintOverflow w c m else gas_ok gas w c m
   }"

definition gasExpFrontier :: gasFunc where "gasExpFrontier = gas_exp ExpByteFrontier"
definition gasExpEIP158 :: gasFunc where "gasExpEIP158 = gas_exp ExpByteEIP158"

section \<open>Storage writes\<close>

text \<open>
  The refunds of a net-metered write: what (2.2.1) and (2.2.2) of the comments add to and remove
  from the refund counter. \<open>None\<close> is the panic of \<open>SubRefund\<close>.
\<close>

definition dirty_refunds ::
  "u64 \<Rightarrow> u64 \<Rightarrow> u64 \<Rightarrow> hash \<Rightarrow> hash \<Rightarrow> hash \<Rightarrow> StateDB \<Rightarrow> StateDB option" where
  "dirty_refunds clearRefund resetClearRefund resetRefund original current val s = do {
     s \<leftarrow> (if original \<noteq> 0 then
             if current = 0 then SubRefund s clearRefund
             else if val = 0 then Some (AddRefund s clearRefund)
             else Some s
           else Some s);
     Some (if original = val then
             if original = 0 then AddRefund s resetClearRefund else AddRefund s resetRefund
           else s)
   }"

definition gasSStore :: gasFunc where
  "gasSStore E w c st m sz = do {
     y \<leftarrow> Back st 1;
     x \<leftarrow> Back st 0;
     let (current, w) = reads (\<lambda>s. GetState s (caddress c) x) w;
     if IsPetersburg (chainRules E) \<or> \<not> IsConstantinople (chainRules E) then
       if current = 0 \<and> y \<noteq> 0 then gas_ok SstoreSetGas w c m
       else if current \<noteq> 0 \<and> y = 0 then
         gas_ok SstoreClearGas (writes (\<lambda>s. AddRefund s SstoreRefundGas) w) c m
       else gas_ok SstoreResetGas w c m
     else if current = y then gas_ok NetSstoreNoopGas w c m
     else
       let (original, w) = reads (\<lambda>s. GetCommittedState s (caddress c) x) w in
       if original = current then
         if original = 0 then gas_ok NetSstoreInitGas w c m
         else
           let w = (if y = 0 then writes (\<lambda>s. AddRefund s NetSstoreClearRefund) w else w)
           in gas_ok NetSstoreCleanGas w c m
       else do {
         s \<leftarrow> dirty_refunds NetSstoreClearRefund NetSstoreResetClearRefund NetSstoreResetRefund
                original current y (db w);
         gas_ok NetSstoreDirtyGas (w\<lparr>db := s\<rparr>) c m
       }
   }"

definition errSentry :: vmerr where
  "errSentry = ErrNew ''not enough gas for reentrancy sentry''"

definition gasSStoreEIP2200 :: gasFunc where
  "gasSStoreEIP2200 E w c st m sz =
     (if Gas c \<le> SstoreSentryGasEIP2200 then gas_err 0 errSentry w c m
      else do {
        y \<leftarrow> Back st 1;
        x \<leftarrow> Back st 0;
        let (current, w) = reads (\<lambda>s. GetState s (caddress c) x) w;
        if current = y then gas_ok SloadGasEIP2200 w c m
        else
          let (original, w) = reads (\<lambda>s. GetCommittedState s (caddress c) x) w in
          if original = current then
            if original = 0 then gas_ok SstoreSetGasEIP2200 w c m
            else
              let w = (if y = 0
                       then writes (\<lambda>s. AddRefund s SstoreClearsScheduleRefundEIP2200) w else w)
              in gas_ok SstoreResetGasEIP2200 w c m
          else do {
            s \<leftarrow> dirty_refunds SstoreClearsScheduleRefundEIP2200
                   (SstoreSetGasEIP2200 - SloadGasEIP2200) (SstoreResetGasEIP2200 - SloadGasEIP2200)
                   original current y (db w);
            gas_ok SloadGasEIP2200 (w\<lparr>db := s\<rparr>) c m
          }
      })"

section \<open>Calls and self-destruction\<close>

text \<open>
  The tail the call costs share: add the memory fee to the base, work out the gas to pass on
  (into \<open>callGasTemp\<close>) and add it too. The error of \<open>callGas\<close> still leaves \<open>callGasTemp\<close> at 0.
\<close>

definition call_tail :: "u64 \<Rightarrow> u64 \<Rightarrow> gasFunc" where
  "call_tail gas memoryGas E w c st m sz =
     (let (gas, overflow) = SafeAdd gas memoryGas in
      if overflow then gas_err 0 ErrGasUintOverflow w c m
      else do {
        callCost \<leftarrow> Back st 0;
        let (temp, err) = callGas (IsEIP150 (chainRules E)) (Gas c) gas callCost;
        let w = w\<lparr>callGasTemp := temp\<rparr>;
        case err of
          Some e \<Rightarrow> gas_err 0 e w c m
        | None \<Rightarrow>
          let (gas, overflow) = SafeAdd gas temp in
          if overflow then gas_err 0 ErrGasUintOverflow w c m
          else gas_ok gas w c m
      })"

definition gasCall :: gasFunc where
  "gasCall E w c st m sz = do {
     v \<leftarrow> Back st 2;
     let transfersValue = (v \<noteq> 0);
     a \<leftarrow> Back st 1;
     let address = Bytes20 a;
     let (newAccount, w) =
       (if IsEIP158 (chainRules E) then
          if transfersValue then reads (\<lambda>s. Empty s address) w else (False, w)
        else let (ex, w) = reads (\<lambda>s. Exist s address) w in (\<not> ex, w));
     let gas = (if newAccount then CallNewAccountGas else 0);
     let gas = (if transfersValue \<and> \<not> IsEIP4762 (chainRules E) then gas + CallValueTransferGas else gas);
     let ((memoryGas, err), m) = memoryGasCost m sz;
     case err of
       Some e \<Rightarrow> gas_err 0 e w c m
     | None \<Rightarrow> call_tail gas memoryGas E w c st m sz
   }"

definition gasCallCode :: gasFunc where
  "gasCallCode E w c st m sz =
     (let ((memoryGas, err), m) = memoryGasCost m sz in
      case err of
        Some e \<Rightarrow> gas_err 0 e w c m
      | None \<Rightarrow> do {
          v \<leftarrow> Back st 2;
          let gas = (if v \<noteq> 0 \<and> \<not> IsEIP4762 (chainRules E) then CallValueTransferGas else 0);
          call_tail gas memoryGas E w c st m sz
        })"

definition gasDelegateCall :: gasFunc where
  "gasDelegateCall E w c st m sz =
     (let ((gas, err), m) = memoryGasCost m sz in
      case err of
        Some e \<Rightarrow> gas_err 0 e w c m
      | None \<Rightarrow> call_tail gas 0 E w c st m sz)"

definition gasStaticCall :: gasFunc where
  "gasStaticCall E w c st m sz =
     (let ((gas, err), m) = memoryGasCost m sz in
      case err of
        Some e \<Rightarrow> gas_err 0 e w c m
      | None \<Rightarrow> call_tail gas 0 E w c st m sz)"

definition gasSelfdestruct :: gasFunc where
  "gasSelfdestruct E w c st m sz = do {
     (gas, w) \<leftarrow>
       (if IsEIP150 (chainRules E) then do {
          a \<leftarrow> Back st 0;
          let address = Bytes20 a;
          let (create, w) =
            (if IsEIP158 (chainRules E) then
               let (empty, w) = reads (\<lambda>s. Empty s address) w in
               if empty then
                 let (bal, w) = reads (\<lambda>s. GetBalance s (caddress c)) w in (bal \<noteq> 0, w)
               else (False, w)
             else let (ex, w) = reads (\<lambda>s. Exist s address) w in (\<not> ex, w));
          Some (if create then SelfdestructGasEIP150 + CreateBySelfdestructGas else SelfdestructGasEIP150, w)
        }
        else Some (0, w));
     let (destructed, w) = reads (\<lambda>s. HasSelfDestructed s (caddress c)) w;
     let w = (if \<not> destructed then writes (\<lambda>s. AddRefund s SelfdestructRefundGas) w else w);
     gas_ok gas w c m
   }"

text \<open>The EOF costs are not implemented: they panic.\<close>

definition gasExtCall :: gasFunc where "gasExtCall E w c st m sz = None"
definition gasExtDelegateCall :: gasFunc where "gasExtDelegateCall E w c st m sz = None"
definition gasExtStaticCall :: gasFunc where "gasExtStaticCall E w c st m sz = None"
definition gasEOFCreate :: gasFunc where "gasEOFCreate E w c st m sz = None"

end
