(* ===== verification/VM_GasAcl.thy ===== *)
theory VM_GasAcl
  imports VM_GasTable
begin

text \<open>
  The gas functions of the access-list forks (\<open>core/vm/operations_acl.go\<close>: EIP-2929, EIP-3529,
  EIP-7702) and of the Verkle fork (\<open>core/vm/operations_verkle.go\<close>: EIP-4762).
\<close>

section \<open>EIP-2929 and EIP-3529\<close>

definition makeGasSStoreFunc :: "u64 \<Rightarrow> gasFunc" where
  "makeGasSStoreFunc clearingRefund E w c st m sz =
     (if Gas c \<le> SstoreSentryGasEIP2200 then gas_err 0 errSentry w c m
      else do {
        y \<leftarrow> Back st 1;
        x \<leftarrow> peek st;
        let slot = x;
        let (current, w) = reads (\<lambda>s. GetState s (caddress c) slot) w;
        (_, slotPresent) \<leftarrow> SlotInAccessList (db w) (caddress c) slot;
        (cost, w) \<leftarrow> (if \<not> slotPresent then do {
                        s \<leftarrow> AddSlotToAccessList (db w) (caddress c) slot;
                        Some (ColdSloadCostEIP2929, w\<lparr>db := s\<rparr>)
                      } else Some (0, w));
        if current = y then gas_ok (cost + WarmStorageReadCostEIP2929) w c m
        else
          let (original, w) = reads (\<lambda>s. GetCommittedState s (caddress c) x) w in
          if original = current then
            if original = 0 then gas_ok (cost + SstoreSetGasEIP2200) w c m
            else
              let w = (if y = 0 then writes (\<lambda>s. AddRefund s clearingRefund) w else w)
              in gas_ok (cost + (SstoreResetGasEIP2200 - ColdSloadCostEIP2929)) w c m
          else do {
            s \<leftarrow> dirty_refunds clearingRefund (SstoreSetGasEIP2200 - WarmStorageReadCostEIP2929)
                   (SstoreResetGasEIP2200 - ColdSloadCostEIP2929 - WarmStorageReadCostEIP2929)
                   original current y (db w);
            gas_ok (cost + WarmStorageReadCostEIP2929) (w\<lparr>db := s\<rparr>) c m
          }
      })"

definition gasSLoadEIP2929 :: gasFunc where
  "gasSLoadEIP2929 E w c st m sz = do {
     slot \<leftarrow> peek st;
     (_, slotPresent) \<leftarrow> SlotInAccessList (db w) (caddress c) slot;
     if \<not> slotPresent then do {
       s \<leftarrow> AddSlotToAccessList (db w) (caddress c) slot;
       gas_ok ColdSloadCostEIP2929 (w\<lparr>db := s\<rparr>) c m
     }
     else gas_ok WarmStorageReadCostEIP2929 w c m
   }"

definition gasExtCodeCopyEIP2929 :: gasFunc where
  "gasExtCodeCopyEIP2929 E w c st m sz = do {
     ((gas, err), w, c, m) \<leftarrow> gasExtCodeCopy E w c st m sz;
     case err of
       Some e \<Rightarrow> gas_err 0 e w c m
     | None \<Rightarrow> do {
         a \<leftarrow> peek st;
         let addr = Bytes20 a;
         if \<not> AddressInAccessList (db w) addr then
           let w = writes (\<lambda>s. AddAddressToAccessList s addr) w;
               (gas, overflow) = SafeAdd gas (ColdAccountAccessCostEIP2929 - WarmStorageReadCostEIP2929)
           in if overflow then gas_err 0 ErrGasUintOverflow w c m else gas_ok gas w c m
         else gas_ok gas w c m
       }
   }"

definition gasEip2929AccountCheck :: gasFunc where
  "gasEip2929AccountCheck E w c st m sz = do {
     a \<leftarrow> peek st;
     let addr = Bytes20 a;
     if \<not> AddressInAccessList (db w) addr then
       gas_ok (ColdAccountAccessCostEIP2929 - WarmStorageReadCostEIP2929)
         (writes (\<lambda>s. AddAddressToAccessList s addr) w) c m
     else gas_ok 0 w c m
   }"

definition makeCallVariantGasCallEIP2929 :: "gasFunc \<Rightarrow> nat \<Rightarrow> gasFunc" where
  "makeCallVariantGasCallEIP2929 oldCalculator addressPosition E w c st m sz = do {
     a \<leftarrow> Back st addressPosition;
     let addr = Bytes20 a;
     let warmAccess = AddressInAccessList (db w) addr;
     let coldCost = ColdAccountAccessCostEIP2929 - WarmStorageReadCostEIP2929;
     let w = (if \<not> warmAccess then writes (\<lambda>s. AddAddressToAccessList s addr) w else w);
     let (paid, c) = (if \<not> warmAccess then UseGas c coldCost else (True, c));
     if \<not> paid then gas_err 0 ErrOutOfGas w c m
     else do {
       ((gas, err), w, c, m) \<leftarrow> oldCalculator E w c st m sz;
       if warmAccess \<or> err \<noteq> None then Some ((gas, err), w, c, m)
       else
         let c = c\<lparr>Gas := Gas c + coldCost\<rparr>;
             (gas, overflow) = SafeAdd gas coldCost
         in if overflow then gas_err 0 ErrGasUintOverflow w c m else gas_ok gas w c m
     }
   }"

definition makeSelfdestructGasFn :: "bool \<Rightarrow> gasFunc" where
  "makeSelfdestructGasFn refundsEnabled E w c st m sz = do {
     a \<leftarrow> peek st;
     let address = Bytes20 a;
     let (gas, w) =
       (if \<not> AddressInAccessList (db w) address
        then (ColdAccountAccessCostEIP2929, writes (\<lambda>s. AddAddressToAccessList s address) w)
        else (0, w));
     let (empty, w) = reads (\<lambda>s. Empty s address) w;
     let (create, w) =
       (if empty then let (bal, w) = reads (\<lambda>s. GetBalance s (caddress c)) w in (bal \<noteq> 0, w)
        else (False, w));
     let gas = (if create then gas + CreateBySelfdestructGas else gas);
     let (destructed, w) =
       (if refundsEnabled then reads (\<lambda>s. HasSelfDestructed s (caddress c)) w else (True, w));
     let w = (if \<not> destructed then writes (\<lambda>s. AddRefund s SelfdestructRefundGas) w else w);
     gas_ok gas w c m
   }"

definition gasCallEIP2929 :: gasFunc where "gasCallEIP2929 = makeCallVariantGasCallEIP2929 gasCall 1"
definition gasDelegateCallEIP2929 :: gasFunc where
  "gasDelegateCallEIP2929 = makeCallVariantGasCallEIP2929 gasDelegateCall 1"
definition gasStaticCallEIP2929 :: gasFunc where
  "gasStaticCallEIP2929 = makeCallVariantGasCallEIP2929 gasStaticCall 1"
definition gasCallCodeEIP2929 :: gasFunc where
  "gasCallCodeEIP2929 = makeCallVariantGasCallEIP2929 gasCallCode 1"
definition gasSelfdestructEIP2929 :: gasFunc where "gasSelfdestructEIP2929 = makeSelfdestructGasFn True"
definition gasSelfdestructEIP3529 :: gasFunc where "gasSelfdestructEIP3529 = makeSelfdestructGasFn False"
definition gasSStoreEIP2929 :: gasFunc where
  "gasSStoreEIP2929 = makeGasSStoreFunc SstoreClearsScheduleRefundEIP2200"
definition gasSStoreEIP3529 :: gasFunc where
  "gasSStoreEIP3529 = makeGasSStoreFunc SstoreClearsScheduleRefundEIP3529"

section \<open>EIP-7702\<close>

definition makeCallVariantGasCallEIP7702 :: "gasFunc \<Rightarrow> gasFunc" where
  "makeCallVariantGasCallEIP7702 oldCalculator E w c st m sz = do {
     a \<leftarrow> Back st 1;
     let addr = Bytes20 a;
     let coldCost = ColdAccountAccessCostEIP2929 - WarmStorageReadCostEIP2929;
     let cold = (\<not> AddressInAccessList (db w) addr);
     let w = (if cold then writes (\<lambda>s. AddAddressToAccessList s addr) w else w);
     let (paid, c) = (if cold then UseGas c coldCost else (True, c));
     let total = (if cold then coldCost else 0);
     if \<not> paid then gas_err 0 ErrOutOfGas w c m
     else
       let (code, w) = reads (\<lambda>s. GetCode s addr) w;
           (cost, w) =
             (case ParseDelegation code of
                None \<Rightarrow> (0, w)
              | Some target \<Rightarrow>
                  if AddressInAccessList (db w) target then (WarmStorageReadCostEIP2929, w)
                  else (ColdAccountAccessCostEIP2929, writes (\<lambda>s. AddAddressToAccessList s target) w));
           (paid, c) = (if ParseDelegation code \<noteq> None then UseGas c cost else (True, c))
       in
         if \<not> paid then gas_err 0 ErrOutOfGas w c m
         else do {
           let total = total + cost;
           ((old, err), w, c, m) \<leftarrow> oldCalculator E w c st m sz;
           case err of
             Some e \<Rightarrow> gas_err old e w c m
           | None \<Rightarrow>
             let c = c\<lparr>Gas := Gas c + total\<rparr>;
                 (total, overflow) = SafeAdd old total
             in if overflow then gas_err 0 ErrGasUintOverflow w c m else gas_ok total w c m
         }
   }"

definition gasCallEIP7702 :: gasFunc where "gasCallEIP7702 = makeCallVariantGasCallEIP7702 gasCall"
definition gasDelegateCallEIP7702 :: gasFunc where
  "gasDelegateCallEIP7702 = makeCallVariantGasCallEIP7702 gasDelegateCall"
definition gasStaticCallEIP7702 :: gasFunc where
  "gasStaticCallEIP7702 = makeCallVariantGasCallEIP7702 gasStaticCall"
definition gasCallCodeEIP7702 :: gasFunc where
  "gasCallCodeEIP7702 = makeCallVariantGasCallEIP7702 gasCallCode"

section \<open>EIP-4762\<close>

definition isPrecompile :: "env \<Rightarrow> address \<Rightarrow> bool" where
  "isPrecompile E a = (precompiles E a \<noteq> None)"

definition gasSStore4762 :: gasFunc where
  "gasSStore4762 E w c st m sz = do {
     x \<leftarrow> peek st;
     (g, w) \<leftarrow> charges (\<lambda>ae. SlotGas ae (caddress c) x True (Gas c) True) w;
     gas_ok g w c m
   }"

definition gasSLoad4762 :: gasFunc where
  "gasSLoad4762 E w c st m sz = do {
     x \<leftarrow> peek st;
     (g, w) \<leftarrow> charges (\<lambda>ae. SlotGas ae (caddress c) x False (Gas c) True) w;
     gas_ok g w c m
   }"

definition gasBalance4762 :: gasFunc where
  "gasBalance4762 E w c st m sz = do {
     a \<leftarrow> peek st;
     (g, w) \<leftarrow> charges (\<lambda>ae. BasicDataGas ae (Bytes20 a) False (Gas c) True) w;
     gas_ok g w c m
   }"

definition gasExtCodeSize4762 :: gasFunc where
  "gasExtCodeSize4762 E w c st m sz = do {
     a \<leftarrow> peek st;
     if isPrecompile E (Bytes20 a) then gas_ok 0 w c m
     else do {
       (g, w) \<leftarrow> charges (\<lambda>ae. BasicDataGas ae (Bytes20 a) False (Gas c) True) w;
       gas_ok g w c m
     }
   }"

definition gasExtCodeHash4762 :: gasFunc where
  "gasExtCodeHash4762 E w c st m sz = do {
     a \<leftarrow> peek st;
     if isPrecompile E (Bytes20 a) then gas_ok 0 w c m
     else do {
       (g, w) \<leftarrow> charges (\<lambda>ae. CodeHashGas ae (Bytes20 a) False (Gas c) True) w;
       gas_ok g w c m
     }
   }"

definition makeCallVariantGasEIP4762 :: "gasFunc \<Rightarrow> bool \<Rightarrow> gasFunc" where
  "makeCallVariantGasEIP4762 oldCalculator withTransferCosts E w c st m sz = do {
     a \<leftarrow> Back st 1;
     let target = Bytes20 a;
     transfers \<leftarrow> (if withTransferCosts then do { v \<leftarrow> Back st 2; Some (v \<noteq> 0) } else Some False);
     (witnessGas, stop, overflow, w) \<leftarrow>
       (if transfers then do {
          (wanted, w) \<leftarrow> charges (\<lambda>ae. ValueTransferGas ae (caddress c) target (Gas c)) w;
          Some (wanted, wanted > Gas c, False, w)
        }
        else if isPrecompile E target \<or> target = HistoryStorageAddress then
          Some (WarmStorageReadCostEIP2929, False, False, w)
        else do {
          (wanted, w) \<leftarrow> charges (\<lambda>ae. MessageCallGas ae target (Gas c - 0)) w;
          let (g, overflow) = SafeAdd 0 wanted;
          Some (g, g > Gas c, overflow, w)
        });
     if overflow then gas_err 0 ErrGasUintOverflow w c m
     else if stop then gas_ok witnessGas w c m
     else do {
       ((gas, err), w, c, m) \<leftarrow> oldCalculator E w (c\<lparr>Gas := Gas c - witnessGas\<rparr>) st m sz;
       let c = c\<lparr>Gas := Gas c + witnessGas\<rparr>;
       let (gas, overflow) = SafeAdd gas witnessGas;
       if overflow then gas_err 0 ErrGasUintOverflow w c m else Some ((gas, err), w, c, m)
     }
   }"

definition gasCallEIP4762 :: gasFunc where "gasCallEIP4762 = makeCallVariantGasEIP4762 gasCall True"
definition gasCallCodeEIP4762 :: gasFunc where
  "gasCallCodeEIP4762 = makeCallVariantGasEIP4762 gasCallCode False"
definition gasStaticCallEIP4762 :: gasFunc where
  "gasStaticCallEIP4762 = makeCallVariantGasEIP4762 gasStaticCall False"
definition gasDelegateCallEIP4762 :: gasFunc where
  "gasDelegateCallEIP4762 = makeCallVariantGasEIP4762 gasDelegateCall False"

definition gasSelfdestructEIP4762 :: gasFunc where
  "gasSelfdestructEIP4762 E w c st m sz = do {
     b \<leftarrow> peek st;
     let beneficiaryAddr = Bytes20 b;
     if isPrecompile E beneficiaryAddr \<or> IsSystemCall c then gas_ok 0 w c m
     else do {
       let contractAddr = caddress c;
       (wanted, w) \<leftarrow> charges (\<lambda>ae. BasicDataGas ae contractAddr False (Gas c) False) w;
       if wanted > Gas c then gas_ok wanted w c m
       else do {
         let statelessGas = wanted;
         let (balance, w) = reads (\<lambda>s. GetBalance s contractAddr) w;
         let balanceIsZero = (balance = 0);
         let isSystemContract = (beneficiaryAddr = HistoryStorageAddress);
         if (isPrecompile E beneficiaryAddr \<or> isSystemContract) \<and> balanceIsZero
         then gas_ok statelessGas w c m
         else do {
           (wanted, w) \<leftarrow>
             (if contractAddr \<noteq> beneficiaryAddr
              then charges (\<lambda>ae. BasicDataGas ae beneficiaryAddr False (Gas c - statelessGas) False) w
              else Some (0, w));
           if wanted > Gas c - statelessGas then gas_ok (statelessGas + wanted) w c m
           else do {
             let statelessGas = statelessGas + wanted;
             if balanceIsZero then gas_ok statelessGas w c m
             else do {
               (wanted, w) \<leftarrow> charges (\<lambda>ae. BasicDataGas ae contractAddr True (Gas c - statelessGas) False) w;
               if wanted > Gas c - statelessGas then gas_ok (statelessGas + wanted) w c m
               else do {
                 let statelessGas = statelessGas + wanted;
                 if contractAddr = beneficiaryAddr then gas_ok statelessGas w c m
                 else do {
                   let (ex, w) = reads (\<lambda>s. Exist s beneficiaryAddr) w;
                   (wanted, w) \<leftarrow>
                     (if ex
                      then charges (\<lambda>ae. BasicDataGas ae beneficiaryAddr True (Gas c - statelessGas) False) w
                      else charges (\<lambda>ae. AddAccount ae beneficiaryAddr True (Gas c - statelessGas)) w);
                   gas_ok (statelessGas + wanted) w c m
                 }
               }
             }
           }
         }
       }
     }
   }"

definition gasCodeCopyEip4762 :: gasFunc where
  "gasCodeCopyEip4762 E w c st m sz = do {
     ((gas, err), w, c, m) \<leftarrow> gasCodeCopy E w c st m sz;
     case err of
       Some e \<Rightarrow> gas_err 0 e w c m
     | None \<Rightarrow>
       if \<not> IsDeployment c \<and> \<not> IsSystemCall c then do {
         codeOffset \<leftarrow> Back st 1;
         len \<leftarrow> Back st 2;
         let (off, overflow) = Uint64WithOverflow codeOffset;
         let off = (if overflow then MaxUint64 else off);
         (_, copyOffset, nonPaddedCopyLength) \<leftarrow> getDataAndAdjustedBounds (Code c) off (Uint64 len);
         ((_, wanted), w) \<leftarrow>
           charges_opt (\<lambda>ae. CodeChunksRangeGas ae (caddress c) copyOffset nonPaddedCopyLength
                              (of_nat (length (Code c))) False (Gas c - gas)) w;
         gas_ok (gas + wanted) w c m
       }
       else gas_ok gas w c m
   }"

definition gasExtCodeCopyEIP4762 :: gasFunc where
  "gasExtCodeCopyEIP4762 E w c st m sz = do {
     ((gas, err), w, c, m) \<leftarrow> gasExtCodeCopy E w c st m sz;
     case err of
       Some e \<Rightarrow> gas_err 0 e w c m
     | None \<Rightarrow> do {
         a \<leftarrow> peek st;
         let addr = Bytes20 a;
         (wgas, w) \<leftarrow>
           (if isPrecompile E addr \<or> addr = HistoryStorageAddress then Some (WarmStorageReadCostEIP2929, w)
            else charges (\<lambda>ae. BasicDataGas ae addr False (Gas c - gas) True) w);
         let (gas, overflow) = SafeAdd gas wgas;
         if overflow then gas_err 0 ErrGasUintOverflow w c m else gas_ok gas w c m
       }
   }"

end
