(* ===== verification/VM_Instructions.thy ===== *)
theory VM_Instructions
  imports VM_GasAcl
begin

text \<open>
  The instruction handlers of \<open>core/vm/instructions.go\<close>. A handler takes the program counter, the
  EVM and the scope and returns the result and error with all three updated. \<open>None\<close> is a panic: a
  pop from an empty stack, an access beyond the memory, a nil block field.
\<close>

named_theorems op_defs \<open>definitions of the handlers\<close>

section \<open>Shapes of handlers\<close>

text \<open>
  Most handlers pop some operands and write through the pointer that \<open>peek\<close> returns, or push one
  value; they differ in the value only.
\<close>

definition unop :: "(env \<Rightarrow> u256 \<Rightarrow> u256) \<Rightarrow> executionFunc" where
  "unop f E k pc w sc = do {
     x \<leftarrow> peek (Stk sc);
     ok pc w (sc\<lparr>Stk := set_top (Stk sc) (f E x)\<rparr>)
   }"

definition binop :: "(env \<Rightarrow> u256 \<Rightarrow> u256 \<Rightarrow> u256) \<Rightarrow> executionFunc" where
  "binop f E k pc w sc = do {
     (x, st) \<leftarrow> pop (Stk sc);
     y \<leftarrow> peek st;
     ok pc w (sc\<lparr>Stk := set_top st (f E x y)\<rparr>)
   }"

definition ternop :: "(env \<Rightarrow> u256 \<Rightarrow> u256 \<Rightarrow> u256 \<Rightarrow> u256) \<Rightarrow> executionFunc" where
  "ternop f E k pc w sc = do {
     (x, st) \<leftarrow> pop (Stk sc);
     (y, st) \<leftarrow> pop st;
     z \<leftarrow> peek st;
     ok pc w (sc\<lparr>Stk := set_top st (f E x y z)\<rparr>)
   }"

definition pushop :: "(env \<Rightarrow> u64 \<Rightarrow> evm \<Rightarrow> scope \<Rightarrow> u256 option) \<Rightarrow> executionFunc" where
  "pushop f E k pc w sc = do {
     v \<leftarrow> f E pc w sc;
     ok pc w (sc\<lparr>Stk := push (Stk sc) v\<rparr>)
   }"

text \<open>A handler that replaces the top of the stack by something read from the database.\<close>

definition readop :: "(u256 \<Rightarrow> scope \<Rightarrow> StateDB \<Rightarrow> u256 \<times> StateDB) \<Rightarrow> executionFunc" where
  "readop f E k pc w sc = do {
     x \<leftarrow> peek (Stk sc);
     let (v, w) = reads (f x sc) w;
     ok pc w (sc\<lparr>Stk := set_top (Stk sc) v\<rparr>)
   }"

definition flag :: "bool \<Rightarrow> u256" where
  "flag b = (if b then 1 else 0)"

section \<open>Arithmetic, comparison and bitwise logic\<close>

definition opAdd :: executionFunc where [op_defs]: "opAdd = binop (\<lambda>E x y. x + y)"
definition opSub :: executionFunc where [op_defs]: "opSub = binop (\<lambda>E x y. x - y)"
definition opMul :: executionFunc where [op_defs]: "opMul = binop (\<lambda>E x y. x * y)"
definition opDiv :: executionFunc where [op_defs]: "opDiv = binop (\<lambda>E x y. u_Div (eLib E) x y)"
definition opSdiv :: executionFunc where [op_defs]: "opSdiv = binop (\<lambda>E x y. u_SDiv (eLib E) x y)"
definition opMod :: executionFunc where [op_defs]: "opMod = binop (\<lambda>E x y. u_Mod (eLib E) x y)"
definition opSmod :: executionFunc where [op_defs]: "opSmod = binop (\<lambda>E x y. u_SMod (eLib E) x y)"
definition opExp :: executionFunc where
  [op_defs]: "opExp = binop (\<lambda>E base exponent. u_Exp (eLib E) base exponent)"
definition opSignExtend :: executionFunc where
  [op_defs]: "opSignExtend = binop (\<lambda>E back num. u_ExtendSign (eLib E) num back)"
definition opNot :: executionFunc where [op_defs]: "opNot = unop (\<lambda>E x. not x)"
definition opLt :: executionFunc where [op_defs]: "opLt = binop (\<lambda>E x y. flag (x < y))"
definition opGt :: executionFunc where [op_defs]: "opGt = binop (\<lambda>E x y. flag (x > y))"
definition opSlt :: executionFunc where [op_defs]: "opSlt = binop (\<lambda>E x y. flag (sint x < sint y))"
definition opSgt :: executionFunc where [op_defs]: "opSgt = binop (\<lambda>E x y. flag (sint x > sint y))"
definition opEq :: executionFunc where [op_defs]: "opEq = binop (\<lambda>E x y. flag (x = y))"
definition opIszero :: executionFunc where [op_defs]: "opIszero = unop (\<lambda>E x. flag (x = 0))"
definition opAnd :: executionFunc where [op_defs]: "opAnd = binop (\<lambda>E x y. and x y)"
definition opOr :: executionFunc where [op_defs]: "opOr = binop (\<lambda>E x y. or x y)"
definition opXor :: executionFunc where [op_defs]: "opXor = binop (\<lambda>E x y. xor x y)"
definition opByte :: executionFunc where
  [op_defs]: "opByte = binop (\<lambda>E th val. u_Byte (eLib E) val th)"
definition opAddmod :: executionFunc where
  [op_defs]: "opAddmod = ternop (\<lambda>E x y z. u_AddMod (eLib E) x y z)"
definition opMulmod :: executionFunc where
  [op_defs]: "opMulmod = ternop (\<lambda>E x y z. u_MulMod (eLib E) x y z)"

definition opSHL :: executionFunc where
  [op_defs]: "opSHL = binop (\<lambda>E shift val. if shift < 256 then push_bit (unat (Uint64 shift)) val else 0)"

definition opSHR :: executionFunc where
  [op_defs]: "opSHR = binop (\<lambda>E shift val. if shift < 256 then drop_bit (unat (Uint64 shift)) val else 0)"

definition opSAR :: executionFunc where
  [op_defs]: "opSAR = binop (\<lambda>E shift val.
     if shift > 256 then (if sint val \<ge> 0 then 0 else - 1)
     else u_SRsh (eLib E) val (unat (Uint64 shift)))"

section \<open>Environment\<close>

definition opKeccak256 :: executionFunc where
  "opKeccak256 E k pc w sc = do {
     (offset, st) \<leftarrow> pop (Stk sc);
     sz \<leftarrow> peek st;
     bs \<leftarrow> mem_GetPtr (Mem sc) (Uint64 offset) (Uint64 sz);
     let h = keccak E bs;
     let w = (if EnablePreimageRecording E then writes (\<lambda>s. AddPreimage s h bs) w else w);
     ok pc w (sc\<lparr>Stk := set_top st h\<rparr>)
   }"

definition opAddress :: executionFunc where
  [op_defs]: "opAddress = pushop (\<lambda>E pc w sc. Some (FromAddress (caddress (Con sc))))"

definition opBalance :: executionFunc where
  [op_defs]: "opBalance = readop (\<lambda>slot sc s. GetBalance s (Bytes20 slot))"

definition opOrigin :: executionFunc where
  [op_defs]: "opOrigin = pushop (\<lambda>E pc w sc. Some (FromAddress (Origin E)))"

definition opCaller :: executionFunc where
  [op_defs]: "opCaller = pushop (\<lambda>E pc w sc. Some (FromAddress (ccaller (Con sc))))"

definition opCallValue :: executionFunc where
  [op_defs]: "opCallValue = pushop (\<lambda>E pc w sc. Some (cvalue (Con sc)))"

definition opCallDataLoad :: executionFunc where
  "opCallDataLoad E k pc w sc = do {
     x \<leftarrow> peek (Stk sc);
     let (offset, overflow) = Uint64WithOverflow x;
     v \<leftarrow> (if \<not> overflow then do { bs \<leftarrow> getData (Input (Con sc)) offset 32; Some (be_word bs) }
           else Some 0);
     ok pc w (sc\<lparr>Stk := set_top (Stk sc) v\<rparr>)
   }"

definition opCallDataSize :: executionFunc where
  [op_defs]: "opCallDataSize = pushop (\<lambda>E pc w sc. Some (SetUint64 (of_nat (length (Input (Con sc))))))"

text \<open>The copies into memory: a window of \<open>src\<close>, padded with zeroes.\<close>

definition copy_window :: "bytes \<Rightarrow> u256 \<Rightarrow> u256 \<Rightarrow> u256 \<Rightarrow> Memory \<Rightarrow> Memory option" where
  "copy_window src memOffset dataOffset len m = do {
     let (off, overflow) = Uint64WithOverflow dataOffset;
     let off = (if overflow then MaxUint64 else off);
     chunk \<leftarrow> getData src off (Uint64 len);
     mem_Set m (Uint64 memOffset) (Uint64 len) chunk
   }"

definition opCallDataCopy :: executionFunc where
  "opCallDataCopy E k pc w sc = do {
     (memOffset, st) \<leftarrow> pop (Stk sc);
     (dataOffset, st) \<leftarrow> pop st;
     (len, st) \<leftarrow> pop st;
     m \<leftarrow> copy_window (Input (Con sc)) memOffset dataOffset len (Mem sc);
     ok pc w (sc\<lparr>Stk := st, Mem := m\<rparr>)
   }"

definition opReturnDataSize :: executionFunc where
  [op_defs]: "opReturnDataSize = pushop (\<lambda>E pc w sc. Some (SetUint64 (of_nat (length (returnData w)))))"

definition opReturnDataCopy :: executionFunc where
  "opReturnDataCopy E k pc w sc = do {
     (memOffset, st) \<leftarrow> pop (Stk sc);
     (dataOffset, st) \<leftarrow> pop st;
     (len, st) \<leftarrow> pop st;
     let sc = sc\<lparr>Stk := st\<rparr>;
     let (offset64, overflow) = Uint64WithOverflow dataOffset;
     if overflow then fail ErrReturnDataOutOfBounds pc w sc
     else
       let (end64, overflow) = Uint64WithOverflow (dataOffset + len) in
       if overflow \<or> of_nat (length (returnData w)) < end64 then fail ErrReturnDataOutOfBounds pc w sc
       else do {
         chunk \<leftarrow> go_slice (returnData w) (unat offset64) (unat end64);
         m \<leftarrow> mem_Set (Mem sc) (Uint64 memOffset) (Uint64 len) chunk;
         ok pc w (sc\<lparr>Mem := m\<rparr>)
       }
   }"

definition opExtCodeSize :: executionFunc where
  [op_defs]: "opExtCodeSize = readop (\<lambda>slot sc s.
     let (n, s) = GetCodeSize s (Bytes20 slot) in (SetUint64 (of_nat n), s))"

definition opCodeSize :: executionFunc where
  [op_defs]: "opCodeSize = pushop (\<lambda>E pc w sc. Some (SetUint64 (of_nat (length (Code (Con sc))))))"

definition opCodeCopy :: executionFunc where
  "opCodeCopy E k pc w sc = do {
     (memOffset, st) \<leftarrow> pop (Stk sc);
     (codeOffset, st) \<leftarrow> pop st;
     (len, st) \<leftarrow> pop st;
     m \<leftarrow> copy_window (Code (Con sc)) memOffset codeOffset len (Mem sc);
     ok pc w (sc\<lparr>Stk := st, Mem := m\<rparr>)
   }"

definition opExtCodeCopy :: executionFunc where
  "opExtCodeCopy E k pc w sc = do {
     (a, st) \<leftarrow> pop (Stk sc);
     (memOffset, st) \<leftarrow> pop st;
     (codeOffset, st) \<leftarrow> pop st;
     (len, st) \<leftarrow> pop st;
     let (code, w) = reads (\<lambda>s. GetCode s (Bytes20 a)) w;
     m \<leftarrow> copy_window code memOffset codeOffset len (Mem sc);
     ok pc w (sc\<lparr>Stk := st, Mem := m\<rparr>)
   }"

definition opExtCodeHash :: executionFunc where
  [op_defs]: "opExtCodeHash = readop (\<lambda>slot sc s.
     let (empty, s) = Empty s (Bytes20 slot) in
     if empty then (0, s) else GetCodeHash s (Bytes20 slot))"

definition opGasprice :: executionFunc where
  [op_defs]: "opGasprice = pushop (\<lambda>E pc w sc. FromBig (GasPrice E))"

definition opBlockhash :: executionFunc where
  [op_defs]: "opBlockhash = unop (\<lambda>E num.
     let (num64, overflow) = Uint64WithOverflow num in
     if overflow then 0
     else
       let upper = big_Uint64 (BlockNumber E);
           lower = (if upper < 257 then 0 else upper - 256)
       in if num64 \<ge> lower \<and> num64 < upper then GetHash E num64 else 0)"

definition opCoinbase :: executionFunc where
  [op_defs]: "opCoinbase = pushop (\<lambda>E pc w sc. Some (FromAddress (Coinbase E)))"
definition opTimestamp :: executionFunc where
  [op_defs]: "opTimestamp = pushop (\<lambda>E pc w sc. Some (SetUint64 (Time E)))"
definition opNumber :: executionFunc where
  [op_defs]: "opNumber = pushop (\<lambda>E pc w sc. FromBig (Some (BlockNumber E)))"
definition opDifficulty :: executionFunc where
  [op_defs]: "opDifficulty = pushop (\<lambda>E pc w sc. FromBig (Difficulty E))"
definition opRandom :: executionFunc where
  [op_defs]: "opRandom = pushop (\<lambda>E pc w sc. Random E)"
definition opGasLimit :: executionFunc where
  [op_defs]: "opGasLimit = pushop (\<lambda>E pc w sc. Some (SetUint64 (GasLimit E)))"

section \<open>Stack, memory, storage and control flow\<close>

definition opPop :: executionFunc where
  "opPop E k pc w sc = do { (_, st) \<leftarrow> pop (Stk sc); ok pc w (sc\<lparr>Stk := st\<rparr>) }"

definition opMload :: executionFunc where
  "opMload E k pc w sc = do {
     v \<leftarrow> peek (Stk sc);
     bs \<leftarrow> mem_GetPtr (Mem sc) (Uint64 v) 32;
     ok pc w (sc\<lparr>Stk := set_top (Stk sc) (be_word bs)\<rparr>)
   }"

definition opMstore :: executionFunc where
  "opMstore E k pc w sc = do {
     (mStart, st) \<leftarrow> pop (Stk sc);
     (val, st) \<leftarrow> pop st;
     m \<leftarrow> mem_Set32 (Mem sc) (Uint64 mStart) val;
     ok pc w (sc\<lparr>Stk := st, Mem := m\<rparr>)
   }"

definition opMstore8 :: executionFunc where
  "opMstore8 E k pc w sc = do {
     (off, st) \<leftarrow> pop (Stk sc);
     (val, st) \<leftarrow> pop st;
     s \<leftarrow> go_update (store (Mem sc)) (unat (Uint64 off)) (ucast (Uint64 val));
     ok pc w (sc\<lparr>Stk := st, Mem := (Mem sc)\<lparr>store := s\<rparr>\<rparr>)
   }"

definition opSload :: executionFunc where
  [op_defs]: "opSload = readop (\<lambda>loc sc s. GetState s (caddress (Con sc)) loc)"

definition opSstore :: executionFunc where
  "opSstore E k pc w sc =
     (if readOnly w then fail ErrWriteProtection pc w sc
      else do {
        (loc, st) \<leftarrow> pop (Stk sc);
        (val, st) \<leftarrow> pop st;
        ok pc (writes (\<lambda>s. snd (SetState s (caddress (Con sc)) loc val)) w) (sc\<lparr>Stk := st\<rparr>)
      })"

text \<open>
  A checked jump. A valid target fits in 64 bits; the loop increments the program counter once more.
\<close>

definition jump_to :: "u256 \<Rightarrow> u64 \<Rightarrow> evm \<Rightarrow> scope \<Rightarrow> execres" where
  "jump_to pos pc w sc = do {
     (valid, c, jd) \<leftarrow> validJumpdest (Con sc) (jumpDests w) pos;
     let w = w\<lparr>jumpDests := jd\<rparr>;
     let sc = sc\<lparr>Con := c\<rparr>;
     if \<not> valid then fail ErrInvalidJump pc w sc else ok (Uint64 pos - 1) w sc
   }"

definition opJump :: executionFunc where
  "opJump E k pc w sc =
     (let (abort, w) = abort_Load E w in
      if abort then fail errStopToken pc w sc
      else do {
        (pos, st) \<leftarrow> pop (Stk sc);
        jump_to pos pc w (sc\<lparr>Stk := st\<rparr>)
      })"

definition opJumpi :: executionFunc where
  "opJumpi E k pc w sc =
     (let (abort, w) = abort_Load E w in
      if abort then fail errStopToken pc w sc
      else do {
        (pos, st) \<leftarrow> pop (Stk sc);
        (cond, st) \<leftarrow> pop st;
        let sc = sc\<lparr>Stk := st\<rparr>;
        if cond \<noteq> 0 then jump_to pos pc w sc else ok pc w sc
      })"

definition opJumpdest :: executionFunc where
  "opJumpdest E k pc w sc = ok pc w sc"

definition opPc :: executionFunc where
  [op_defs]: "opPc = pushop (\<lambda>E pc w sc. Some (SetUint64 pc))"
definition opMsize :: executionFunc where
  [op_defs]: "opMsize = pushop (\<lambda>E pc w sc. Some (SetUint64 (of_nat (mem_Len (Mem sc)))))"
definition opGas :: executionFunc where
  [op_defs]: "opGas = pushop (\<lambda>E pc w sc. Some (SetUint64 (Gas (Con sc))))"

text \<open>\<open>opSwap1\<close> to \<open>opSwap16\<close> and \<open>makeDup\<close>.\<close>

definition opSwap :: "nat \<Rightarrow> executionFunc" where
  "opSwap n E k pc w sc = do { st \<leftarrow> swap n (Stk sc); ok pc w (sc\<lparr>Stk := st\<rparr>) }"

definition makeDup :: "nat \<Rightarrow> executionFunc" where
  "makeDup n E k pc w sc = do { st \<leftarrow> dup n (Stk sc); ok pc w (sc\<lparr>Stk := st\<rparr>) }"

section \<open>Pushes\<close>

definition opPush1 :: executionFunc where
  "opPush1 E k pc w sc =
     (let code = Code (Con sc);
          codeLen = of_nat (length code);
          pc = pc + 1
      in if pc < codeLen then do {
           b \<leftarrow> go_index code (unat pc);
           ok pc w (sc\<lparr>Stk := push (Stk sc) (ucast b)\<rparr>)
         }
         else ok pc w (sc\<lparr>Stk := push (Stk sc) 0\<rparr>))"

definition opPush2 :: executionFunc where
  "opPush2 E k pc w sc = do {
     let code = Code (Con sc);
     let codeLen = (of_nat (length code) :: u64);
     v \<leftarrow> (if pc + 2 < codeLen then do {
             bs \<leftarrow> go_slice code (unat (pc + 1)) (unat (pc + 3));
             Some (be_word bs)
           }
           else if pc + 1 < codeLen then do {
             b \<leftarrow> go_index code (unat (pc + 1));
             Some (SetUint64 (push_bit 8 (ucast b)))
           }
           else Some 0);
     ok (pc + 2) w (sc\<lparr>Stk := push (Stk sc) v\<rparr>)
   }"

text \<open>\<open>int(*pc+1)\<close> is a signed reading; the program counter stays below \<open>2\<^sup>6\<^sup>3\<close>.\<close>

definition push_bounds :: "bytes \<Rightarrow> u64 \<Rightarrow> nat \<Rightarrow> (nat \<times> nat) option" where
  "push_bounds code pc pushByteSize =
     (let codeLen = int (length code);
          start = min codeLen (sint (pc + 1));
          end' = min codeLen (start + int pushByteSize)
      in if start < 0 then None else Some (nat start, nat end'))"

definition makePush :: "u64 \<Rightarrow> nat \<Rightarrow> executionFunc" where
  "makePush sz pushByteSize E k pc w sc = do {
     let code = Code (Con sc);
     (start, end') \<leftarrow> push_bounds code pc pushByteSize;
     bs \<leftarrow> go_slice code start end';
     let a = (be_word bs :: u256);
     let missing = pushByteSize - (end' - start);
     let a = (if missing > 0 then push_bit (8 * missing) a else a);
     ok (pc + sz) w (sc\<lparr>Stk := push (Stk sc) a\<rparr>)
   }"

section \<open>Logs, termination and self-destruction\<close>

fun pop_n :: "nat \<Rightarrow> Stack \<Rightarrow> (u256 list \<times> Stack) option" where
  "pop_n 0 st = Some ([], st)"
| "pop_n (Suc n) st = do {
     (x, st) \<leftarrow> pop st;
     (xs, st) \<leftarrow> pop_n n st;
     Some (x # xs, st)
   }"

definition makeLog :: "nat \<Rightarrow> executionFunc" where
  "makeLog n E k pc w sc =
     (if readOnly w then fail ErrWriteProtection pc w sc
      else do {
        (mStart, st) \<leftarrow> pop (Stk sc);
        (mSize, st) \<leftarrow> pop st;
        (topics, st) \<leftarrow> pop_n n st;
        d \<leftarrow> mem_GetCopy (Mem sc) (Uint64 mStart) (Uint64 mSize);
        let log = \<lparr>lAddress = caddress (Con sc), lTopics = topics, lData = d,
                   lBlockNumber = big_Uint64 (BlockNumber E), lTxHash = 0, lTxIndex = 0, lIndex = 0\<rparr>;
        ok pc (writes (\<lambda>s. AddLog s log) w) (sc\<lparr>Stk := st\<rparr>)
      })"

definition opReturn :: executionFunc where
  "opReturn E k pc w sc = do {
     (offset, st) \<leftarrow> pop (Stk sc);
     (sz, st) \<leftarrow> pop st;
     ret \<leftarrow> mem_GetCopy (Mem sc) (Uint64 offset) (Uint64 sz);
     stop_with ret (Some errStopToken) pc w (sc\<lparr>Stk := st\<rparr>)
   }"

definition opRevert :: executionFunc where
  "opRevert E k pc w sc = do {
     (offset, st) \<leftarrow> pop (Stk sc);
     (sz, st) \<leftarrow> pop st;
     ret \<leftarrow> mem_GetCopy (Mem sc) (Uint64 offset) (Uint64 sz);
     stop_with ret (Some ErrExecutionReverted) pc (w\<lparr>returnData := ret\<rparr>) (sc\<lparr>Stk := st\<rparr>)
   }"

definition opUndefined :: executionFunc where
  "opUndefined E k pc w sc = do {
     b \<leftarrow> go_index (Code (Con sc)) (unat pc);
     fail (ErrInvalidOpCode b) pc w sc
   }"

definition opStop :: executionFunc where
  "opStop E k pc w sc = fail errStopToken pc w sc"

definition opSelfdestruct :: executionFunc where
  "opSelfdestruct E k pc w sc =
     (if readOnly w then fail ErrWriteProtection pc w sc
      else do {
        (beneficiary, st) \<leftarrow> pop (Stk sc);
        let self = caddress (Con sc);
        let (balance, w) = reads (\<lambda>s. GetBalance s self) w;
        let w = writes (\<lambda>s. snd (AddBalance s (Bytes20 beneficiary) balance)) w;
        let w = writes (\<lambda>s. snd (SelfDestruct s self)) w;
        fail errStopToken pc w (sc\<lparr>Stk := st\<rparr>)
      })"

definition opSelfdestruct6780 :: executionFunc where
  "opSelfdestruct6780 E k pc w sc =
     (if readOnly w then fail ErrWriteProtection pc w sc
      else do {
        (beneficiary, st) \<leftarrow> pop (Stk sc);
        let self = caddress (Con sc);
        let (balance, w) = reads (\<lambda>s. GetBalance s self) w;
        let w = writes (\<lambda>s. snd (SubBalance s self balance)) w;
        let w = writes (\<lambda>s. snd (AddBalance s (Bytes20 beneficiary) balance)) w;
        let w = writes (\<lambda>s. snd (SelfDestruct6780 s self)) w;
        fail errStopToken pc w (sc\<lparr>Stk := st\<rparr>)
      })"

section \<open>Calls and creations\<close>

text \<open>What a creation leaves: the address or zero on the stack, the unused gas and the revert data.\<close>

definition after_create :: "u256 \<Rightarrow> (bytes \<times> address \<times> u64 \<times> vmerr option \<times> evm) \<Rightarrow> u64 \<Rightarrow> scope \<Rightarrow> execres" where
  "after_create stackvalue r pc sc =
     (let (res, addr, returnGas, suberr, w) = r;
          sc = sc\<lparr>Stk := push (Stk sc) stackvalue, Con := RefundGas (Con sc) returnGas\<rparr>
      in if suberr = Some ErrExecutionReverted
         then stop_with res None pc (w\<lparr>returnData := res\<rparr>) sc
         else ok pc (w\<lparr>returnData := []\<rparr>) sc)"

definition opCreate :: executionFunc where
  "opCreate E k pc w sc =
     (if readOnly w then fail ErrWriteProtection pc w sc
      else do {
        (val, st) \<leftarrow> pop (Stk sc);
        (offset, st) \<leftarrow> pop st;
        (sz, st) \<leftarrow> pop st;
        input \<leftarrow> mem_GetCopy (Mem sc) (Uint64 offset) (Uint64 sz);
        let gas = Gas (Con sc);
        let gas = (if IsEIP150 (chainRules E) then gas - gas div 64 else gas);
        let (_, c) = UseGas (Con sc) gas;
        r \<leftarrow> kCreate k w (caddress c) input gas val;
        let (res, addr, returnGas, suberr, w) = r;
        let stackvalue =
          (if IsHomestead (chainRules E) \<and> suberr = Some ErrCodeStoreOutOfGas then 0
           else if suberr \<noteq> None \<and> suberr \<noteq> Some ErrCodeStoreOutOfGas then 0
           else FromAddress addr);
        after_create stackvalue r pc (sc\<lparr>Stk := st, Con := c\<rparr>)
      })"

definition opCreate2 :: executionFunc where
  "opCreate2 E k pc w sc =
     (if readOnly w then fail ErrWriteProtection pc w sc
      else do {
        (endowment, st) \<leftarrow> pop (Stk sc);
        (offset, st) \<leftarrow> pop st;
        (sz, st) \<leftarrow> pop st;
        (salt, st) \<leftarrow> pop st;
        input \<leftarrow> mem_GetCopy (Mem sc) (Uint64 offset) (Uint64 sz);
        let gas = Gas (Con sc);
        let gas = gas - gas div 64;
        let (_, c) = UseGas (Con sc) gas;
        r \<leftarrow> kCreate2 k w (caddress c) input gas endowment salt;
        let (res, addr, returnGas, suberr, w) = r;
        let stackvalue = (if suberr \<noteq> None then 0 else FromAddress addr);
        after_create stackvalue r pc (sc\<lparr>Stk := st, Con := c\<rparr>)
      })"

text \<open>What the four call instructions do with the outcome of the call.\<close>

definition after_call :: "(bytes \<times> u64 \<times> vmerr option \<times> evm) \<Rightarrow> u256 \<Rightarrow> u256 \<Rightarrow> u64 \<Rightarrow> scope \<Rightarrow> execres" where
  "after_call r retOffset retSize pc sc = do {
     let (ret, returnGas, err, w) = r;
     let temp = flag (err = None);
     m \<leftarrow> (if err = None \<or> err = Some ErrExecutionReverted
           then mem_Set (Mem sc) (Uint64 retOffset) (Uint64 retSize) ret
           else Some (Mem sc));
     let sc = sc\<lparr>Stk := push (Stk sc) temp, Mem := m, Con := RefundGas (Con sc) returnGas\<rparr>;
     stop_with ret None pc (w\<lparr>returnData := ret\<rparr>) sc
   }"

definition opCall :: executionFunc where
  "opCall E k pc w sc = do {
     (_, st) \<leftarrow> pop (Stk sc);
     let gas = callGasTemp w;
     (addr, st) \<leftarrow> pop st;
     (val, st) \<leftarrow> pop st;
     (inOffset, st) \<leftarrow> pop st;
     (inSize, st) \<leftarrow> pop st;
     (retOffset, st) \<leftarrow> pop st;
     (retSize, st) \<leftarrow> pop st;
     let sc = sc\<lparr>Stk := st\<rparr>;
     args \<leftarrow> mem_GetPtr (Mem sc) (Uint64 inOffset) (Uint64 inSize);
     if readOnly w \<and> val \<noteq> 0 then fail ErrWriteProtection pc w sc
     else do {
       let gas = (if val \<noteq> 0 then gas + CallStipend else gas);
       r \<leftarrow> kCall k w (caddress (Con sc)) (Bytes20 addr) args gas val;
       after_call r retOffset retSize pc sc
     }
   }"

definition opCallCode :: executionFunc where
  "opCallCode E k pc w sc = do {
     (_, st) \<leftarrow> pop (Stk sc);
     let gas = callGasTemp w;
     (addr, st) \<leftarrow> pop st;
     (val, st) \<leftarrow> pop st;
     (inOffset, st) \<leftarrow> pop st;
     (inSize, st) \<leftarrow> pop st;
     (retOffset, st) \<leftarrow> pop st;
     (retSize, st) \<leftarrow> pop st;
     let sc = sc\<lparr>Stk := st\<rparr>;
     args \<leftarrow> mem_GetPtr (Mem sc) (Uint64 inOffset) (Uint64 inSize);
     let gas = (if val \<noteq> 0 then gas + CallStipend else gas);
     r \<leftarrow> kCallCode k w (caddress (Con sc)) (Bytes20 addr) args gas val;
     after_call r retOffset retSize pc sc
   }"

definition opDelegateCall :: executionFunc where
  "opDelegateCall E k pc w sc = do {
     (_, st) \<leftarrow> pop (Stk sc);
     let gas = callGasTemp w;
     (addr, st) \<leftarrow> pop st;
     (inOffset, st) \<leftarrow> pop st;
     (inSize, st) \<leftarrow> pop st;
     (retOffset, st) \<leftarrow> pop st;
     (retSize, st) \<leftarrow> pop st;
     let sc = sc\<lparr>Stk := st\<rparr>;
     args \<leftarrow> mem_GetPtr (Mem sc) (Uint64 inOffset) (Uint64 inSize);
     r \<leftarrow> kDelegateCall k w (ccaller (Con sc)) (caddress (Con sc)) (Bytes20 addr) args gas (cvalue (Con sc));
     after_call r retOffset retSize pc sc
   }"

definition opStaticCall :: executionFunc where
  "opStaticCall E k pc w sc = do {
     (_, st) \<leftarrow> pop (Stk sc);
     let gas = callGasTemp w;
     (addr, st) \<leftarrow> pop st;
     (inOffset, st) \<leftarrow> pop st;
     (inSize, st) \<leftarrow> pop st;
     (retOffset, st) \<leftarrow> pop st;
     (retSize, st) \<leftarrow> pop st;
     let sc = sc\<lparr>Stk := st\<rparr>;
     args \<leftarrow> mem_GetPtr (Mem sc) (Uint64 inOffset) (Uint64 inSize);
     r \<leftarrow> kStaticCall k w (caddress (Con sc)) (Bytes20 addr) args gas;
     after_call r retOffset retSize pc sc
   }"

end
