(* ===== verification/VM_Eips.thy ===== *)
theory VM_Eips
  imports VM_Instructions
begin

text \<open>
  The instruction handlers of \<open>core/vm/eips.go\<close>, which later forks add or replace, the memory sizes
  they need, and the EOF handlers of \<open>core/vm/eof_instructions.go\<close>, all of which panic.
\<close>

section \<open>Handlers added by EIPs\<close>

definition opSelfBalance :: executionFunc where
  "opSelfBalance E k pc w sc =
     (let (balance, w) = reads (\<lambda>s. GetBalance s (caddress (Con sc))) w
      in ok pc w (sc\<lparr>Stk := push (Stk sc) balance\<rparr>))"

definition opChainID :: executionFunc where
  [op_defs]: "opChainID = pushop (\<lambda>E pc w sc. FromBig (ChainID E))"

definition opBaseFee :: executionFunc where
  [op_defs]: "opBaseFee = pushop (\<lambda>E pc w sc. FromBig (BaseFee E))"

definition opPush0 :: executionFunc where
  [op_defs]: "opPush0 = pushop (\<lambda>E pc w sc. Some 0)"

definition opTload :: executionFunc where
  [op_defs]: "opTload = readop (\<lambda>loc sc s. (GetTransientState s (caddress (Con sc)) loc, s))"

definition opTstore :: executionFunc where
  "opTstore E k pc w sc =
     (if readOnly w then fail ErrWriteProtection pc w sc
      else do {
        (loc, st) \<leftarrow> pop (Stk sc);
        (val, st) \<leftarrow> pop st;
        ok pc (writes (\<lambda>s. SetTransientState s (caddress (Con sc)) loc val) w) (sc\<lparr>Stk := st\<rparr>)
      })"

definition opMcopy :: executionFunc where
  "opMcopy E k pc w sc = do {
     (dst, st) \<leftarrow> pop (Stk sc);
     (src, st) \<leftarrow> pop st;
     (len, st) \<leftarrow> pop st;
     m \<leftarrow> mem_Copy (Mem sc) (Uint64 dst) (Uint64 src) (Uint64 len);
     ok pc w (sc\<lparr>Stk := st, Mem := m\<rparr>)
   }"

definition opBlobHash :: executionFunc where
  [op_defs]: "opBlobHash = unop (\<lambda>E index.
     if index < of_nat (length (BlobHashes E)) then BlobHashes E ! unat (Uint64 index) else 0)"

definition opBlobBaseFee :: executionFunc where
  [op_defs]: "opBlobBaseFee = pushop (\<lambda>E pc w sc. FromBig (BlobBaseFee E))"

section \<open>EIP-4762\<close>

definition opExtCodeCopyEIP4762 :: executionFunc where
  "opExtCodeCopyEIP4762 E k pc w sc = do {
     (a, st) \<leftarrow> pop (Stk sc);
     (memOffset, st) \<leftarrow> pop st;
     (codeOffset, st) \<leftarrow> pop st;
     (len, st) \<leftarrow> pop st;
     let (off, overflow) = Uint64WithOverflow codeOffset;
     let off = (if overflow then MaxUint64 else off);
     let addr = Bytes20 a;
     let (code, w) = reads (\<lambda>s. GetCode s addr) w;
     (paddedCodeCopy, copyOffset, nonPaddedCopyLength) \<leftarrow> getDataAndAdjustedBounds code off (Uint64 len);
     ((consumed, wanted), w) \<leftarrow>
       charges_opt (\<lambda>ae. CodeChunksRangeGas ae addr copyOffset nonPaddedCopyLength
                          (of_nat (length code)) False (Gas (Con sc))) w;
     let sc = sc\<lparr>Stk := st, Con := snd (UseGas (Con sc) consumed)\<rparr>;
     if consumed < wanted then fail ErrOutOfGas pc w sc
     else do {
       m \<leftarrow> mem_Set (Mem sc) (Uint64 memOffset) (Uint64 len) paddedCodeCopy;
       ok pc w (sc\<lparr>Mem := m\<rparr>)
     }
   }"

definition opPush1EIP4762 :: executionFunc where
  "opPush1EIP4762 E k pc w sc =
     (let code = Code (Con sc);
          codeLen = of_nat (length code);
          pc = pc + 1
      in if pc < codeLen then do {
           b \<leftarrow> go_index code (unat pc);
           let sc = sc\<lparr>Stk := push (Stk sc) (ucast b)\<rparr>;
           if \<not> IsDeployment (Con sc) \<and> \<not> IsSystemCall (Con sc) \<and> pc mod 31 = 0 then do {
             ((consumed, wanted), w) \<leftarrow>
               charges_opt (\<lambda>ae. CodeChunksRangeGas ae (caddress (Con sc)) (pc + 1) 1
                                  codeLen False (Gas (Con sc))) w;
             let sc = sc\<lparr>Con := snd (UseGas (Con sc) wanted)\<rparr>;
             if consumed < wanted then fail ErrOutOfGas pc w sc else ok pc w sc
           }
           else ok pc w sc
         }
         else ok pc w (sc\<lparr>Stk := push (Stk sc) 0\<rparr>))"

definition makePushEIP4762 :: "u64 \<Rightarrow> nat \<Rightarrow> executionFunc" where
  "makePushEIP4762 sz pushByteSize E k pc w sc = do {
     let code = Code (Con sc);
     (start, end') \<leftarrow> push_bounds code pc pushByteSize;
     bs \<leftarrow> go_slice code start end';
     let sc = sc\<lparr>Stk := push (Stk sc) (be_word (RightPadBytes bs (int pushByteSize)))\<rparr>;
     if \<not> IsDeployment (Con sc) \<and> \<not> IsSystemCall (Con sc) then do {
       ((consumed, wanted), w) \<leftarrow>
         charges_opt (\<lambda>ae. CodeChunksRangeGas ae (caddress (Con sc)) (of_nat start) (of_nat pushByteSize)
                            (of_nat (length code)) False (Gas (Con sc))) w;
       let sc = sc\<lparr>Con := snd (UseGas (Con sc) consumed)\<rparr>;
       if consumed < wanted then fail ErrOutOfGas pc w sc else ok (pc + sz) w sc
     }
     else ok (pc + sz) w sc
   }"

section \<open>EOF\<close>

definition memoryExtCall :: memorySizeFunc where "memoryExtCall = mem_at 1 2"
definition memoryDataCopy :: memorySizeFunc where "memoryDataCopy = mem_at 0 2"
definition memoryEOFCreate :: memorySizeFunc where "memoryEOFCreate = mem_at 2 3"
definition memoryReturnContract :: memorySizeFunc where "memoryReturnContract = mem_at 0 1"

definition opRjump :: executionFunc where "opRjump E k pc w sc = None"
definition opRjumpi :: executionFunc where "opRjumpi E k pc w sc = None"
definition opRjumpv :: executionFunc where "opRjumpv E k pc w sc = None"
definition opCallf :: executionFunc where "opCallf E k pc w sc = None"
definition opRetf :: executionFunc where "opRetf E k pc w sc = None"
definition opJumpf :: executionFunc where "opJumpf E k pc w sc = None"
definition opEOFCreate :: executionFunc where "opEOFCreate E k pc w sc = None"
definition opReturnContract :: executionFunc where "opReturnContract E k pc w sc = None"
definition opDataLoad :: executionFunc where "opDataLoad E k pc w sc = None"
definition opDataLoadN :: executionFunc where "opDataLoadN E k pc w sc = None"
definition opDataSize :: executionFunc where "opDataSize E k pc w sc = None"
definition opDataCopy :: executionFunc where "opDataCopy E k pc w sc = None"
definition opDupN :: executionFunc where "opDupN E k pc w sc = None"
definition opSwapN :: executionFunc where "opSwapN E k pc w sc = None"
definition opExchange :: executionFunc where "opExchange E k pc w sc = None"
definition opReturnDataLoad :: executionFunc where "opReturnDataLoad E k pc w sc = None"
definition opExtCall :: executionFunc where "opExtCall E k pc w sc = None"
definition opExtDelegateCall :: executionFunc where "opExtDelegateCall E k pc w sc = None"
definition opExtStaticCall :: executionFunc where "opExtStaticCall E k pc w sc = None"

end
