(* ===== verification/VM_Opcodes.thy ===== *)
theory VM_Opcodes
  imports Params
begin

text \<open>
  The opcodes of \<open>core/vm/opcodes.go\<close> and their names. The constants are abbreviations, so that proofs
  compute with the bytes. The Go array \<open>opCodeToString\<close> holds the empty string where no name is given
  and the Go map \<open>stringToOp\<close> reads as 0 where it has no entry.
\<close>

section \<open>Opcodes\<close>

abbreviation STOP :: byte where "STOP \<equiv> 0x00"
abbreviation ADD :: byte where "ADD \<equiv> 0x01"
abbreviation MUL :: byte where "MUL \<equiv> 0x02"
abbreviation SUB :: byte where "SUB \<equiv> 0x03"
abbreviation DIV :: byte where "DIV \<equiv> 0x04"
abbreviation SDIV :: byte where "SDIV \<equiv> 0x05"
abbreviation MOD :: byte where "MOD \<equiv> 0x06"
abbreviation SMOD :: byte where "SMOD \<equiv> 0x07"
abbreviation ADDMOD :: byte where "ADDMOD \<equiv> 0x08"
abbreviation MULMOD :: byte where "MULMOD \<equiv> 0x09"
abbreviation EXP :: byte where "EXP \<equiv> 0x0a"
abbreviation SIGNEXTEND :: byte where "SIGNEXTEND \<equiv> 0x0b"
abbreviation LT :: byte where "LT \<equiv> 0x10"
abbreviation GT :: byte where "GT \<equiv> 0x11"
abbreviation SLT :: byte where "SLT \<equiv> 0x12"
abbreviation SGT :: byte where "SGT \<equiv> 0x13"
abbreviation EQ :: byte where "EQ \<equiv> 0x14"
abbreviation ISZERO :: byte where "ISZERO \<equiv> 0x15"
abbreviation AND :: byte where "AND \<equiv> 0x16"
abbreviation OR :: byte where "OR \<equiv> 0x17"
abbreviation XOR :: byte where "XOR \<equiv> 0x18"
abbreviation NOT :: byte where "NOT \<equiv> 0x19"
abbreviation BYTE :: byte where "BYTE \<equiv> 0x1a"
abbreviation SHL :: byte where "SHL \<equiv> 0x1b"
abbreviation SHR :: byte where "SHR \<equiv> 0x1c"
abbreviation SAR :: byte where "SAR \<equiv> 0x1d"
abbreviation KECCAK256 :: byte where "KECCAK256 \<equiv> 0x20"
abbreviation ADDRESS :: byte where "ADDRESS \<equiv> 0x30"
abbreviation BALANCE :: byte where "BALANCE \<equiv> 0x31"
abbreviation ORIGIN :: byte where "ORIGIN \<equiv> 0x32"
abbreviation CALLER :: byte where "CALLER \<equiv> 0x33"
abbreviation CALLVALUE :: byte where "CALLVALUE \<equiv> 0x34"
abbreviation CALLDATALOAD :: byte where "CALLDATALOAD \<equiv> 0x35"
abbreviation CALLDATASIZE :: byte where "CALLDATASIZE \<equiv> 0x36"
abbreviation CALLDATACOPY :: byte where "CALLDATACOPY \<equiv> 0x37"
abbreviation CODESIZE :: byte where "CODESIZE \<equiv> 0x38"
abbreviation CODECOPY :: byte where "CODECOPY \<equiv> 0x39"
abbreviation GASPRICE :: byte where "GASPRICE \<equiv> 0x3a"
abbreviation EXTCODESIZE :: byte where "EXTCODESIZE \<equiv> 0x3b"
abbreviation EXTCODECOPY :: byte where "EXTCODECOPY \<equiv> 0x3c"
abbreviation RETURNDATASIZE :: byte where "RETURNDATASIZE \<equiv> 0x3d"
abbreviation RETURNDATACOPY :: byte where "RETURNDATACOPY \<equiv> 0x3e"
abbreviation EXTCODEHASH :: byte where "EXTCODEHASH \<equiv> 0x3f"
abbreviation BLOCKHASH :: byte where "BLOCKHASH \<equiv> 0x40"
abbreviation COINBASE :: byte where "COINBASE \<equiv> 0x41"
abbreviation TIMESTAMP :: byte where "TIMESTAMP \<equiv> 0x42"
abbreviation NUMBER :: byte where "NUMBER \<equiv> 0x43"
abbreviation DIFFICULTY :: byte where "DIFFICULTY \<equiv> 0x44"
abbreviation RANDOM :: byte where "RANDOM \<equiv> 0x44"
abbreviation PREVRANDAO :: byte where "PREVRANDAO \<equiv> 0x44"
abbreviation GASLIMIT :: byte where "GASLIMIT \<equiv> 0x45"
abbreviation CHAINID :: byte where "CHAINID \<equiv> 0x46"
abbreviation SELFBALANCE :: byte where "SELFBALANCE \<equiv> 0x47"
abbreviation BASEFEE :: byte where "BASEFEE \<equiv> 0x48"
abbreviation BLOBHASH :: byte where "BLOBHASH \<equiv> 0x49"
abbreviation BLOBBASEFEE :: byte where "BLOBBASEFEE \<equiv> 0x4a"
abbreviation POP :: byte where "POP \<equiv> 0x50"
abbreviation MLOAD :: byte where "MLOAD \<equiv> 0x51"
abbreviation MSTORE :: byte where "MSTORE \<equiv> 0x52"
abbreviation MSTORE8 :: byte where "MSTORE8 \<equiv> 0x53"
abbreviation SLOAD :: byte where "SLOAD \<equiv> 0x54"
abbreviation SSTORE :: byte where "SSTORE \<equiv> 0x55"
abbreviation JUMP :: byte where "JUMP \<equiv> 0x56"
abbreviation JUMPI :: byte where "JUMPI \<equiv> 0x57"
abbreviation PC :: byte where "PC \<equiv> 0x58"
abbreviation MSIZE :: byte where "MSIZE \<equiv> 0x59"
abbreviation GAS :: byte where "GAS \<equiv> 0x5a"
abbreviation JUMPDEST :: byte where "JUMPDEST \<equiv> 0x5b"
abbreviation TLOAD :: byte where "TLOAD \<equiv> 0x5c"
abbreviation TSTORE :: byte where "TSTORE \<equiv> 0x5d"
abbreviation MCOPY :: byte where "MCOPY \<equiv> 0x5e"
abbreviation PUSH0 :: byte where "PUSH0 \<equiv> 0x5f"
abbreviation PUSH1 :: byte where "PUSH1 \<equiv> 0x60"
abbreviation PUSH2 :: byte where "PUSH2 \<equiv> 0x61"
abbreviation PUSH3 :: byte where "PUSH3 \<equiv> 0x62"
abbreviation PUSH4 :: byte where "PUSH4 \<equiv> 0x63"
abbreviation PUSH5 :: byte where "PUSH5 \<equiv> 0x64"
abbreviation PUSH6 :: byte where "PUSH6 \<equiv> 0x65"
abbreviation PUSH7 :: byte where "PUSH7 \<equiv> 0x66"
abbreviation PUSH8 :: byte where "PUSH8 \<equiv> 0x67"
abbreviation PUSH9 :: byte where "PUSH9 \<equiv> 0x68"
abbreviation PUSH10 :: byte where "PUSH10 \<equiv> 0x69"
abbreviation PUSH11 :: byte where "PUSH11 \<equiv> 0x6a"
abbreviation PUSH12 :: byte where "PUSH12 \<equiv> 0x6b"
abbreviation PUSH13 :: byte where "PUSH13 \<equiv> 0x6c"
abbreviation PUSH14 :: byte where "PUSH14 \<equiv> 0x6d"
abbreviation PUSH15 :: byte where "PUSH15 \<equiv> 0x6e"
abbreviation PUSH16 :: byte where "PUSH16 \<equiv> 0x6f"
abbreviation PUSH17 :: byte where "PUSH17 \<equiv> 0x70"
abbreviation PUSH18 :: byte where "PUSH18 \<equiv> 0x71"
abbreviation PUSH19 :: byte where "PUSH19 \<equiv> 0x72"
abbreviation PUSH20 :: byte where "PUSH20 \<equiv> 0x73"
abbreviation PUSH21 :: byte where "PUSH21 \<equiv> 0x74"
abbreviation PUSH22 :: byte where "PUSH22 \<equiv> 0x75"
abbreviation PUSH23 :: byte where "PUSH23 \<equiv> 0x76"
abbreviation PUSH24 :: byte where "PUSH24 \<equiv> 0x77"
abbreviation PUSH25 :: byte where "PUSH25 \<equiv> 0x78"
abbreviation PUSH26 :: byte where "PUSH26 \<equiv> 0x79"
abbreviation PUSH27 :: byte where "PUSH27 \<equiv> 0x7a"
abbreviation PUSH28 :: byte where "PUSH28 \<equiv> 0x7b"
abbreviation PUSH29 :: byte where "PUSH29 \<equiv> 0x7c"
abbreviation PUSH30 :: byte where "PUSH30 \<equiv> 0x7d"
abbreviation PUSH31 :: byte where "PUSH31 \<equiv> 0x7e"
abbreviation PUSH32 :: byte where "PUSH32 \<equiv> 0x7f"
abbreviation DUP1 :: byte where "DUP1 \<equiv> 0x80"
abbreviation DUP2 :: byte where "DUP2 \<equiv> 0x81"
abbreviation DUP3 :: byte where "DUP3 \<equiv> 0x82"
abbreviation DUP4 :: byte where "DUP4 \<equiv> 0x83"
abbreviation DUP5 :: byte where "DUP5 \<equiv> 0x84"
abbreviation DUP6 :: byte where "DUP6 \<equiv> 0x85"
abbreviation DUP7 :: byte where "DUP7 \<equiv> 0x86"
abbreviation DUP8 :: byte where "DUP8 \<equiv> 0x87"
abbreviation DUP9 :: byte where "DUP9 \<equiv> 0x88"
abbreviation DUP10 :: byte where "DUP10 \<equiv> 0x89"
abbreviation DUP11 :: byte where "DUP11 \<equiv> 0x8a"
abbreviation DUP12 :: byte where "DUP12 \<equiv> 0x8b"
abbreviation DUP13 :: byte where "DUP13 \<equiv> 0x8c"
abbreviation DUP14 :: byte where "DUP14 \<equiv> 0x8d"
abbreviation DUP15 :: byte where "DUP15 \<equiv> 0x8e"
abbreviation DUP16 :: byte where "DUP16 \<equiv> 0x8f"
abbreviation SWAP1 :: byte where "SWAP1 \<equiv> 0x90"
abbreviation SWAP2 :: byte where "SWAP2 \<equiv> 0x91"
abbreviation SWAP3 :: byte where "SWAP3 \<equiv> 0x92"
abbreviation SWAP4 :: byte where "SWAP4 \<equiv> 0x93"
abbreviation SWAP5 :: byte where "SWAP5 \<equiv> 0x94"
abbreviation SWAP6 :: byte where "SWAP6 \<equiv> 0x95"
abbreviation SWAP7 :: byte where "SWAP7 \<equiv> 0x96"
abbreviation SWAP8 :: byte where "SWAP8 \<equiv> 0x97"
abbreviation SWAP9 :: byte where "SWAP9 \<equiv> 0x98"
abbreviation SWAP10 :: byte where "SWAP10 \<equiv> 0x99"
abbreviation SWAP11 :: byte where "SWAP11 \<equiv> 0x9a"
abbreviation SWAP12 :: byte where "SWAP12 \<equiv> 0x9b"
abbreviation SWAP13 :: byte where "SWAP13 \<equiv> 0x9c"
abbreviation SWAP14 :: byte where "SWAP14 \<equiv> 0x9d"
abbreviation SWAP15 :: byte where "SWAP15 \<equiv> 0x9e"
abbreviation SWAP16 :: byte where "SWAP16 \<equiv> 0x9f"
abbreviation LOG0 :: byte where "LOG0 \<equiv> 0xa0"
abbreviation LOG1 :: byte where "LOG1 \<equiv> 0xa1"
abbreviation LOG2 :: byte where "LOG2 \<equiv> 0xa2"
abbreviation LOG3 :: byte where "LOG3 \<equiv> 0xa3"
abbreviation LOG4 :: byte where "LOG4 \<equiv> 0xa4"
abbreviation DATALOAD :: byte where "DATALOAD \<equiv> 0xd0"
abbreviation DATALOADN :: byte where "DATALOADN \<equiv> 0xd1"
abbreviation DATASIZE :: byte where "DATASIZE \<equiv> 0xd2"
abbreviation DATACOPY :: byte where "DATACOPY \<equiv> 0xd3"
abbreviation RJUMP :: byte where "RJUMP \<equiv> 0xe0"
abbreviation RJUMPI :: byte where "RJUMPI \<equiv> 0xe1"
abbreviation RJUMPV :: byte where "RJUMPV \<equiv> 0xe2"
abbreviation CALLF :: byte where "CALLF \<equiv> 0xe3"
abbreviation RETF :: byte where "RETF \<equiv> 0xe4"
abbreviation JUMPF :: byte where "JUMPF \<equiv> 0xe5"
abbreviation DUPN :: byte where "DUPN \<equiv> 0xe6"
abbreviation SWAPN :: byte where "SWAPN \<equiv> 0xe7"
abbreviation EXCHANGE :: byte where "EXCHANGE \<equiv> 0xe8"
abbreviation EOFCREATE :: byte where "EOFCREATE \<equiv> 0xec"
abbreviation RETURNCONTRACT :: byte where "RETURNCONTRACT \<equiv> 0xee"
abbreviation CREATE :: byte where "CREATE \<equiv> 0xf0"
abbreviation CALL :: byte where "CALL \<equiv> 0xf1"
abbreviation CALLCODE :: byte where "CALLCODE \<equiv> 0xf2"
abbreviation RETURN :: byte where "RETURN \<equiv> 0xf3"
abbreviation DELEGATECALL :: byte where "DELEGATECALL \<equiv> 0xf4"
abbreviation CREATE2 :: byte where "CREATE2 \<equiv> 0xf5"
abbreviation RETURNDATALOAD :: byte where "RETURNDATALOAD \<equiv> 0xf7"
abbreviation EXTCALL :: byte where "EXTCALL \<equiv> 0xf8"
abbreviation EXTDELEGATECALL :: byte where "EXTDELEGATECALL \<equiv> 0xf9"
abbreviation STATICCALL :: byte where "STATICCALL \<equiv> 0xfa"
abbreviation EXTSTATICCALL :: byte where "EXTSTATICCALL \<equiv> 0xfb"
abbreviation REVERT :: byte where "REVERT \<equiv> 0xfd"
abbreviation INVALID :: byte where "INVALID \<equiv> 0xfe"
abbreviation SELFDESTRUCT :: byte where "SELFDESTRUCT \<equiv> 0xff"

definition IsPush :: "byte \<Rightarrow> bool" where
  "IsPush op = (PUSH0 \<le> op \<and> op \<le> PUSH32)"

section \<open>Names\<close>

definition opcode_names :: "(byte \<times> string) list" where
  "opcode_names =
     [(STOP, ''STOP''), (ADD, ''ADD''), (MUL, ''MUL''), (SUB, ''SUB''), (DIV, ''DIV''),
      (SDIV, ''SDIV''), (MOD, ''MOD''), (SMOD, ''SMOD''), (EXP, ''EXP''), (NOT, ''NOT''),
      (LT, ''LT''), (GT, ''GT''), (SLT, ''SLT''), (SGT, ''SGT''), (EQ, ''EQ''),
      (ISZERO, ''ISZERO''), (SIGNEXTEND, ''SIGNEXTEND''), (AND, ''AND''), (OR, ''OR''),
      (XOR, ''XOR''), (BYTE, ''BYTE''), (SHL, ''SHL''), (SHR, ''SHR''), (SAR, ''SAR''),
      (ADDMOD, ''ADDMOD''), (MULMOD, ''MULMOD''), (KECCAK256, ''KECCAK256''),
      (ADDRESS, ''ADDRESS''), (BALANCE, ''BALANCE''), (ORIGIN, ''ORIGIN''), (CALLER, ''CALLER''),
      (CALLVALUE, ''CALLVALUE''), (CALLDATALOAD, ''CALLDATALOAD''),
      (CALLDATASIZE, ''CALLDATASIZE''), (CALLDATACOPY, ''CALLDATACOPY''), (CODESIZE, ''CODESIZE''),
      (CODECOPY, ''CODECOPY''), (GASPRICE, ''GASPRICE''), (EXTCODESIZE, ''EXTCODESIZE''),
      (EXTCODECOPY, ''EXTCODECOPY''), (RETURNDATASIZE, ''RETURNDATASIZE''),
      (RETURNDATACOPY, ''RETURNDATACOPY''), (EXTCODEHASH, ''EXTCODEHASH''),
      (BLOCKHASH, ''BLOCKHASH''), (COINBASE, ''COINBASE''), (TIMESTAMP, ''TIMESTAMP''),
      (NUMBER, ''NUMBER''), (DIFFICULTY, ''DIFFICULTY''), (GASLIMIT, ''GASLIMIT''),
      (CHAINID, ''CHAINID''), (SELFBALANCE, ''SELFBALANCE''), (BASEFEE, ''BASEFEE''),
      (BLOBHASH, ''BLOBHASH''), (BLOBBASEFEE, ''BLOBBASEFEE''), (POP, ''POP''), (MLOAD, ''MLOAD''),
      (MSTORE, ''MSTORE''), (MSTORE8, ''MSTORE8''), (SLOAD, ''SLOAD''), (SSTORE, ''SSTORE''),
      (JUMP, ''JUMP''), (JUMPI, ''JUMPI''), (PC, ''PC''), (MSIZE, ''MSIZE''), (GAS, ''GAS''),
      (JUMPDEST, ''JUMPDEST''), (TLOAD, ''TLOAD''), (TSTORE, ''TSTORE''), (MCOPY, ''MCOPY''),
      (PUSH0, ''PUSH0''), (PUSH1, ''PUSH1''), (PUSH2, ''PUSH2''), (PUSH3, ''PUSH3''),
      (PUSH4, ''PUSH4''), (PUSH5, ''PUSH5''), (PUSH6, ''PUSH6''), (PUSH7, ''PUSH7''),
      (PUSH8, ''PUSH8''), (PUSH9, ''PUSH9''), (PUSH10, ''PUSH10''), (PUSH11, ''PUSH11''),
      (PUSH12, ''PUSH12''), (PUSH13, ''PUSH13''), (PUSH14, ''PUSH14''), (PUSH15, ''PUSH15''),
      (PUSH16, ''PUSH16''), (PUSH17, ''PUSH17''), (PUSH18, ''PUSH18''), (PUSH19, ''PUSH19''),
      (PUSH20, ''PUSH20''), (PUSH21, ''PUSH21''), (PUSH22, ''PUSH22''), (PUSH23, ''PUSH23''),
      (PUSH24, ''PUSH24''), (PUSH25, ''PUSH25''), (PUSH26, ''PUSH26''), (PUSH27, ''PUSH27''),
      (PUSH28, ''PUSH28''), (PUSH29, ''PUSH29''), (PUSH30, ''PUSH30''), (PUSH31, ''PUSH31''),
      (PUSH32, ''PUSH32''), (DUP1, ''DUP1''), (DUP2, ''DUP2''), (DUP3, ''DUP3''), (DUP4, ''DUP4''),
      (DUP5, ''DUP5''), (DUP6, ''DUP6''), (DUP7, ''DUP7''), (DUP8, ''DUP8''), (DUP9, ''DUP9''),
      (DUP10, ''DUP10''), (DUP11, ''DUP11''), (DUP12, ''DUP12''), (DUP13, ''DUP13''),
      (DUP14, ''DUP14''), (DUP15, ''DUP15''), (DUP16, ''DUP16''), (SWAP1, ''SWAP1''),
      (SWAP2, ''SWAP2''), (SWAP3, ''SWAP3''), (SWAP4, ''SWAP4''), (SWAP5, ''SWAP5''),
      (SWAP6, ''SWAP6''), (SWAP7, ''SWAP7''), (SWAP8, ''SWAP8''), (SWAP9, ''SWAP9''),
      (SWAP10, ''SWAP10''), (SWAP11, ''SWAP11''), (SWAP12, ''SWAP12''), (SWAP13, ''SWAP13''),
      (SWAP14, ''SWAP14''), (SWAP15, ''SWAP15''), (SWAP16, ''SWAP16''), (LOG0, ''LOG0''),
      (LOG1, ''LOG1''), (LOG2, ''LOG2''), (LOG3, ''LOG3''), (LOG4, ''LOG4''),
      (DATALOAD, ''DATALOAD''), (DATALOADN, ''DATALOADN''), (DATASIZE, ''DATASIZE''),
      (DATACOPY, ''DATACOPY''), (RJUMP, ''RJUMP''), (RJUMPI, ''RJUMPI''), (RJUMPV, ''RJUMPV''),
      (CALLF, ''CALLF''), (RETF, ''RETF''), (JUMPF, ''JUMPF''), (DUPN, ''DUPN''),
      (SWAPN, ''SWAPN''), (EXCHANGE, ''EXCHANGE''), (EOFCREATE, ''EOFCREATE''),
      (RETURNCONTRACT, ''RETURNCONTRACT''), (CREATE, ''CREATE''), (CALL, ''CALL''),
      (RETURN, ''RETURN''), (CALLCODE, ''CALLCODE''), (DELEGATECALL, ''DELEGATECALL''),
      (CREATE2, ''CREATE2''), (RETURNDATALOAD, ''RETURNDATALOAD''), (EXTCALL, ''EXTCALL''),
      (EXTDELEGATECALL, ''EXTDELEGATECALL''), (STATICCALL, ''STATICCALL''),
      (EXTSTATICCALL, ''EXTSTATICCALL''), (REVERT, ''REVERT''), (INVALID, ''INVALID''),
      (SELFDESTRUCT, ''SELFDESTRUCT'')]"

definition opCodeToString :: "byte \<Rightarrow> string" where
  "opCodeToString op = (case map_of opcode_names op of None \<Rightarrow> [] | Some s \<Rightarrow> s)"

definition opcode_strings :: "(string \<times> byte) list" where
  "opcode_strings =
     [(''STOP'', STOP), (''ADD'', ADD), (''MUL'', MUL), (''SUB'', SUB), (''DIV'', DIV),
      (''SDIV'', SDIV), (''MOD'', MOD), (''SMOD'', SMOD), (''EXP'', EXP), (''NOT'', NOT),
      (''LT'', LT), (''GT'', GT), (''SLT'', SLT), (''SGT'', SGT), (''EQ'', EQ),
      (''ISZERO'', ISZERO), (''SIGNEXTEND'', SIGNEXTEND), (''AND'', AND), (''OR'', OR),
      (''XOR'', XOR), (''BYTE'', BYTE), (''SHL'', SHL), (''SHR'', SHR), (''SAR'', SAR),
      (''ADDMOD'', ADDMOD), (''MULMOD'', MULMOD), (''KECCAK256'', KECCAK256),
      (''ADDRESS'', ADDRESS), (''BALANCE'', BALANCE), (''ORIGIN'', ORIGIN), (''CALLER'', CALLER),
      (''CALLVALUE'', CALLVALUE), (''CALLDATALOAD'', CALLDATALOAD),
      (''CALLDATASIZE'', CALLDATASIZE), (''CALLDATACOPY'', CALLDATACOPY), (''CHAINID'', CHAINID),
      (''BASEFEE'', BASEFEE), (''BLOBHASH'', BLOBHASH), (''BLOBBASEFEE'', BLOBBASEFEE),
      (''DELEGATECALL'', DELEGATECALL), (''STATICCALL'', STATICCALL), (''CODESIZE'', CODESIZE),
      (''CODECOPY'', CODECOPY), (''GASPRICE'', GASPRICE), (''EXTCODESIZE'', EXTCODESIZE),
      (''EXTCODECOPY'', EXTCODECOPY), (''RETURNDATASIZE'', RETURNDATASIZE),
      (''RETURNDATACOPY'', RETURNDATACOPY), (''EXTCODEHASH'', EXTCODEHASH),
      (''BLOCKHASH'', BLOCKHASH), (''COINBASE'', COINBASE), (''TIMESTAMP'', TIMESTAMP),
      (''NUMBER'', NUMBER), (''DIFFICULTY'', DIFFICULTY), (''GASLIMIT'', GASLIMIT),
      (''SELFBALANCE'', SELFBALANCE), (''POP'', POP), (''MLOAD'', MLOAD), (''MSTORE'', MSTORE),
      (''MSTORE8'', MSTORE8), (''SLOAD'', SLOAD), (''SSTORE'', SSTORE), (''JUMP'', JUMP),
      (''JUMPI'', JUMPI), (''PC'', PC), (''MSIZE'', MSIZE), (''GAS'', GAS),
      (''JUMPDEST'', JUMPDEST), (''TLOAD'', TLOAD), (''TSTORE'', TSTORE), (''MCOPY'', MCOPY),
      (''PUSH0'', PUSH0), (''PUSH1'', PUSH1), (''PUSH2'', PUSH2), (''PUSH3'', PUSH3),
      (''PUSH4'', PUSH4), (''PUSH5'', PUSH5), (''PUSH6'', PUSH6), (''PUSH7'', PUSH7),
      (''PUSH8'', PUSH8), (''PUSH9'', PUSH9), (''PUSH10'', PUSH10), (''PUSH11'', PUSH11),
      (''PUSH12'', PUSH12), (''PUSH13'', PUSH13), (''PUSH14'', PUSH14), (''PUSH15'', PUSH15),
      (''PUSH16'', PUSH16), (''PUSH17'', PUSH17), (''PUSH18'', PUSH18), (''PUSH19'', PUSH19),
      (''PUSH20'', PUSH20), (''PUSH21'', PUSH21), (''PUSH22'', PUSH22), (''PUSH23'', PUSH23),
      (''PUSH24'', PUSH24), (''PUSH25'', PUSH25), (''PUSH26'', PUSH26), (''PUSH27'', PUSH27),
      (''PUSH28'', PUSH28), (''PUSH29'', PUSH29), (''PUSH30'', PUSH30), (''PUSH31'', PUSH31),
      (''PUSH32'', PUSH32), (''DUP1'', DUP1), (''DUP2'', DUP2), (''DUP3'', DUP3), (''DUP4'', DUP4),
      (''DUP5'', DUP5), (''DUP6'', DUP6), (''DUP7'', DUP7), (''DUP8'', DUP8), (''DUP9'', DUP9),
      (''DUP10'', DUP10), (''DUP11'', DUP11), (''DUP12'', DUP12), (''DUP13'', DUP13),
      (''DUP14'', DUP14), (''DUP15'', DUP15), (''DUP16'', DUP16), (''SWAP1'', SWAP1),
      (''SWAP2'', SWAP2), (''SWAP3'', SWAP3), (''SWAP4'', SWAP4), (''SWAP5'', SWAP5),
      (''SWAP6'', SWAP6), (''SWAP7'', SWAP7), (''SWAP8'', SWAP8), (''SWAP9'', SWAP9),
      (''SWAP10'', SWAP10), (''SWAP11'', SWAP11), (''SWAP12'', SWAP12), (''SWAP13'', SWAP13),
      (''SWAP14'', SWAP14), (''SWAP15'', SWAP15), (''SWAP16'', SWAP16), (''LOG0'', LOG0),
      (''LOG1'', LOG1), (''LOG2'', LOG2), (''LOG3'', LOG3), (''LOG4'', LOG4),
      (''DATALOAD'', DATALOAD), (''DATALOADN'', DATALOADN), (''DATASIZE'', DATASIZE),
      (''DATACOPY'', DATACOPY), (''RJUMP'', RJUMP), (''RJUMPI'', RJUMPI), (''RJUMPV'', RJUMPV),
      (''CALLF'', CALLF), (''RETF'', RETF), (''JUMPF'', JUMPF), (''DUPN'', DUPN),
      (''SWAPN'', SWAPN), (''EXCHANGE'', EXCHANGE), (''EOFCREATE'', EOFCREATE),
      (''RETURNCONTRACT'', RETURNCONTRACT), (''CREATE'', CREATE), (''CREATE2'', CREATE2),
      (''RETURNDATALOAD'', RETURNDATALOAD), (''EXTCALL'', EXTCALL),
      (''EXTDELEGATECALL'', EXTDELEGATECALL), (''EXTSTATICCALL'', EXTSTATICCALL), (''CALL'', CALL),
      (''RETURN'', RETURN), (''CALLCODE'', CALLCODE), (''REVERT'', REVERT), (''INVALID'', INVALID),
      (''SELFDESTRUCT'', SELFDESTRUCT)]"

definition StringToOp :: "string \<Rightarrow> byte" where
  "StringToOp str = (case map_of opcode_strings str of None \<Rightarrow> 0 | Some op \<Rightarrow> op)"

section \<open>The two tables are inverse\<close>

lemma opcode_bytes_distinct: "distinct (map fst opcode_names)"
proof -
  have "distinct (map (\<lambda>p. unat (fst p)) opcode_names)"
    unfolding opcode_names_def by simp
  then show ?thesis by (simp add: distinct_map inj_on_def)
qed

lemma opcode_names_distinct: "distinct (map snd opcode_names)"
  unfolding opcode_names_def by simp

lemma opcode_tables_same: "set opcode_names = set (map prod.swap opcode_strings)"
proof -
  let ?k = "\<lambda>p. unat (fst p)"
  have "sort_key ?k opcode_names = sort_key ?k (map prod.swap opcode_strings)"
    unfolding opcode_names_def opcode_strings_def by simp
  then have "set (sort_key ?k opcode_names) = set (sort_key ?k (map prod.swap opcode_strings))"
    by (rule arg_cong)
  then show ?thesis by simp
qed

lemma opcode_strings_distinct: "distinct (map fst opcode_strings)"
proof -
  have "length opcode_strings = length opcode_names" unfolding opcode_names_def opcode_strings_def by simp
  moreover have "set (map fst opcode_strings) = set (map snd opcode_names)"
    using opcode_tables_same by force
  ultimately show ?thesis
    using opcode_names_distinct by (metis card_distinct distinct_card length_map)
qed

lemma opcode_lookup:
  "(op, s) \<in> set opcode_names \<Longrightarrow> opCodeToString op = s \<and> StringToOp s = op"
  using opcode_tables_same opcode_bytes_distinct opcode_strings_distinct
  by (force simp: opCodeToString_def StringToOp_def)

text \<open>
  Property C21. Names and opcodes translate into each other without loss: reading the name of a
  named opcode gives the opcode back, and a known name is the name of the opcode it denotes.
\<close>

theorem opcode_names_roundtrip:
  shows "(opCodeToString op \<noteq> [] \<longrightarrow> StringToOp (opCodeToString op) = op)
    \<and> (map_of opcode_strings str = Some op \<longrightarrow> opCodeToString op = str)"
proof
  show "opCodeToString op \<noteq> [] \<longrightarrow> StringToOp (opCodeToString op) = op"
    using opcode_lookup map_of_SomeD [of opcode_names op]
    by (auto simp: opCodeToString_def split: option.splits)
  show "map_of opcode_strings str = Some op \<longrightarrow> opCodeToString op = str"
    using opcode_lookup [of op str] opcode_tables_same by (force dest: map_of_SomeD)
qed

theorem opcode_names_roundtrip_witness:
  "opCodeToString SSTORE = ''SSTORE'' \<and> StringToOp (opCodeToString SSTORE) = SSTORE"
proof -
  have "opCodeToString SSTORE = ''SSTORE''" by (simp add: opCodeToString_def opcode_names_def)
  with opcode_names_roundtrip [of SSTORE] show ?thesis by simp
qed

end
