(* ===== verification/VM_JumpTable.thy ===== *)
theory VM_JumpTable
  imports VM_Eips VM_Opcodes
begin

text \<open>
  The instruction sets of \<open>core/vm/jump_table.go\<close> and the EIP activators of \<open>core/vm/eips.go\<close>. A table
  maps every byte to an operation or nil. Go updates operations in place through pointers that no
  other table shares; here every step returns the new table. \<open>None\<close> is a panic: an update of a nil
  entry or a table that \<open>validate\<close> rejects.
\<close>

section \<open>Operations\<close>

definition plain_op :: "executionFunc \<Rightarrow> u64 \<Rightarrow> int \<Rightarrow> int \<Rightarrow> operation" where
  "plain_op f gas mn mx =
     \<lparr>execute = f, constantGas = gas, dynamicGas = None, op_minStack = mn, op_maxStack = mx,
      memorySize = None, op_undefined = False\<rparr>"

definition dyn_op :: "executionFunc \<Rightarrow> u64 \<Rightarrow> gasFunc \<Rightarrow> int \<Rightarrow> int \<Rightarrow> operation" where
  "dyn_op f gas g mn mx =
     \<lparr>execute = f, constantGas = gas, dynamicGas = Some g, op_minStack = mn, op_maxStack = mx,
      memorySize = None, op_undefined = False\<rparr>"

definition mem_op ::
  "executionFunc \<Rightarrow> u64 \<Rightarrow> gasFunc \<Rightarrow> int \<Rightarrow> int \<Rightarrow> memorySizeFunc \<Rightarrow> operation" where
  "mem_op f gas g mn mx ms =
     \<lparr>execute = f, constantGas = gas, dynamicGas = Some g, op_minStack = mn, op_maxStack = mx,
      memorySize = Some ms, op_undefined = False\<rparr>"

definition undefined_op :: operation where
  "undefined_op =
     \<lparr>execute = opUndefined, constantGas = 0, dynamicGas = None, op_minStack = 0,
      op_maxStack = maxStack 0 0, memorySize = None, op_undefined = True\<rparr>"

lemmas operation_defs = plain_op_def dyn_op_def mem_op_def undefined_op_def

text \<open>\<open>jt[b].field = ...\<close>\<close>

definition jt_upd :: "byte \<Rightarrow> (operation \<Rightarrow> operation) \<Rightarrow> JumpTable \<Rightarrow> JumpTable option" where
  "jt_upd b f jt = (case jt b of None \<Rightarrow> None | Some op \<Rightarrow> Some (jt(b \<mapsto> f op)))"

definition set_gas :: "u64 \<Rightarrow> operation \<Rightarrow> operation" where
  "set_gas g op = op\<lparr>constantGas := g\<rparr>"

definition set_dyn :: "gasFunc \<Rightarrow> operation \<Rightarrow> operation" where
  "set_dyn g op = op\<lparr>dynamicGas := Some g\<rparr>"

definition validate :: "JumpTable \<Rightarrow> JumpTable option" where
  "validate jt =
     (if list_all (\<lambda>i. case jt (of_nat i) of
           None \<Rightarrow> False
         | Some op \<Rightarrow> \<not> (memorySize op \<noteq> None \<and> dynamicGas op = None)) [0..<256]
      then Some jt else None)"

section \<open>Frontier\<close>

definition frontier_arith :: "(byte \<times> operation) list" where
  "frontier_arith =
     [(STOP, plain_op opStop 0 (minStack 0 0) (maxStack 0 0)),
      (ADD, plain_op opAdd GasFastestStep (minStack 2 1) (maxStack 2 1)),
      (MUL, plain_op opMul GasFastStep (minStack 2 1) (maxStack 2 1)),
      (SUB, plain_op opSub GasFastestStep (minStack 2 1) (maxStack 2 1)),
      (DIV, plain_op opDiv GasFastStep (minStack 2 1) (maxStack 2 1)),
      (SDIV, plain_op opSdiv GasFastStep (minStack 2 1) (maxStack 2 1)),
      (MOD, plain_op opMod GasFastStep (minStack 2 1) (maxStack 2 1)),
      (SMOD, plain_op opSmod GasFastStep (minStack 2 1) (maxStack 2 1)),
      (ADDMOD, plain_op opAddmod GasMidStep (minStack 3 1) (maxStack 3 1)),
      (MULMOD, plain_op opMulmod GasMidStep (minStack 3 1) (maxStack 3 1)),
      (EXP, dyn_op opExp 0 gasExpFrontier (minStack 2 1) (maxStack 2 1)),
      (SIGNEXTEND, plain_op opSignExtend GasFastStep (minStack 2 1) (maxStack 2 1))]"

definition frontier_logic :: "(byte \<times> operation) list" where
  "frontier_logic =
     [(LT, plain_op opLt GasFastestStep (minStack 2 1) (maxStack 2 1)),
      (GT, plain_op opGt GasFastestStep (minStack 2 1) (maxStack 2 1)),
      (SLT, plain_op opSlt GasFastestStep (minStack 2 1) (maxStack 2 1)),
      (SGT, plain_op opSgt GasFastestStep (minStack 2 1) (maxStack 2 1)),
      (EQ, plain_op opEq GasFastestStep (minStack 2 1) (maxStack 2 1)),
      (ISZERO, plain_op opIszero GasFastestStep (minStack 1 1) (maxStack 1 1)),
      (AND, plain_op opAnd GasFastestStep (minStack 2 1) (maxStack 2 1)),
      (XOR, plain_op opXor GasFastestStep (minStack 2 1) (maxStack 2 1)),
      (OR, plain_op opOr GasFastestStep (minStack 2 1) (maxStack 2 1)),
      (NOT, plain_op opNot GasFastestStep (minStack 1 1) (maxStack 1 1)),
      (BYTE, plain_op opByte GasFastestStep (minStack 2 1) (maxStack 2 1)),
      (KECCAK256, mem_op opKeccak256 Keccak256Gas gasKeccak256 (minStack 2 1) (maxStack 2 1) memoryKeccak256)]"

definition frontier_closure :: "(byte \<times> operation) list" where
  "frontier_closure =
     [(ADDRESS, plain_op opAddress GasQuickStep (minStack 0 1) (maxStack 0 1)),
      (BALANCE, plain_op opBalance BalanceGasFrontier (minStack 1 1) (maxStack 1 1)),
      (ORIGIN, plain_op opOrigin GasQuickStep (minStack 0 1) (maxStack 0 1)),
      (CALLER, plain_op opCaller GasQuickStep (minStack 0 1) (maxStack 0 1)),
      (CALLVALUE, plain_op opCallValue GasQuickStep (minStack 0 1) (maxStack 0 1)),
      (CALLDATALOAD, plain_op opCallDataLoad GasFastestStep (minStack 1 1) (maxStack 1 1)),
      (CALLDATASIZE, plain_op opCallDataSize GasQuickStep (minStack 0 1) (maxStack 0 1)),
      (CALLDATACOPY, mem_op opCallDataCopy GasFastestStep gasCallDataCopy (minStack 3 0) (maxStack 3 0) memoryCallDataCopy),
      (CODESIZE, plain_op opCodeSize GasQuickStep (minStack 0 1) (maxStack 0 1)),
      (CODECOPY, mem_op opCodeCopy GasFastestStep gasCodeCopy (minStack 3 0) (maxStack 3 0) memoryCodeCopy),
      (GASPRICE, plain_op opGasprice GasQuickStep (minStack 0 1) (maxStack 0 1)),
      (EXTCODESIZE, plain_op opExtCodeSize ExtcodeSizeGasFrontier (minStack 1 1) (maxStack 1 1)),
      (EXTCODECOPY, mem_op opExtCodeCopy ExtcodeCopyBaseFrontier gasExtCodeCopy (minStack 4 0) (maxStack 4 0) memoryExtCodeCopy)]"

definition frontier_block :: "(byte \<times> operation) list" where
  "frontier_block =
     [(BLOCKHASH, plain_op opBlockhash GasExtStep (minStack 1 1) (maxStack 1 1)),
      (COINBASE, plain_op opCoinbase GasQuickStep (minStack 0 1) (maxStack 0 1)),
      (TIMESTAMP, plain_op opTimestamp GasQuickStep (minStack 0 1) (maxStack 0 1)),
      (NUMBER, plain_op opNumber GasQuickStep (minStack 0 1) (maxStack 0 1)),
      (DIFFICULTY, plain_op opDifficulty GasQuickStep (minStack 0 1) (maxStack 0 1)),
      (GASLIMIT, plain_op opGasLimit GasQuickStep (minStack 0 1) (maxStack 0 1))]"

definition frontier_flow :: "(byte \<times> operation) list" where
  "frontier_flow =
     [(POP, plain_op opPop GasQuickStep (minStack 1 0) (maxStack 1 0)),
      (MLOAD, mem_op opMload GasFastestStep gasMLoad (minStack 1 1) (maxStack 1 1) memoryMLoad),
      (MSTORE, mem_op opMstore GasFastestStep gasMStore (minStack 2 0) (maxStack 2 0) memoryMStore),
      (MSTORE8, mem_op opMstore8 GasFastestStep gasMStore8 (minStack 2 0) (maxStack 2 0) memoryMStore8),
      (SLOAD, plain_op opSload SloadGasFrontier (minStack 1 1) (maxStack 1 1)),
      (SSTORE, dyn_op opSstore 0 gasSStore (minStack 2 0) (maxStack 2 0)),
      (JUMP, plain_op opJump GasMidStep (minStack 1 0) (maxStack 1 0)),
      (JUMPI, plain_op opJumpi GasSlowStep (minStack 2 0) (maxStack 2 0)),
      (PC, plain_op opPc GasQuickStep (minStack 0 1) (maxStack 0 1)),
      (MSIZE, plain_op opMsize GasQuickStep (minStack 0 1) (maxStack 0 1)),
      (GAS, plain_op opGas GasQuickStep (minStack 0 1) (maxStack 0 1)),
      (JUMPDEST, plain_op opJumpdest JumpdestGas (minStack 0 0) (maxStack 0 0))]"

definition frontier_push_low :: "(byte \<times> operation) list" where
  "frontier_push_low =
     [(PUSH1, plain_op opPush1 GasFastestStep (minStack 0 1) (maxStack 0 1)),
      (PUSH2, plain_op opPush2 GasFastestStep (minStack 0 1) (maxStack 0 1)),
      (PUSH3, plain_op (makePush 3 3) GasFastestStep (minStack 0 1) (maxStack 0 1)),
      (PUSH4, plain_op (makePush 4 4) GasFastestStep (minStack 0 1) (maxStack 0 1)),
      (PUSH5, plain_op (makePush 5 5) GasFastestStep (minStack 0 1) (maxStack 0 1)),
      (PUSH6, plain_op (makePush 6 6) GasFastestStep (minStack 0 1) (maxStack 0 1)),
      (PUSH7, plain_op (makePush 7 7) GasFastestStep (minStack 0 1) (maxStack 0 1)),
      (PUSH8, plain_op (makePush 8 8) GasFastestStep (minStack 0 1) (maxStack 0 1)),
      (PUSH9, plain_op (makePush 9 9) GasFastestStep (minStack 0 1) (maxStack 0 1)),
      (PUSH10, plain_op (makePush 10 10) GasFastestStep (minStack 0 1) (maxStack 0 1)),
      (PUSH11, plain_op (makePush 11 11) GasFastestStep (minStack 0 1) (maxStack 0 1)),
      (PUSH12, plain_op (makePush 12 12) GasFastestStep (minStack 0 1) (maxStack 0 1)),
      (PUSH13, plain_op (makePush 13 13) GasFastestStep (minStack 0 1) (maxStack 0 1)),
      (PUSH14, plain_op (makePush 14 14) GasFastestStep (minStack 0 1) (maxStack 0 1)),
      (PUSH15, plain_op (makePush 15 15) GasFastestStep (minStack 0 1) (maxStack 0 1)),
      (PUSH16, plain_op (makePush 16 16) GasFastestStep (minStack 0 1) (maxStack 0 1))]"

definition frontier_push_high :: "(byte \<times> operation) list" where
  "frontier_push_high =
     [(PUSH17, plain_op (makePush 17 17) GasFastestStep (minStack 0 1) (maxStack 0 1)),
      (PUSH18, plain_op (makePush 18 18) GasFastestStep (minStack 0 1) (maxStack 0 1)),
      (PUSH19, plain_op (makePush 19 19) GasFastestStep (minStack 0 1) (maxStack 0 1)),
      (PUSH20, plain_op (makePush 20 20) GasFastestStep (minStack 0 1) (maxStack 0 1)),
      (PUSH21, plain_op (makePush 21 21) GasFastestStep (minStack 0 1) (maxStack 0 1)),
      (PUSH22, plain_op (makePush 22 22) GasFastestStep (minStack 0 1) (maxStack 0 1)),
      (PUSH23, plain_op (makePush 23 23) GasFastestStep (minStack 0 1) (maxStack 0 1)),
      (PUSH24, plain_op (makePush 24 24) GasFastestStep (minStack 0 1) (maxStack 0 1)),
      (PUSH25, plain_op (makePush 25 25) GasFastestStep (minStack 0 1) (maxStack 0 1)),
      (PUSH26, plain_op (makePush 26 26) GasFastestStep (minStack 0 1) (maxStack 0 1)),
      (PUSH27, plain_op (makePush 27 27) GasFastestStep (minStack 0 1) (maxStack 0 1)),
      (PUSH28, plain_op (makePush 28 28) GasFastestStep (minStack 0 1) (maxStack 0 1)),
      (PUSH29, plain_op (makePush 29 29) GasFastestStep (minStack 0 1) (maxStack 0 1)),
      (PUSH30, plain_op (makePush 30 30) GasFastestStep (minStack 0 1) (maxStack 0 1)),
      (PUSH31, plain_op (makePush 31 31) GasFastestStep (minStack 0 1) (maxStack 0 1)),
      (PUSH32, plain_op (makePush 32 32) GasFastestStep (minStack 0 1) (maxStack 0 1))]"

definition frontier_dup :: "(byte \<times> operation) list" where
  "frontier_dup =
     [(DUP1, plain_op (makeDup 1) GasFastestStep (minDupStack 1) (maxDupStack 1)),
      (DUP2, plain_op (makeDup 2) GasFastestStep (minDupStack 2) (maxDupStack 2)),
      (DUP3, plain_op (makeDup 3) GasFastestStep (minDupStack 3) (maxDupStack 3)),
      (DUP4, plain_op (makeDup 4) GasFastestStep (minDupStack 4) (maxDupStack 4)),
      (DUP5, plain_op (makeDup 5) GasFastestStep (minDupStack 5) (maxDupStack 5)),
      (DUP6, plain_op (makeDup 6) GasFastestStep (minDupStack 6) (maxDupStack 6)),
      (DUP7, plain_op (makeDup 7) GasFastestStep (minDupStack 7) (maxDupStack 7)),
      (DUP8, plain_op (makeDup 8) GasFastestStep (minDupStack 8) (maxDupStack 8)),
      (DUP9, plain_op (makeDup 9) GasFastestStep (minDupStack 9) (maxDupStack 9)),
      (DUP10, plain_op (makeDup 10) GasFastestStep (minDupStack 10) (maxDupStack 10)),
      (DUP11, plain_op (makeDup 11) GasFastestStep (minDupStack 11) (maxDupStack 11)),
      (DUP12, plain_op (makeDup 12) GasFastestStep (minDupStack 12) (maxDupStack 12)),
      (DUP13, plain_op (makeDup 13) GasFastestStep (minDupStack 13) (maxDupStack 13)),
      (DUP14, plain_op (makeDup 14) GasFastestStep (minDupStack 14) (maxDupStack 14)),
      (DUP15, plain_op (makeDup 15) GasFastestStep (minDupStack 15) (maxDupStack 15)),
      (DUP16, plain_op (makeDup 16) GasFastestStep (minDupStack 16) (maxDupStack 16))]"

definition frontier_swap :: "(byte \<times> operation) list" where
  "frontier_swap =
     [(SWAP1, plain_op (opSwap 1) GasFastestStep (minSwapStack 2) (maxSwapStack 2)),
      (SWAP2, plain_op (opSwap 2) GasFastestStep (minSwapStack 3) (maxSwapStack 3)),
      (SWAP3, plain_op (opSwap 3) GasFastestStep (minSwapStack 4) (maxSwapStack 4)),
      (SWAP4, plain_op (opSwap 4) GasFastestStep (minSwapStack 5) (maxSwapStack 5)),
      (SWAP5, plain_op (opSwap 5) GasFastestStep (minSwapStack 6) (maxSwapStack 6)),
      (SWAP6, plain_op (opSwap 6) GasFastestStep (minSwapStack 7) (maxSwapStack 7)),
      (SWAP7, plain_op (opSwap 7) GasFastestStep (minSwapStack 8) (maxSwapStack 8)),
      (SWAP8, plain_op (opSwap 8) GasFastestStep (minSwapStack 9) (maxSwapStack 9)),
      (SWAP9, plain_op (opSwap 9) GasFastestStep (minSwapStack 10) (maxSwapStack 10)),
      (SWAP10, plain_op (opSwap 10) GasFastestStep (minSwapStack 11) (maxSwapStack 11)),
      (SWAP11, plain_op (opSwap 11) GasFastestStep (minSwapStack 12) (maxSwapStack 12)),
      (SWAP12, plain_op (opSwap 12) GasFastestStep (minSwapStack 13) (maxSwapStack 13)),
      (SWAP13, plain_op (opSwap 13) GasFastestStep (minSwapStack 14) (maxSwapStack 14)),
      (SWAP14, plain_op (opSwap 14) GasFastestStep (minSwapStack 15) (maxSwapStack 15)),
      (SWAP15, plain_op (opSwap 15) GasFastestStep (minSwapStack 16) (maxSwapStack 16)),
      (SWAP16, plain_op (opSwap 16) GasFastestStep (minSwapStack 17) (maxSwapStack 17))]"

definition frontier_log :: "(byte \<times> operation) list" where
  "frontier_log =
     [(LOG0, mem_op (makeLog 0) 0 (makeGasLog 0) (minStack 2 0) (maxStack 2 0) memoryLog),
      (LOG1, mem_op (makeLog 1) 0 (makeGasLog 1) (minStack 3 0) (maxStack 3 0) memoryLog),
      (LOG2, mem_op (makeLog 2) 0 (makeGasLog 2) (minStack 4 0) (maxStack 4 0) memoryLog),
      (LOG3, mem_op (makeLog 3) 0 (makeGasLog 3) (minStack 5 0) (maxStack 5 0) memoryLog),
      (LOG4, mem_op (makeLog 4) 0 (makeGasLog 4) (minStack 6 0) (maxStack 6 0) memoryLog)]"

definition frontier_system :: "(byte \<times> operation) list" where
  "frontier_system =
     [(CREATE, mem_op opCreate CreateGas gasCreate (minStack 3 1) (maxStack 3 1) memoryCreate),
      (CALL, mem_op opCall CallGasFrontier gasCall (minStack 7 1) (maxStack 7 1) memoryCall),
      (CALLCODE, mem_op opCallCode CallGasFrontier gasCallCode (minStack 7 1) (maxStack 7 1) memoryCall),
      (RETURN, mem_op opReturn 0 gasReturn (minStack 2 0) (maxStack 2 0) memoryReturn),
      (SELFDESTRUCT, dyn_op opSelfdestruct 0 gasSelfdestruct (minStack 1 0) (maxStack 1 0)),
      (INVALID, plain_op opUndefined 0 (minStack 0 0) (maxStack 0 0))]"

definition frontier_entries :: "(byte \<times> operation) list" where
  "frontier_entries = frontier_arith @ frontier_logic @ frontier_closure @ frontier_block @ frontier_flow
     @ frontier_push_low @ frontier_push_high @ frontier_dup @ frontier_swap @ frontier_log @ frontier_system"

definition newFrontierInstructionSet :: "JumpTable option" where
  "newFrontierInstructionSet =
     (let tbl = map_of frontier_entries;
          tbl = (\<lambda>b. case tbl b of None \<Rightarrow> Some undefined_op | Some op \<Rightarrow> Some op)
      in validate tbl)"

section \<open>EIP activators\<close>

definition enable1884 :: "JumpTable \<Rightarrow> JumpTable option" where
  "enable1884 jt = do {
     jt \<leftarrow> jt_upd SLOAD (set_gas SloadGasEIP1884) jt;
     jt \<leftarrow> jt_upd BALANCE (set_gas BalanceGasEIP1884) jt;
     jt \<leftarrow> jt_upd EXTCODEHASH (set_gas ExtcodeHashGasEIP1884) jt;
     Some (jt(SELFBALANCE \<mapsto> plain_op opSelfBalance GasFastStep (minStack 0 1) (maxStack 0 1)))
   }"

definition enable1344 :: "JumpTable \<Rightarrow> JumpTable option" where
  "enable1344 jt =
     Some (jt(CHAINID \<mapsto> plain_op opChainID GasQuickStep (minStack 0 1) (maxStack 0 1)))"

definition enable2200 :: "JumpTable \<Rightarrow> JumpTable option" where
  "enable2200 jt = do {
     jt \<leftarrow> jt_upd SLOAD (set_gas SloadGasEIP2200) jt;
     jt_upd SSTORE (set_dyn gasSStoreEIP2200) jt
   }"

definition enable2929 :: "JumpTable \<Rightarrow> JumpTable option" where
  "enable2929 jt = do {
     jt \<leftarrow> jt_upd SSTORE (set_dyn gasSStoreEIP2929) jt;
     jt \<leftarrow> jt_upd SLOAD (set_gas 0) jt;
     jt \<leftarrow> jt_upd SLOAD (set_dyn gasSLoadEIP2929) jt;
     jt \<leftarrow> jt_upd EXTCODECOPY (set_gas WarmStorageReadCostEIP2929) jt;
     jt \<leftarrow> jt_upd EXTCODECOPY (set_dyn gasExtCodeCopyEIP2929) jt;
     jt \<leftarrow> jt_upd EXTCODESIZE (set_gas WarmStorageReadCostEIP2929) jt;
     jt \<leftarrow> jt_upd EXTCODESIZE (set_dyn gasEip2929AccountCheck) jt;
     jt \<leftarrow> jt_upd EXTCODEHASH (set_gas WarmStorageReadCostEIP2929) jt;
     jt \<leftarrow> jt_upd EXTCODEHASH (set_dyn gasEip2929AccountCheck) jt;
     jt \<leftarrow> jt_upd BALANCE (set_gas WarmStorageReadCostEIP2929) jt;
     jt \<leftarrow> jt_upd BALANCE (set_dyn gasEip2929AccountCheck) jt;
     jt \<leftarrow> jt_upd CALL (set_gas WarmStorageReadCostEIP2929) jt;
     jt \<leftarrow> jt_upd CALL (set_dyn gasCallEIP2929) jt;
     jt \<leftarrow> jt_upd CALLCODE (set_gas WarmStorageReadCostEIP2929) jt;
     jt \<leftarrow> jt_upd CALLCODE (set_dyn gasCallCodeEIP2929) jt;
     jt \<leftarrow> jt_upd STATICCALL (set_gas WarmStorageReadCostEIP2929) jt;
     jt \<leftarrow> jt_upd STATICCALL (set_dyn gasStaticCallEIP2929) jt;
     jt \<leftarrow> jt_upd DELEGATECALL (set_gas WarmStorageReadCostEIP2929) jt;
     jt \<leftarrow> jt_upd DELEGATECALL (set_dyn gasDelegateCallEIP2929) jt;
     jt \<leftarrow> jt_upd SELFDESTRUCT (set_gas SelfdestructGasEIP150) jt;
     jt_upd SELFDESTRUCT (set_dyn gasSelfdestructEIP2929) jt
   }"

definition enable3529 :: "JumpTable \<Rightarrow> JumpTable option" where
  "enable3529 jt = do {
     jt \<leftarrow> jt_upd SSTORE (set_dyn gasSStoreEIP3529) jt;
     jt_upd SELFDESTRUCT (set_dyn gasSelfdestructEIP3529) jt
   }"

definition enable3198 :: "JumpTable \<Rightarrow> JumpTable option" where
  "enable3198 jt =
     Some (jt(BASEFEE \<mapsto> plain_op opBaseFee GasQuickStep (minStack 0 1) (maxStack 0 1)))"

definition enable1153 :: "JumpTable \<Rightarrow> JumpTable option" where
  "enable1153 jt =
     Some (jt(TLOAD \<mapsto> plain_op opTload WarmStorageReadCostEIP2929 (minStack 1 1) (maxStack 1 1),
              TSTORE \<mapsto> plain_op opTstore WarmStorageReadCostEIP2929 (minStack 2 0) (maxStack 2 0)))"

definition enable3855 :: "JumpTable \<Rightarrow> JumpTable option" where
  "enable3855 jt =
     Some (jt(PUSH0 \<mapsto> plain_op opPush0 GasQuickStep (minStack 0 1) (maxStack 0 1)))"

definition enable3860 :: "JumpTable \<Rightarrow> JumpTable option" where
  "enable3860 jt = do {
     jt \<leftarrow> jt_upd CREATE (set_dyn gasCreateEip3860) jt;
     jt_upd CREATE2 (set_dyn gasCreate2Eip3860) jt
   }"

definition enable5656 :: "JumpTable \<Rightarrow> JumpTable option" where
  "enable5656 jt =
     Some (jt(MCOPY \<mapsto> mem_op opMcopy GasFastestStep gasMcopy (minStack 3 0) (maxStack 3 0) memoryMcopy))"

definition enable4844 :: "JumpTable \<Rightarrow> JumpTable option" where
  "enable4844 jt =
     Some (jt(BLOBHASH \<mapsto> plain_op opBlobHash GasFastestStep (minStack 1 1) (maxStack 1 1)))"

definition enable7516 :: "JumpTable \<Rightarrow> JumpTable option" where
  "enable7516 jt =
     Some (jt(BLOBBASEFEE \<mapsto> plain_op opBlobBaseFee GasQuickStep (minStack 0 1) (maxStack 0 1)))"

definition enable6780 :: "JumpTable \<Rightarrow> JumpTable option" where
  "enable6780 jt =
     Some (jt(SELFDESTRUCT \<mapsto> dyn_op opSelfdestruct6780 SelfdestructGasEIP150 gasSelfdestructEIP3529
                              (minStack 1 0) (maxStack 1 0)))"

definition enable7702 :: "JumpTable \<Rightarrow> JumpTable option" where
  "enable7702 jt = do {
     jt \<leftarrow> jt_upd CALL (set_dyn gasCallEIP7702) jt;
     jt \<leftarrow> jt_upd CALLCODE (set_dyn gasCallCodeEIP7702) jt;
     jt \<leftarrow> jt_upd STATICCALL (set_dyn gasStaticCallEIP7702) jt;
     jt_upd DELEGATECALL (set_dyn gasDelegateCallEIP7702) jt
   }"

definition verkle_entries :: "(byte \<times> operation) list" where
  "verkle_entries =
     [(SSTORE, dyn_op opSstore 0 gasSStore4762 (minStack 2 0) (maxStack 2 0)),
      (SLOAD, dyn_op opSload 0 gasSLoad4762 (minStack 1 1) (maxStack 1 1)),
      (BALANCE, dyn_op opBalance 0 gasBalance4762 (minStack 1 1) (maxStack 1 1)),
      (EXTCODESIZE, dyn_op opExtCodeSize 0 gasExtCodeSize4762 (minStack 1 1) (maxStack 1 1)),
      (EXTCODEHASH, dyn_op opExtCodeHash 0 gasExtCodeHash4762 (minStack 1 1) (maxStack 1 1)),
      (EXTCODECOPY, mem_op opExtCodeCopyEIP4762 0 gasExtCodeCopyEIP4762 (minStack 4 0) (maxStack 4 0) memoryExtCodeCopy),
      (CODECOPY, mem_op opCodeCopy GasFastestStep gasCodeCopyEip4762 (minStack 3 0) (maxStack 3 0) memoryCodeCopy),
      (SELFDESTRUCT, dyn_op opSelfdestruct6780 SelfdestructGasEIP150 gasSelfdestructEIP4762 (minStack 1 0) (maxStack 1 0)),
      (CREATE, mem_op opCreate CreateNGasEip4762 gasCreateEip3860 (minStack 3 1) (maxStack 3 1) memoryCreate),
      (CREATE2, mem_op opCreate2 CreateNGasEip4762 gasCreate2Eip3860 (minStack 4 1) (maxStack 4 1) memoryCreate2),
      (CALL, mem_op opCall 0 gasCallEIP4762 (minStack 7 1) (maxStack 7 1) memoryCall),
      (CALLCODE, mem_op opCallCode 0 gasCallCodeEIP4762 (minStack 7 1) (maxStack 7 1) memoryCall),
      (STATICCALL, mem_op opStaticCall 0 gasStaticCallEIP4762 (minStack 6 1) (maxStack 6 1) memoryStaticCall),
      (DELEGATECALL, mem_op opDelegateCall 0 gasDelegateCallEIP4762 (minStack 6 1) (maxStack 6 1) memoryDelegateCall),
      (PUSH1, plain_op opPush1EIP4762 GasFastestStep (minStack 0 1) (maxStack 0 1))]"

definition verkle_pushes :: "(byte \<times> operation) list" where
  "verkle_pushes =
     map (\<lambda>i. (PUSH1 + of_nat i,
               plain_op (makePushEIP4762 (of_nat (i + 1)) (i + 1)) GasFastestStep (minStack 0 1) (maxStack 0 1)))
       [1..<32]"

text \<open>The assignments in program order: a later one would win.\<close>

definition jt_set_all :: "(byte \<times> operation) list \<Rightarrow> JumpTable \<Rightarrow> JumpTable" where
  "jt_set_all es jt = foldl (\<lambda>jt (b, op). jt(b \<mapsto> op)) jt es"

definition enable4762 :: "JumpTable \<Rightarrow> JumpTable option" where
  "enable4762 jt = Some (jt_set_all (verkle_entries @ verkle_pushes) jt)"

definition eof_undefined :: operation where
  "eof_undefined =
     \<lparr>execute = opUndefined, constantGas = 0, dynamicGas = None, op_minStack = minStack 0 0,
      op_maxStack = maxStack 0 0, memorySize = None, op_undefined = True\<rparr>"

definition eof_deprecated :: "byte list" where
  "eof_deprecated =
     [CALL, CALLCODE, DELEGATECALL, STATICCALL, SELFDESTRUCT, JUMP, JUMPI, PC, CREATE, CREATE2, CODESIZE,
      CODECOPY, EXTCODESIZE, EXTCODECOPY, EXTCODEHASH, GAS]"

definition eof_entries :: "(byte \<times> operation) list" where
  "eof_entries =
     [(INVALID, plain_op opUndefined 0 (minStack 0 0) (maxStack 0 0)),
      (RJUMP, plain_op opRjump GasQuickStep (minStack 0 0) (maxStack 0 0)),
      (RJUMPI, plain_op opRjumpi GasFastishStep (minStack 1 0) (maxStack 1 0)),
      (RJUMPV, plain_op opRjumpv GasFastishStep (minStack 1 0) (maxStack 1 0)),
      (CALLF, plain_op opCallf GasFastStep (minStack 0 0) (maxStack 0 0)),
      (RETF, plain_op opRetf GasFastestStep (minStack 0 0) (maxStack 0 0)),
      (JUMPF, plain_op opJumpf GasFastStep (minStack 0 0) (maxStack 0 0)),
      (EOFCREATE, mem_op opEOFCreate Create2Gas gasEOFCreate (minStack 4 1) (maxStack 4 1) memoryEOFCreate),
      (RETURNCONTRACT, mem_op opReturnContract 0 pureMemoryGascost (minStack 2 0) (maxStack 2 0) memoryReturnContract),
      (DATALOAD, plain_op opDataLoad GasFastishStep (minStack 1 1) (maxStack 1 1)),
      (DATALOADN, plain_op opDataLoadN GasFastestStep (minStack 0 1) (maxStack 0 1)),
      (DATASIZE, plain_op opDataSize GasQuickStep (minStack 0 1) (maxStack 0 1)),
      (DATACOPY, mem_op opDataCopy GasFastestStep (memoryCopierGas 2) (minStack 3 0) (maxStack 3 0) memoryDataCopy),
      (DUPN, plain_op opDupN GasFastestStep (minStack 0 1) (maxStack 0 1)),
      (SWAPN, plain_op opSwapN GasFastestStep (minStack 0 0) (maxStack 0 0)),
      (EXCHANGE, plain_op opExchange GasFastestStep (minStack 0 0) (maxStack 0 0)),
      (RETURNDATALOAD, plain_op opReturnDataLoad GasFastestStep (minStack 1 1) (maxStack 1 1)),
      (EXTCALL, mem_op opExtCall WarmStorageReadCostEIP2929 (makeCallVariantGasCallEIP2929 gasExtCall 0)
         (minStack 4 1) (maxStack 4 1) memoryExtCall),
      (EXTDELEGATECALL, mem_op opExtDelegateCall WarmStorageReadCostEIP2929
         (makeCallVariantGasCallEIP2929 gasExtDelegateCall 0) (minStack 3 1) (maxStack 3 1) memoryExtCall),
      (EXTSTATICCALL, mem_op opExtStaticCall WarmStorageReadCostEIP2929
         (makeCallVariantGasCallEIP2929 gasExtStaticCall 0) (minStack 3 1) (maxStack 3 1) memoryExtCall)]"

definition enableEOF :: "JumpTable \<Rightarrow> JumpTable option" where
  "enableEOF jt =
     Some (jt_set_all eof_entries (jt_set_all (map (\<lambda>b. (b, eof_undefined)) eof_deprecated) jt))"

definition activators :: "int \<Rightarrow> (JumpTable \<Rightarrow> JumpTable option) option" where
  "activators = map_of
     [(5656, enable5656), (6780, enable6780), (3855, enable3855), (3860, enable3860), (3529, enable3529),
      (3198, enable3198), (2929, enable2929), (2200, enable2200), (1884, enable1884), (1344, enable1344),
      (1153, enable1153), (4762, enable4762), (7702, enable7702)]"

text \<open>The error is \<open>"undefined eip %d"\<close>; the table is unchanged then.\<close>

definition EnableEIP :: "int \<Rightarrow> JumpTable \<Rightarrow> (JumpTable \<times> bool) option" where
  "EnableEIP eipNum jt =
     (case activators eipNum of
        None \<Rightarrow> Some (jt, False)
      | Some enablerFn \<Rightarrow> do { jt \<leftarrow> enablerFn jt; Some (jt, True) })"

definition ValidEip :: "int \<Rightarrow> bool" where
  "ValidEip eipNum = (activators eipNum \<noteq> None)"

section \<open>The forks\<close>

definition newHomesteadInstructionSet :: "JumpTable option" where
  "newHomesteadInstructionSet = do {
     jt \<leftarrow> newFrontierInstructionSet;
     validate (jt(DELEGATECALL \<mapsto> mem_op opDelegateCall CallGasFrontier gasDelegateCall
                                   (minStack 6 1) (maxStack 6 1) memoryDelegateCall))
   }"

definition newTangerineWhistleInstructionSet :: "JumpTable option" where
  "newTangerineWhistleInstructionSet = do {
     jt \<leftarrow> newHomesteadInstructionSet;
     jt \<leftarrow> jt_upd BALANCE (set_gas BalanceGasEIP150) jt;
     jt \<leftarrow> jt_upd EXTCODESIZE (set_gas ExtcodeSizeGasEIP150) jt;
     jt \<leftarrow> jt_upd SLOAD (set_gas SloadGasEIP150) jt;
     jt \<leftarrow> jt_upd EXTCODECOPY (set_gas ExtcodeCopyBaseEIP150) jt;
     jt \<leftarrow> jt_upd CALL (set_gas CallGasEIP150) jt;
     jt \<leftarrow> jt_upd CALLCODE (set_gas CallGasEIP150) jt;
     jt \<leftarrow> jt_upd DELEGATECALL (set_gas CallGasEIP150) jt;
     validate jt
   }"

definition newSpuriousDragonInstructionSet :: "JumpTable option" where
  "newSpuriousDragonInstructionSet = do {
     jt \<leftarrow> newTangerineWhistleInstructionSet;
     jt \<leftarrow> jt_upd EXP (set_dyn gasExpEIP158) jt;
     validate jt
   }"

definition newByzantiumInstructionSet :: "JumpTable option" where
  "newByzantiumInstructionSet = do {
     jt \<leftarrow> newSpuriousDragonInstructionSet;
     validate (jt(STATICCALL \<mapsto> mem_op opStaticCall CallGasEIP150 gasStaticCall (minStack 6 1) (maxStack 6 1) memoryStaticCall,
                  RETURNDATASIZE \<mapsto> plain_op opReturnDataSize GasQuickStep (minStack 0 1) (maxStack 0 1),
                  RETURNDATACOPY \<mapsto> mem_op opReturnDataCopy GasFastestStep gasReturnDataCopy (minStack 3 0) (maxStack 3 0) memoryReturnDataCopy,
                  REVERT \<mapsto> mem_op opRevert 0 gasRevert (minStack 2 0) (maxStack 2 0) memoryRevert))
   }"

definition newConstantinopleInstructionSet :: "JumpTable option" where
  "newConstantinopleInstructionSet = do {
     jt \<leftarrow> newByzantiumInstructionSet;
     validate (jt(SHL \<mapsto> plain_op opSHL GasFastestStep (minStack 2 1) (maxStack 2 1),
                  SHR \<mapsto> plain_op opSHR GasFastestStep (minStack 2 1) (maxStack 2 1),
                  SAR \<mapsto> plain_op opSAR GasFastestStep (minStack 2 1) (maxStack 2 1),
                  EXTCODEHASH \<mapsto> plain_op opExtCodeHash ExtcodeHashGasConstantinople (minStack 1 1) (maxStack 1 1),
                  CREATE2 \<mapsto> mem_op opCreate2 Create2Gas gasCreate2 (minStack 4 1) (maxStack 4 1) memoryCreate2))
   }"

definition newIstanbulInstructionSet :: "JumpTable option" where
  "newIstanbulInstructionSet = do {
     jt \<leftarrow> newConstantinopleInstructionSet;
     jt \<leftarrow> enable1344 jt;
     jt \<leftarrow> enable1884 jt;
     jt \<leftarrow> enable2200 jt;
     validate jt
   }"

definition newBerlinInstructionSet :: "JumpTable option" where
  "newBerlinInstructionSet = do {
     jt \<leftarrow> newIstanbulInstructionSet;
     jt \<leftarrow> enable2929 jt;
     validate jt
   }"

definition newLondonInstructionSet :: "JumpTable option" where
  "newLondonInstructionSet = do {
     jt \<leftarrow> newBerlinInstructionSet;
     jt \<leftarrow> enable3529 jt;
     jt \<leftarrow> enable3198 jt;
     validate jt
   }"

definition newMergeInstructionSet :: "JumpTable option" where
  "newMergeInstructionSet = do {
     jt \<leftarrow> newLondonInstructionSet;
     validate (jt(PREVRANDAO \<mapsto> plain_op opRandom GasQuickStep (minStack 0 1) (maxStack 0 1)))
   }"

definition newShanghaiInstructionSet :: "JumpTable option" where
  "newShanghaiInstructionSet = do {
     jt \<leftarrow> newMergeInstructionSet;
     jt \<leftarrow> enable3855 jt;
     jt \<leftarrow> enable3860 jt;
     validate jt
   }"

definition newCancunInstructionSet :: "JumpTable option" where
  "newCancunInstructionSet = do {
     jt \<leftarrow> newShanghaiInstructionSet;
     jt \<leftarrow> enable4844 jt;
     jt \<leftarrow> enable7516 jt;
     jt \<leftarrow> enable1153 jt;
     jt \<leftarrow> enable5656 jt;
     jt \<leftarrow> enable6780 jt;
     validate jt
   }"

definition newPragueInstructionSet :: "JumpTable option" where
  "newPragueInstructionSet = do {
     jt \<leftarrow> newCancunInstructionSet;
     jt \<leftarrow> enable7702 jt;
     validate jt
   }"

definition newVerkleInstructionSet :: "JumpTable option" where
  "newVerkleInstructionSet = do {
     jt \<leftarrow> newShanghaiInstructionSet;
     jt \<leftarrow> enable4762 jt;
     validate jt
   }"

definition newEOFInstructionSetForTesting :: "JumpTable option" where
  "newEOFInstructionSetForTesting = do {
     jt \<leftarrow> newPragueInstructionSet;
     jt \<leftarrow> enableEOF jt;
     validate jt
   }"

section \<open>Lookup\<close>

text \<open>\<open>LookupInstructionSet\<close> of \<open>core/vm/jump_table_export.go\<close>; the flag says whether an error comes with it.\<close>

definition LookupInstructionSet :: "Rules \<Rightarrow> (JumpTable \<times> bool) option" where
  "LookupInstructionSet rules =
     (if IsVerkle rules then map_option (\<lambda>jt. (jt, True)) newCancunInstructionSet
      else if IsOsaka rules then map_option (\<lambda>jt. (jt, True)) newPragueInstructionSet
      else if IsPrague rules then map_option (\<lambda>jt. (jt, False)) newPragueInstructionSet
      else if IsCancun rules then map_option (\<lambda>jt. (jt, False)) newCancunInstructionSet
      else if IsShanghai rules then map_option (\<lambda>jt. (jt, False)) newShanghaiInstructionSet
      else if IsMerge rules then map_option (\<lambda>jt. (jt, False)) newMergeInstructionSet
      else if IsLondon rules then map_option (\<lambda>jt. (jt, False)) newLondonInstructionSet
      else if IsBerlin rules then map_option (\<lambda>jt. (jt, False)) newBerlinInstructionSet
      else if IsIstanbul rules then map_option (\<lambda>jt. (jt, False)) newIstanbulInstructionSet
      else if IsConstantinople rules then map_option (\<lambda>jt. (jt, False)) newConstantinopleInstructionSet
      else if IsByzantium rules then map_option (\<lambda>jt. (jt, False)) newByzantiumInstructionSet
      else if IsEIP158 rules then map_option (\<lambda>jt. (jt, False)) newSpuriousDragonInstructionSet
      else if IsEIP150 rules then map_option (\<lambda>jt. (jt, False)) newTangerineWhistleInstructionSet
      else if IsHomestead rules then map_option (\<lambda>jt. (jt, False)) newHomesteadInstructionSet
      else map_option (\<lambda>jt. (jt, False)) newFrontierInstructionSet)"

definition HasCost :: "operation \<Rightarrow> bool" where
  "HasCost op = (dynamicGas op \<noteq> None \<or> constantGas op \<noteq> 0)"

end
