(* ===== verification/VM_Interpreter.thy ===== *)
theory VM_Interpreter
  imports VM_JumpTable
begin

text \<open>
  The interpreter (\<open>core/vm/interpreter.go\<close>): the choice of the instruction set, one iteration of the
  main loop (\<open>run_step\<close>), the loop and \<open>Run\<close>. The loop has a bound on its iterations; the theory of
  the EVM shows that one more than the gas is always enough. The tracer calls are left out.
\<close>

section \<open>The instruction set\<close>

definition select_table :: "Rules \<Rightarrow> JumpTable option" where
  "select_table rules =
     (if IsVerkle rules then newVerkleInstructionSet
      else if IsPrague rules then newPragueInstructionSet
      else if IsCancun rules then newCancunInstructionSet
      else if IsShanghai rules then newShanghaiInstructionSet
      else if IsMerge rules then newMergeInstructionSet
      else if IsLondon rules then newLondonInstructionSet
      else if IsBerlin rules then newBerlinInstructionSet
      else if IsIstanbul rules then newIstanbulInstructionSet
      else if IsConstantinople rules then newConstantinopleInstructionSet
      else if IsByzantium rules then newByzantiumInstructionSet
      else if IsEIP158 rules then newSpuriousDragonInstructionSet
      else if IsEIP150 rules then newTangerineWhistleInstructionSet
      else if IsHomestead rules then newHomesteadInstructionSet
      else newFrontierInstructionSet)"

text \<open>Extra EIPs are applied in order; one that cannot be activated is logged and dropped.\<close>

fun enable_extra :: "int list \<Rightarrow> JumpTable \<Rightarrow> (JumpTable \<times> int list) option" where
  "enable_extra [] jt = Some (jt, [])"
| "enable_extra (eip # eips) jt = do {
     (jt, done) \<leftarrow> EnableEIP eip jt;
     (jt, rest) \<leftarrow> enable_extra eips jt;
     Some (jt, if done then eip # rest else rest)
   }"

definition NewEVMInterpreter :: "Rules \<Rightarrow> int list \<Rightarrow> (JumpTable \<times> int list) option" where
  "NewEVMInterpreter rules extraEips = do {
     jt \<leftarrow> select_table rules;
     enable_extra extraEips jt
   }"

section \<open>The main loop\<close>

text \<open>
  One iteration either continues with a new program counter, or ends with a result and an error.
  The steps before the execution of the operation (witness charge, stack validation, gas, memory)
  leave with an error and no result.
\<close>

type_synonym stepres = "((u64 \<times> evm \<times> scope) + (bytes \<times> vmerr option \<times> evm \<times> scope)) option"

definition leave :: "vmerr \<Rightarrow> evm \<Rightarrow> scope \<Rightarrow> stepres" where
  "leave err w sc = Some (Inr ([], Some err, w, sc))"

definition charge_chunk :: "env \<Rightarrow> u64 \<Rightarrow> evm \<Rightarrow> scope \<Rightarrow> (bool \<times> evm \<times> scope) option" where
  "charge_chunk E pc w sc =
     (let c = Con sc in
      if IsEIP4762 (chainRules E) \<and> \<not> IsDeployment c \<and> \<not> IsSystemCall c then do {
        ((consumed, wanted), w) \<leftarrow>
          charges_opt (\<lambda>ae. CodeChunksRangeGas ae (caddress c) pc 1 (of_nat (length (Code c))) False (Gas c)) w;
        Some (consumed \<ge> wanted, w, sc\<lparr>Con := snd (UseGas c consumed)\<rparr>)
      }
      else Some (True, w, sc))"

text \<open>The memory size an operation asks for, in whole words; \<open>Inl\<close> when it overflows.\<close>

definition wanted_memory :: "operation \<Rightarrow> Stack \<Rightarrow> (bool + u64) option" where
  "wanted_memory op st =
     (case memorySize op of
        None \<Rightarrow> Some (Inr 0)
      | Some f \<Rightarrow> do {
          (memSize, overflow) \<leftarrow> f st;
          if overflow then Some (Inl True)
          else
            let (sz, overflow) = SafeMul (toWordSize memSize) 32 in
            Some (if overflow then Inl True else Inr sz)
        })"

text \<open>The execution of an operation once it is paid for.\<close>

definition perform :: "env \<Rightarrow> calls \<Rightarrow> operation \<Rightarrow> u64 \<Rightarrow> u64 \<Rightarrow> evm \<Rightarrow> scope \<Rightarrow> stepres" where
  "perform E k op sz pc w sc = do {
     let sc = (if sz > 0 then sc\<lparr>Mem := mem_Resize (Mem sc) sz\<rparr> else sc);
     ((res, err), pc, w, sc) \<leftarrow> execute op E k pc w sc;
     Some (if err \<noteq> None then Inr (res, err, w, sc) else Inl (pc + 1, w, sc))
   }"

definition exec_op :: "env \<Rightarrow> calls \<Rightarrow> operation \<Rightarrow> u64 \<Rightarrow> evm \<Rightarrow> scope \<Rightarrow> stepres" where
  "exec_op E k op pc w sc =
     (let sLen = length (Stk sc);
          c = Con sc;
          cost = constantGas op
      in
        if int sLen < op_minStack op then leave (ErrStackUnderflow sLen (op_minStack op)) w sc
        else if int sLen > op_maxStack op then leave (ErrStackOverflow sLen (op_maxStack op)) w sc
        else if Gas c < cost then leave ErrOutOfGas w sc
        else
          let c = c\<lparr>Gas := Gas c - cost\<rparr>;
              sc = sc\<lparr>Con := c\<rparr>
          in case dynamicGas op of
               None \<Rightarrow> perform E k op 0 pc w sc
             | Some gasFn \<Rightarrow> do {
                 size' \<leftarrow> wanted_memory op (Stk sc);
                 case size' of
                   Inl _ \<Rightarrow> leave ErrGasUintOverflow w sc
                 | Inr sz \<Rightarrow> do {
                     ((dynamicCost, err), w, c, m) \<leftarrow> gasFn E w c (Stk sc) (Mem sc) sz;
                     let sc = sc\<lparr>Con := c, Mem := m\<rparr>;
                     case err of
                       Some e \<Rightarrow> leave (WrapErr ErrOutOfGas e) w sc
                     | None \<Rightarrow>
                       if Gas c < dynamicCost then leave ErrOutOfGas w sc
                       else perform E k op sz pc w (sc\<lparr>Con := c\<lparr>Gas := Gas c - dynamicCost\<rparr>\<rparr>)
                   }
               })"

definition run_step :: "env \<Rightarrow> JumpTable \<Rightarrow> calls \<Rightarrow> u64 \<Rightarrow> evm \<Rightarrow> scope \<Rightarrow> stepres" where
  "run_step E jt k pc w sc = do {
     (paid, w, sc) \<leftarrow> charge_chunk E pc w sc;
     if \<not> paid then leave ErrOutOfGas w sc
     else do {
       op \<leftarrow> jt (GetOp (Con sc) pc);
       exec_op E k op pc w sc
     }
   }"

fun run_loop :: "nat \<Rightarrow> env \<Rightarrow> JumpTable \<Rightarrow> calls \<Rightarrow> u64 \<Rightarrow> evm \<Rightarrow> scope
    \<Rightarrow> (bytes \<times> vmerr option \<times> evm \<times> scope) option" where
  "run_loop 0 E jt k pc w sc = None"
| "run_loop (Suc n) E jt k pc w sc = do {
     r \<leftarrow> run_step E jt k pc w sc;
     case r of
       Inl (pc, w, sc) \<Rightarrow> run_loop n E jt k pc w sc
     | Inr out \<Rightarrow> Some out
   }"

text \<open>
  \<open>Run\<close>. The deferred functions restore the depth, and the read-only flag when this call set it.
\<close>

definition Run ::
  "env \<Rightarrow> JumpTable \<Rightarrow> calls \<Rightarrow> evm \<Rightarrow> Contract \<Rightarrow> bytes \<Rightarrow> bool \<Rightarrow> (bytes \<times> vmerr option \<times> evm \<times> Contract) option" where
  "Run E jt k w c input ro =
     (let outer = readOnly w;
          w = w\<lparr>depth := depth w + 1, readOnly := outer \<or> ro, returnData := []\<rparr>;
          restore = (\<lambda>w. w\<lparr>depth := depth w - 1, readOnly := if ro \<and> \<not> outer then False else readOnly w\<rparr>)
      in
        if length (Code c) = 0 then Some ([], None, restore w, c)
        else do {
          let sc = \<lparr>Mem = NewMemory, Stk = [], Con = c\<lparr>Input := input\<rparr>\<rparr>;
          (res, err, w, sc) \<leftarrow> run_loop (unat (Gas c) + 1) E jt k 0 w sc;
          Some (res, if err = Some errStopToken then None else err, restore w, Con sc)
        })"

end
