(* ===== verification/RLP.thy ===== *)
theory RLP
  imports Prelude
begin

text \<open>
  Recursive length prefix encoding: the writers of \<open>rlp/encode.go\<close> and \<open>rlp/encbuffer.go\<close> and the
  slice decoders of \<open>rlp/raw.go\<close>. A writer appends to a buffer; here it returns the bytes it appends.
  The reflection that picks a writer for a Go type is left out. A list is encoded from the bytes of
  its elements, as \<open>encBuffer.list\<close> and \<open>listEnd\<close> do with a header they fill in last.
\<close>

section \<open>Encoding\<close>

definition putint :: "u64 \<Rightarrow> bytes" where
  "putint i =
     (if i < 2 ^ 8 then be_bytes 1 i
      else if i < 2 ^ 16 then be_bytes 2 i
      else if i < 2 ^ 24 then be_bytes 3 i
      else if i < 2 ^ 32 then be_bytes 4 i
      else if i < 2 ^ 40 then be_bytes 5 i
      else if i < 2 ^ 48 then be_bytes 6 i
      else if i < 2 ^ 56 then be_bytes 7 i
      else be_bytes 8 i)"

function intsize :: "u64 \<Rightarrow> nat" where
  "intsize i = (let i = drop_bit 8 i in if i = 0 then 1 else 1 + intsize i)"
  by pat_completeness auto
termination
proof (relation "measure unat", simp)
  fix i x :: u64
  assume x: "x = drop_bit 8 i" and nz: "x \<noteq> 0"
  have "unat x = unat i div 256" by (simp add: x drop_bit_eq_div unat_div)
  moreover have "unat x \<noteq> 0" using nz by (simp add: unat_eq_0)
  ultimately show "(x, i) \<in> measure unat" by simp
qed

declare intsize.simps [simp del]

definition headsize :: "u64 \<Rightarrow> nat" where
  "headsize sz = (if sz < 56 then 1 else 1 + intsize sz)"

definition puthead :: "byte \<Rightarrow> byte \<Rightarrow> u64 \<Rightarrow> bytes" where
  "puthead smalltag largetag sz =
     (if sz < 56 then [smalltag + ucast sz]
      else let s = putint sz in (largetag + of_nat (length s)) # s)"

definition writeUint64 :: "u64 \<Rightarrow> bytes" where
  "writeUint64 i =
     (if i = 0 then [0x80]
      else if i < 128 then [ucast i]
      else let s = putint i in (0x80 + of_nat (length s)) # s)"

definition encodeStringHeader :: "nat \<Rightarrow> bytes" where
  "encodeStringHeader sz =
     (if sz < 56 then [0x80 + of_nat sz]
      else let s = putint (of_nat sz) in (0xB7 + of_nat (length s)) # s)"

definition writeBytes :: "bytes \<Rightarrow> bytes" where
  "writeBytes b =
     (if length b = 1 \<and> b ! 0 \<le> 0x7F then [b ! 0] else encodeStringHeader (length b) @ b)"

definition writeList :: "bytes \<Rightarrow> bytes" where
  "writeList content = puthead 0xC0 0xF7 (of_nat (length content)) @ content"

section \<open>Sizes\<close>

definition BytesSize :: "bytes \<Rightarrow> nat" where
  "BytesSize b =
     (if length b = 0 then 1
      else if length b = 1 then (if b ! 0 \<le> 0x7f then 1 else 2)
      else headsize (of_nat (length b)) + length b)"

definition ListSize :: "nat \<Rightarrow> nat" where
  "ListSize contentSize = headsize (of_nat contentSize) + contentSize"

definition IntSize :: "u64 \<Rightarrow> nat" where
  "IntSize x = (if x < 0x80 then 1 else 1 + intsize x)"

section \<open>Decoding\<close>

datatype Kind = Byte | String | List

datatype rlperr = ErrUnexpectedEOF | ErrCanonSize | ErrValueTooLarge | ErrExpectedString | ErrExpectedList
  | ErrCanonInt | errUintOverflow

definition readSize :: "bytes \<Rightarrow> nat \<Rightarrow> rlperr + u64" where
  "readSize b slen =
     (if slen > length b then Inl ErrUnexpectedEOF
      else
        let s = be_word (take slen b) in
        if s < 56 \<or> b ! 0 = 0 then Inl ErrCanonSize else Inr s)"

definition readKind :: "bytes \<Rightarrow> rlperr + Kind \<times> nat \<times> u64" where
  "readKind buf =
     (if buf = [] then Inl ErrUnexpectedEOF
      else
        let b = buf ! 0;
            r = (if b < 0x80 then Inr (Byte, 0, 1)
                 else if b < 0xB8 then
                   let contentsize = ucast (b - 0x80) in
                   if contentsize = 1 \<and> length buf > 1 \<and> buf ! 1 < 128 then Inl ErrCanonSize
                   else Inr (String, 1, contentsize)
                 else if b < 0xC0 then
                   case readSize (tl buf) (unat (b - 0xB7)) of
                     Inl e \<Rightarrow> Inl e
                   | Inr s \<Rightarrow> Inr (String, unat (b - 0xB7) + 1, s)
                 else if b < 0xF8 then Inr (List, 1, ucast (b - 0xC0))
                 else
                   case readSize (tl buf) (unat (b - 0xF7)) of
                     Inl e \<Rightarrow> Inl e
                   | Inr s \<Rightarrow> Inr (List, unat (b - 0xF7) + 1, s))
        in case r of
             Inl e \<Rightarrow> Inl e
           | Inr (k, tagsize, contentsize) \<Rightarrow>
               if contentsize > of_nat (length buf) - of_nat tagsize then Inl ErrValueTooLarge
               else Inr (k, tagsize, contentsize))"

text \<open>\<open>Split\<close> slices the input at the sizes \<open>readKind\<close> found; \<open>None\<close> would be a slice out of range.\<close>

definition Split :: "bytes \<Rightarrow> (rlperr + Kind \<times> bytes \<times> bytes) option" where
  "Split b =
     (case readKind b of
        Inl e \<Rightarrow> Some (Inl e)
      | Inr (k, ts, cs) \<Rightarrow> do {
          content \<leftarrow> go_slice b ts (unat (of_nat ts + cs));
          rest \<leftarrow> go_slice b (unat (of_nat ts + cs)) (length b);
          Some (Inr (k, content, rest))
        })"

definition SplitString :: "bytes \<Rightarrow> (rlperr + bytes \<times> bytes) option" where
  "SplitString b = do {
     r \<leftarrow> Split b;
     Some (case r of
       Inl e \<Rightarrow> Inl e
     | Inr (k, content, rest) \<Rightarrow> if k = List then Inl ErrExpectedString else Inr (content, rest))
   }"

definition SplitList :: "bytes \<Rightarrow> (rlperr + bytes \<times> bytes) option" where
  "SplitList b = do {
     r \<leftarrow> Split b;
     Some (case r of
       Inl e \<Rightarrow> Inl e
     | Inr (k, content, rest) \<Rightarrow> if k \<noteq> List then Inl ErrExpectedList else Inr (content, rest))
   }"

definition SplitUint64 :: "bytes \<Rightarrow> (rlperr + u64 \<times> bytes) option" where
  "SplitUint64 b = do {
     r \<leftarrow> SplitString b;
     Some (case r of
       Inl e \<Rightarrow> Inl e
     | Inr (content, rest) \<Rightarrow>
         let n = length content in
         if n = 0 then Inr (0, rest)
         else if n = 1 then
           if content ! 0 = 0 then Inl ErrCanonInt else Inr (ucast (content ! 0), rest)
         else if n > 8 then Inl errUintOverflow
         else case readSize content n of
           Inl e \<Rightarrow> Inl ErrCanonInt
         | Inr x \<Rightarrow> Inr (x, rest))
   }"

section \<open>Big-endian integers without leading zeroes\<close>

definition be_nat :: "bytes \<Rightarrow> nat" where
  "be_nat bs = foldl (\<lambda>a b. a * 256 + unat b) 0 bs"

lemma be_nat_Nil [simp]: "be_nat [] = 0"
  by (simp add: be_nat_def)

lemma be_nat_snoc [simp]: "be_nat (xs @ [b]) = be_nat xs * 256 + unat b"
  by (simp add: be_nat_def)

lemma be_nat_single [simp]: "be_nat [b] = unat b"
  by (simp add: be_nat_def)

lemma unat_byte_lt [simp]: "unat (b :: byte) < 256"
  using unsigned_less [of b, where ?'a = nat] by simp

lemma be_nat_less: "be_nat bs < 256 ^ length bs"
proof (induction bs rule: rev_induct)
  case (snoc b bs)
  then have "(be_nat bs + 1) * 256 \<le> 256 ^ length bs * 256" by (intro mult_le_mono) simp_all
  then show ?case using unat_byte_lt [of b] by (simp del: unat_byte_lt)
qed simp

lemma be_nat_Cons: "be_nat (b # bs) = unat b * 256 ^ length bs + be_nat bs"
  by (induction bs rule: rev_induct) (simp_all flip: append_Cons add: algebra_simps)

lemma be_word_nat: "be_word bs = (of_nat (be_nat bs) :: u64)"
proof (induction bs rule: rev_induct)
  case (snoc b bs)
  have "(ucast b :: u64) = of_nat (unat b)" by simp
  then show ?case using snoc by simp
qed simp

lemma unat_be_word: "length bs \<le> 8 \<Longrightarrow> unat (be_word bs :: u64) = be_nat bs"
proof -
  assume "length bs \<le> 8"
  then have "(256::nat) ^ length bs \<le> 256 ^ 8" by (intro power_increasing) simp_all
  then have "be_nat bs < 18446744073709551616" using be_nat_less [of bs] by simp
  then show ?thesis by (simp add: be_word_nat unat_u64_of_nat)
qed

lemma be_bytes_be_nat: "length bs \<le> 8 \<Longrightarrow> be_bytes (length bs) (of_nat (be_nat bs) :: u64) = bs"
proof (induction bs rule: rev_induct)
  case (snoc b bs)
  let ?w = "of_nat (be_nat (bs @ [b])) :: u64"
  have "length (bs @ [b]) \<le> 8" using snoc.prems .
  then have w: "unat ?w = be_nat (bs @ [b])" using unat_be_word be_word_nat by metis
  have "unat (drop_bit 8 ?w) = be_nat bs"
    using w by (simp add: drop_bit_eq_div unat_div)
  then have "drop_bit 8 ?w = of_nat (be_nat bs)" by (metis of_nat_unat_u64)
  moreover have "(ucast ?w :: byte) = b"
  proof -
    have "unat (ucast ?w :: byte) = unat ?w mod 256" by (simp add: unsigned_ucast_eq take_bit_eq_mod)
    also have "\<dots> = be_nat (bs @ [b]) mod 256" by (simp only: w)
    also have "\<dots> = unat b" by simp
    finally show ?thesis by (simp add: word_unat_eq_iff)
  qed
  ultimately show ?case using snoc by simp
qed simp

lemma be_nat_be_bytes: "n \<le> 8 \<Longrightarrow> unat (i :: u64) < 256 ^ n \<Longrightarrow> be_nat (be_bytes n i) = unat i"
  using unat_be_word [of "be_bytes n i"]
  by (simp add: be_word_be_bytes take_bit_word_eq_self unsigned_take_bit_eq take_bit_nat_eq_self power_mult)

text \<open>The length of an integer is the least number of bytes that holds it.\<close>

lemma putint_cases:
  obtains n where "1 \<le> n" "n \<le> 8" "putint i = be_bytes n i" "unat i < 256 ^ n" "n = 1 \<or> 256 ^ (n - 1) \<le> unat i"
proof -
  have lt: "(i < 2 ^ m) = (unat i < 2 ^ m)" if "m < 64" for m
  proof -
    have "(2::nat) ^ m < 2 ^ 64" using that by (intro power_strict_increasing) simp_all
    then have "unat (2 ^ m :: u64) = 2 ^ m" using unat_u64_of_nat [of "2 ^ m"] by simp
    then show ?thesis by (simp add: word_less_nat_alt)
  qed
  consider "unat i < 256" | "256 \<le> unat i" "unat i < 256 ^ 2" | "256 ^ 2 \<le> unat i" "unat i < 256 ^ 3"
    | "256 ^ 3 \<le> unat i" "unat i < 256 ^ 4" | "256 ^ 4 \<le> unat i" "unat i < 256 ^ 5"
    | "256 ^ 5 \<le> unat i" "unat i < 256 ^ 6" | "256 ^ 6 \<le> unat i" "unat i < 256 ^ 7" | "256 ^ 7 \<le> unat i"
    by linarith
  then show thesis
  proof cases
    case 1 then show ?thesis using that [of 1] lt [of 8] by (simp add: putint_def)
  next
    case 2 then show ?thesis using that [of 2] lt [of 8] lt [of 16] by (simp add: putint_def)
  next
    case 3 then show ?thesis using that [of 3] lt [of 8] lt [of 16] lt [of 24] by (simp add: putint_def)
  next
    case 4 then show ?thesis using that [of 4] lt [of 8] lt [of 16] lt [of 24] lt [of 32] by (simp add: putint_def)
  next
    case 5 then show ?thesis
      using that [of 5] lt [of 8] lt [of 16] lt [of 24] lt [of 32] lt [of 40] by (simp add: putint_def)
  next
    case 6 then show ?thesis
      using that [of 6] lt [of 8] lt [of 16] lt [of 24] lt [of 32] lt [of 40] lt [of 48] by (simp add: putint_def)
  next
    case 7 then show ?thesis
      using that [of 7] lt [of 8] lt [of 16] lt [of 24] lt [of 32] lt [of 40] lt [of 48] lt [of 56]
      by (simp add: putint_def)
  next
    case 8 then show ?thesis
      using that [of 8] lt [of 8] lt [of 16] lt [of 24] lt [of 32] lt [of 40] lt [of 48] lt [of 56]
      by (simp add: putint_def)
  qed
qed

lemma putint_exact: "be_nat (putint i) = unat i"
  by (rule putint_cases [of i]) (simp add: be_nat_be_bytes)

lemma length_putint: "1 \<le> length (putint i)" "length (putint i) \<le> 8"
  by (rule putint_cases [of i], simp)+

lemma putint_lead: "i \<noteq> 0 \<Longrightarrow> putint i ! 0 \<noteq> 0"
proof -
  assume nz: "i \<noteq> 0"
  obtain n where n: "1 \<le> n" "putint i = be_bytes n i" "n = 1 \<or> 256 ^ (n - 1) \<le> unat i"
    by (rule putint_cases [of i])
  obtain b bs where bs: "putint i = b # bs" using length_putint [of i] by (cases "putint i") auto
  have len: "length bs = n - 1" using n(1,2) bs by (metis diff_Suc_1 length_Cons length_be_bytes)
  have v: "unat i = unat b * 256 ^ length bs + be_nat bs" using putint_exact [of i] by (simp add: bs be_nat_Cons)
  show ?thesis
  proof
    assume "putint i ! 0 = 0"
    then have "unat i = be_nat bs" using v bs by simp
    then have "unat i < 256 ^ (n - 1)" using be_nat_less [of bs] len by simp
    then have "unat i = 0" using n(3) by auto
    with nz show False by (simp add: unat_eq_0)
  qed
qed

lemma putint_unique:
  assumes "1 \<le> length bs" "length bs \<le> 8" "bs ! 0 \<noteq> 0"
  shows "putint (be_word bs) = bs"
proof -
  let ?i = "be_word bs :: u64"
  have i: "unat ?i = be_nat bs" using unat_be_word assms(2) .
  obtain b cs where bs: "bs = b # cs" "b \<noteq> 0" using assms by (cases bs) auto
  have "1 \<le> unat b" using bs(2) by (simp add: unat_gt_0 Suc_le_eq)
  then have "1 * 256 ^ length cs \<le> unat b * 256 ^ length cs" by (rule mult_le_mono1)
  then have "256 ^ length cs \<le> unat b * 256 ^ length cs + be_nat cs" by linarith
  then have lo: "256 ^ (length bs - 1) \<le> be_nat bs" by (simp only: bs(1) be_nat_Cons list.size) simp
  have hi: "be_nat bs < 256 ^ length bs" by (rule be_nat_less)
  obtain n where n: "1 \<le> n" "n \<le> 8" "putint ?i = be_bytes n ?i" "be_nat bs < 256 ^ n"
    "n = 1 \<or> 256 ^ (n - 1) \<le> be_nat bs"
    by (rule putint_cases [of ?i]) (simp add: i)
  have "n = length bs"
  proof (rule antisym)
    have "(256::nat) ^ (length bs - 1) < 256 ^ n" using lo n(4) by linarith
    then show "length bs \<le> n" using assms(1) power_less_imp_less_exp [of "256::nat" "length bs - 1" n] by simp
    show "n \<le> length bs"
    proof (cases "n = 1")
      case False
      then have "(256::nat) ^ (n - 1) < 256 ^ length bs" using n(5) hi by linarith
      then show ?thesis using power_less_imp_less_exp [of "256::nat" "n - 1" "length bs"] by simp
    qed (use assms(1) in simp)
  qed
  then show ?thesis using n(3) be_bytes_be_nat [OF assms(2)] by (simp add: be_word_nat)
qed

lemma intsize_putint: "intsize i = length (putint i)"
proof (induction i rule: intsize.induct)
  case (1 i)
  let ?j = "drop_bit 8 i"
  have j: "unat ?j = unat i div 256" by (simp add: drop_bit_eq_div unat_div)
  obtain n where n: "1 \<le> n" "putint i = be_bytes n i" "unat i < 256 ^ n" "n = 1 \<or> 256 ^ (n - 1) \<le> unat i"
    by (rule putint_cases [of i])
  show ?case
  proof (cases "?j = 0")
    case True
    then have "unat i < 256" using j by (simp add: unat_eq_0)
    have "\<not> 2 \<le> n"
    proof
      assume n2: "2 \<le> n"
      then have "(256::nat) ^ 1 \<le> 256 ^ (n - 1)" by (intro power_increasing) simp_all
      then show False using n(4) n2 \<open>unat i < 256\<close> by simp
    qed
    then have "n = 1" using n(1) by simp
    then show ?thesis using True n(2) by (simp add: intsize.simps)
  next
    case False
    obtain m where m: "1 \<le> m" "putint ?j = be_bytes m ?j" "unat ?j < 256 ^ m" "m = 1 \<or> 256 ^ (m - 1) \<le> unat ?j"
      by (rule putint_cases [of ?j])
    have "1 \<le> unat i div 256" using False j by (metis One_nat_def Suc_leI gr0I unat_eq_0)
    then have lo: "256 ^ m \<le> unat i"
      using m(1,4) j by (cases m) (auto simp: less_eq_div_iff_mult_less_eq mult.commute)
    have hi: "unat i < 256 ^ Suc m" using m(3) j by (simp add: div_less_iff_less_mult mult.commute)
    have "n = Suc m"
    proof (rule antisym)
      have "(256::nat) ^ m < 256 ^ n" using lo n(3) by linarith
      then show "Suc m \<le> n" using power_less_imp_less_exp [of "256::nat" m n] by simp
      have "n = 1 \<or> (256::nat) ^ (n - 1) < 256 ^ Suc m" using n(4) hi by linarith
      then show "n \<le> Suc m" using power_less_imp_less_exp [of "256::nat" "n - 1" "Suc m"] m(1) by auto
    qed
    then show ?thesis using 1 [OF refl False] False n(2) m(2) by (subst intsize.simps) (simp add: Let_def)
  qed
qed

section \<open>Splitting what was written\<close>

lemma unat_byte_of_nat: "n < 256 \<Longrightarrow> unat (of_nat n :: byte) = n"
  by (simp add: unsigned_of_nat take_bit_eq_mod)

lemma unat_byte_tag: "unat t + n < 256 \<Longrightarrow> unat (t + of_nat n :: byte) = unat t + n"
  by (simp add: unat_word_ariths unat_byte_of_nat unsigned_of_nat take_bit_eq_mod)

lemma byte_tag_sub: "(t + of_nat n :: byte) - t = of_nat n"
  by simp

lemma size_fits:
  assumes "length buf < 2 ^ 63" and "ts + cs \<le> length buf"
  shows "(of_nat cs > (of_nat (length buf) - of_nat ts :: u64)) = False"
    and "unat (of_nat ts + of_nat cs :: u64) = ts + cs"
  using assms by (simp_all add: word_less_nat_alt unat_u64_sub unat_u64_of_nat flip: of_nat_add)

lemma Split_readKind:
  assumes "readKind b = Inr (k, ts, of_nat cs)" and "length b < 2 ^ 63" and "ts + cs \<le> length b"
  shows "Split b = Some (Inr (k, take cs (drop ts b), drop (ts + cs) b))"
  using assms by (simp add: Split_def size_fits(2) go_slice_Some)

lemma readSize_putint:
  assumes "56 \<le> s"
  shows "readSize (putint s @ xs) (length (putint s)) = Inr s"
proof -
  have "s \<noteq> 0" using assms by auto
  moreover have "be_word (putint s) = s" using putint_exact [of s] by (simp add: be_word_nat)
  moreover have "(putint s @ xs) ! 0 = putint s ! 0" using length_putint(1) [of s] by (cases "putint s") auto
  ultimately show ?thesis using assms putint_lead [of s] by (simp add: readSize_def Let_def not_less)
qed

lemma readKind_Byte: "x < 0x80 \<Longrightarrow> length rest < 2 ^ 62 \<Longrightarrow> readKind (x # rest) = Inr (Byte, 0, 1)"
  using size_fits(1) [of "x # rest" 0 1] by (simp add: readKind_def)

lemma short_tags:
  fixes n :: nat
  assumes "n < 56"
  shows "unat (0x80 + of_nat n :: byte) = 128 + n" "unat (0xC0 + of_nat n :: byte) = 192 + n"
    "(ucast (of_nat n :: byte) :: u64) = of_nat n"
  using assms unat_byte_tag [of "0x80" n] unat_byte_tag [of "0xC0" n]
  by (simp_all add: unsigned_ucast_eq word_unat_eq_iff unat_byte_of_nat unat_u64_of_nat take_bit_eq_mod)

lemma readKind_String_short:
  assumes "n < 56" and "n \<le> length rest" and "length rest < 2 ^ 62"
    and "n = 1 \<longrightarrow> 0x80 \<le> rest ! 0"
  shows "readKind ((0x80 + of_nat n) # rest) = Inr (String, 1, of_nat n)"
proof -
  have "\<not> (0x80 + of_nat n :: byte) < 0x80" "(0x80 + of_nat n :: byte) < 0xB8"
    using short_tags(1) [OF assms(1)] assms(1) by (simp_all add: word_less_nat_alt)
  moreover have "\<not> ((of_nat n :: u64) = 1 \<and> rest \<noteq> [] \<and> rest ! 0 < 0x80)"
  proof -
    have "unat (of_nat n :: u64) = n" by (rule unat_u64_of_nat) (use assms(1) in simp)
    then have "(of_nat n :: u64) = 1 \<Longrightarrow> n = 1" by (metis unat_1)
    then show ?thesis using assms(4) by auto
  qed
  ultimately show ?thesis
    using size_fits(1) [of "(0x80 + of_nat n) # rest" 1 n] assms(2,3) short_tags(3) [OF assms(1)]
    by (simp add: readKind_def Let_def)
qed

lemma readKind_List_short:
  assumes "n < 56" and "n \<le> length rest" and "length rest < 2 ^ 62"
  shows "readKind ((0xC0 + of_nat n) # rest) = Inr (List, 1, of_nat n)"
proof -
  have "\<not> (0xC0 + of_nat n :: byte) < 0x80" "\<not> (0xC0 + of_nat n :: byte) < 0xB8"
    "\<not> (0xC0 + of_nat n :: byte) < 0xC0" "(0xC0 + of_nat n :: byte) < 0xF8"
    using short_tags(2) [OF assms(1)] assms(1) by (simp_all add: word_less_nat_alt)
  then show ?thesis
    using size_fits(1) [of "(0xC0 + of_nat n) # rest" 1 n] assms(2,3) short_tags(3) [OF assms(1)]
    by (simp add: readKind_def Let_def)
qed

lemma long_tags:
  assumes "1 \<le> k" and "k \<le> (8::nat)"
  shows "\<not> (0xB7 + of_nat k :: byte) < 0x80" "\<not> (0xB7 + of_nat k :: byte) < 0xB8" "(0xB7 + of_nat k :: byte) < 0xC0"
    "\<not> (0xF7 + of_nat k :: byte) < 0x80" "\<not> (0xF7 + of_nat k :: byte) < 0xB8" "\<not> (0xF7 + of_nat k :: byte) < 0xC0"
    "\<not> (0xF7 + of_nat k :: byte) < 0xF8" "unat (of_nat k :: byte) = k"
  using assms unat_byte_tag [of "0xB7" k] unat_byte_tag [of "0xF7" k]
  by (simp_all add: word_less_nat_alt unat_byte_of_nat)

lemma readKind_long:
  assumes "56 \<le> n" and "length (putint (of_nat n)) + n \<le> length rest" and "length rest < 2 ^ 62"
    and "rest = putint (of_nat n) @ rest'"
  shows "readKind ((0xB7 + of_nat (length (putint (of_nat n)))) # rest) = Inr (String, length (putint (of_nat n)) + 1, of_nat n)"
    and "readKind ((0xF7 + of_nat (length (putint (of_nat n)))) # rest) = Inr (List, length (putint (of_nat n)) + 1, of_nat n)"
proof -
  let ?k = "length (putint (of_nat n))"
  have "n < 2 ^ 62" using assms(2,3) by simp
  then have "56 \<le> (of_nat n :: u64)" using assms(1) by (simp add: word_le_nat_alt unat_u64_of_nat)
  then have size': "readSize rest ?k = Inr (of_nat n)" unfolding assms(4) by (rule readSize_putint)
  have fits: "(of_nat n > (of_nat (length (x # rest)) - of_nat (?k + 1) :: u64)) = False" for x :: byte
    by (rule size_fits(1)) (use assms(2,3) in simp_all)
  show "readKind ((0xB7 + of_nat ?k) # rest) = Inr (String, ?k + 1, of_nat n)"
    "readKind ((0xF7 + of_nat ?k) # rest) = Inr (List, ?k + 1, of_nat n)"
    using long_tags [OF length_putint [of "of_nat n"]] size' fits
    by (simp_all add: readKind_def Let_def)
qed

lemma Split_writeBytes:
  assumes "length b + length rest < 2 ^ 61"
  shows "Split (writeBytes b @ rest) = Some (Inr (if length b = 1 \<and> b ! 0 \<le> 0x7F then Byte else String, b, rest))"
proof -
  consider (single) "length b = 1" "b ! 0 \<le> 0x7F" | (short) "\<not> (length b = 1 \<and> b ! 0 \<le> 0x7F)" "length b < 56"
    | (long) "56 \<le> length b" by linarith
  then show ?thesis
  proof cases
    case single
    then obtain x where x: "b = [x]" by (auto simp: length_Suc_conv)
    have "x < 0x80" using single(2) x by (simp add: word_less_nat_alt word_le_nat_alt)
    then have "readKind (x # rest) = Inr (Byte, 0, of_nat 1)" using readKind_Byte assms by simp
    then show ?thesis using Split_readKind [of "x # rest" Byte 0 1] assms single x by (simp add: writeBytes_def)
  next
    case short
    have "length b = 1 \<longrightarrow> 0x80 \<le> (b @ rest) ! 0"
      using short(1) by (auto simp: nth_append word_le_nat_alt)
    then have "readKind ((0x80 + of_nat (length b)) # b @ rest) = Inr (String, 1, of_nat (length b))"
      by (intro readKind_String_short) (use short(2) assms in simp_all)
    then show ?thesis using Split_readKind [of "(0x80 + of_nat (length b)) # b @ rest" String 1 "length b"] assms short
      by (auto simp: writeBytes_def encodeStringHeader_def)
  next
    case long
    let ?s = "putint (of_nat (length b))"
    have len: "length ?s \<le> 8" by (rule length_putint)
    have "readKind ((0xB7 + of_nat (length ?s)) # ?s @ b @ rest) = Inr (String, length ?s + 1, of_nat (length b))"
      by (rule readKind_long(1) [OF long]) (use assms len in simp_all)
    then show ?thesis
      using Split_readKind [of "(0xB7 + of_nat (length ?s)) # ?s @ b @ rest" String "length ?s + 1" "length b"] assms long len
      by (simp add: writeBytes_def encodeStringHeader_def Let_def)
  qed
qed

lemma Split_writeList:
  assumes "length c + length rest < 2 ^ 61"
  shows "Split (writeList c @ rest) = Some (Inr (List, c, rest))"
proof (cases "length c < 56")
  case True
  then have "(of_nat (length c) :: u64) < 56" by (simp add: word_less_nat_alt unat_u64_of_nat)
  moreover have "(ucast (of_nat (length c) :: u64) :: byte) = of_nat (length c)"
    by (simp add: word_unat_eq_iff unsigned_ucast_eq unat_byte_of_nat unat_u64_of_nat take_bit_eq_mod True less_trans [OF True])
  moreover have "readKind ((0xC0 + of_nat (length c)) # c @ rest) = Inr (List, 1, of_nat (length c))"
    by (rule readKind_List_short) (use True assms in simp_all)
  ultimately show ?thesis
    using Split_readKind [of "(0xC0 + of_nat (length c)) # c @ rest" List 1 "length c"] assms
    by (simp add: writeList_def puthead_def)
next
  case False
  let ?s = "putint (of_nat (length c))"
  have "\<not> (of_nat (length c) :: u64) < 56" using False assms by (simp add: word_less_nat_alt unat_u64_of_nat)
  moreover have len: "length ?s \<le> 8" by (rule length_putint)
  moreover have "readKind ((0xF7 + of_nat (length ?s)) # ?s @ c @ rest) = Inr (List, length ?s + 1, of_nat (length c))"
    by (rule readKind_long(2)) (use False assms len in simp_all)
  ultimately show ?thesis
    using Split_readKind [of "(0xF7 + of_nat (length ?s)) # ?s @ c @ rest" List "length ?s + 1" "length c"] assms
    by (simp add: writeList_def puthead_def Let_def)
qed

section \<open>Only canonical encodings are split\<close>

lemma readSize_Inr:
  assumes "readSize b slen = Inr s" and "1 \<le> slen" and "slen \<le> 8"
  shows "slen \<le> length b" "56 \<le> s" "putint s = take slen b"
proof -
  have r: "slen \<le> length b" "s = be_word (take slen b)" "\<not> s < 56" "b ! 0 \<noteq> 0"
    using assms(1) by (auto simp: readSize_def Let_def split: if_splits)
  then show "slen \<le> length b" "56 \<le> s" by (simp_all add: not_less)
  show "putint s = take slen b" unfolding r(2) by (rule putint_unique) (use r assms in simp_all)
qed

lemma byte_offset: "(x :: byte) = t + of_nat (unat (x - t))"
  by simp

lemma unat_byte_diff: "t \<le> (x :: byte) \<Longrightarrow> unat (x - t) = unat x - unat t"
  by (simp add: unat_sub)

lemma fits_nat:
  assumes "\<not> cs > (of_nat len - of_nat ts :: u64)" and "ts \<le> len" and "len < 2 ^ 63"
  shows "ts + unat cs \<le> len"
  using assms by (simp add: word_less_nat_alt unat_u64_sub unat_u64_of_nat not_less)

text \<open>The three shapes of a head that \<open>readKind\<close> accepts.\<close>

fun good_head :: "bytes \<Rightarrow> Kind \<Rightarrow> nat \<Rightarrow> u64 \<Rightarrow> bool" where
  "good_head b Byte ts n \<longleftrightarrow> ts = 0 \<and> n = 1 \<and> b ! 0 < 0x80"
| "good_head b String ts n \<longleftrightarrow> take ts b = encodeStringHeader (unat n) \<and> (n = 1 \<longrightarrow> 0x80 \<le> b ! ts)"
| "good_head b List ts n \<longleftrightarrow> take ts b = puthead 0xC0 0xF7 n"

lemma readKind_good:
  assumes "readKind b = Inr (k, ts, cs)" and "length b < 2 ^ 63"
  shows "ts + unat cs \<le> length b \<and> good_head b k ts cs"
proof -
  obtain x xs where b: "b = x # xs" using assms(1) by (cases b) (auto simp: readKind_def)
  have fits: "\<not> cs > (of_nat (length b) - of_nat ts :: u64)"
    using assms(1) by (auto simp: readKind_def Let_def split: if_splits sum.splits)
  consider (byte) "x < 0x80" | (str) "\<not> x < 0x80" "x < 0xB8" | (lstr) "\<not> x < 0xB8" "x < 0xC0"
    | (lst) "\<not> x < 0xC0" "x < 0xF8" | (llst) "\<not> x < 0xF8" by blast
  then show ?thesis
  proof cases
    case byte
    then have "k = Byte" "ts = 0" "cs = 1" using assms(1) b by (auto simp: readKind_def split: if_splits)
    then show ?thesis using byte b by simp
  next
    case str
    let ?n = "unat (x - 0x80)"
    have n: "?n < 56" using str by (simp add: not_less unat_byte_diff word_less_nat_alt word_le_nat_alt)
    have r: "k = String" "ts = 1" "cs = ucast (x - 0x80)" "cs = 1 \<longrightarrow> xs = [] \<or> 0x80 \<le> xs ! 0"
      using assms(1) str b by (auto simp: readKind_def Let_def not_less split: if_splits)
    have cs: "unat cs = ?n" unfolding r(3) using n by (simp add: unsigned_ucast_eq take_bit_eq_mod)
    have "ts + unat cs \<le> length b" by (rule fits_nat [OF fits]) (use b r assms(2) in simp_all)
    then show ?thesis using r(1,2,4) cs n b by (auto simp: encodeStringHeader_def)
  next
    case lstr
    let ?n = "unat (x - 0xB7)"
    have n: "1 \<le> ?n" "?n \<le> 8" using lstr by (simp_all add: not_less unat_byte_diff word_less_nat_alt word_le_nat_alt)
    have "\<not> x < 0x80" using lstr(1) by (simp add: word_less_nat_alt)
    then have r: "k = String" "ts = ?n + 1" "readSize xs ?n = Inr cs"
      using assms(1) lstr b by (auto simp: readKind_def Let_def split: if_splits sum.splits)
    note s = readSize_Inr [OF r(3) n]
    have "ts + unat cs \<le> length b" by (rule fits_nat [OF fits]) (use b r s assms(2) in simp_all)
    moreover have "56 \<le> unat cs" using s(2) by (simp add: word_le_nat_alt)
    moreover have "min (length xs) ?n = ?n" using s(1) by simp
    ultimately show ?thesis using r(1,2) s b by (auto simp: encodeStringHeader_def Let_def)
  next
    case lst
    let ?n = "unat (x - 0xC0)"
    have n: "?n < 56" using lst by (simp add: not_less unat_byte_diff word_less_nat_alt word_le_nat_alt)
    have "\<not> x < 0x80" "\<not> x < 0xB8" using lst(1) by (simp_all add: word_less_nat_alt)
    then have r: "k = List" "ts = 1" "cs = ucast (x - 0xC0)"
      using assms(1) lst b by (auto simp: readKind_def Let_def split: if_splits)
    have cs: "unat cs = ?n" unfolding r(3) using n by (simp add: unsigned_ucast_eq take_bit_eq_mod)
    have "ts + unat cs \<le> length b" by (rule fits_nat [OF fits]) (use b r assms(2) in simp_all)
    moreover have "cs < 56" using n cs by (simp add: word_less_nat_alt)
    moreover have "(ucast (ucast (x - 0xC0) :: u64) :: byte) = x - 0xC0"
      by (rule ucast_up_ucast_id) (simp add: is_up)
    ultimately show ?thesis using r b by (simp add: puthead_def)
  next
    case llst
    let ?n = "unat (x - 0xF7)"
    have "unat x \<le> 255" using unat_byte_lt [of x] by linarith
    then have n: "1 \<le> ?n" "?n \<le> 8" using llst by (simp_all add: not_less unat_byte_diff word_less_nat_alt word_le_nat_alt)
    have "\<not> x < 0x80" "\<not> x < 0xB8" "\<not> x < 0xC0" using llst by (simp_all add: word_less_nat_alt)
    then have r: "k = List" "ts = ?n + 1" "readSize xs ?n = Inr cs"
      using assms(1) llst b by (auto simp: readKind_def Let_def split: if_splits sum.splits)
    note s = readSize_Inr [OF r(3) n]
    have "ts + unat cs \<le> length b" by (rule fits_nat [OF fits]) (use b r s assms(2) in simp_all)
    moreover have "\<not> cs < 56" using s(2) by (simp add: not_less)
    moreover have "min (length xs) ?n = ?n" using s(1) by simp
    ultimately show ?thesis using r(1,2) s b by (simp add: puthead_def Let_def)
  qed
qed

lemma Split_total:
  assumes "length b < 2 ^ 63"
  shows "\<exists>r. Split b = Some r"
proof (cases "readKind b")
  case (Inr x)
  obtain k ts cs where x: "x = (k, ts, cs)" by (cases x)
  have "ts + unat cs \<le> length b" using readKind_good Inr x assms by simp
  moreover have "of_nat (unat cs) = cs" by simp
  ultimately show ?thesis using Split_readKind [of b k ts "unat cs"] Inr x assms by simp
qed (simp add: Split_def)

lemma Split_canonical:
  assumes "Split b = Some (Inr (k, c, rest))" and "length b < 2 ^ 63"
  shows "b = (if k = List then writeList c else writeBytes c) @ rest \<and> (k = Byte \<longleftrightarrow> k \<noteq> List \<and> length c = 1 \<and> c ! 0 \<le> 0x7F)"
proof -
  obtain ts cs where r: "readKind b = Inr (k, ts, cs)"
    using assms(1) by (auto simp: Split_def split: sum.splits Option.bind_splits)
  then have g: "ts + unat cs \<le> length b" "good_head b k ts cs" using readKind_good assms(2) by blast+
  have "Split b = Some (Inr (k, take (unat cs) (drop ts b), drop (ts + unat cs) b))"
    by (rule Split_readKind) (use r g assms(2) in simp_all)
  then have c: "c = take (unat cs) (drop ts b)" "rest = drop (ts + unat cs) b" using assms(1) by simp_all
  have b: "b = take ts b @ c @ rest" unfolding c by (metis append_take_drop_id drop_drop add.commute)
  have len: "length c = unat cs" using c(1) g(1) by simp
  have "writeBytes c = take ts b @ c \<and> (length c = 1 \<longrightarrow> 0x80 \<le> c ! 0)" if "k = String"
  proof -
    have "length c = 1 \<Longrightarrow> cs = 1" using len by (simp add: word_unat_eq_iff)
    then have h: "length c = 1 \<longrightarrow> 0x80 \<le> c ! 0" using g that c(1) len by auto
    then have "\<not> (length c = 1 \<and> c ! 0 \<le> 0x7F)" by (auto simp: word_le_nat_alt)
    then have "writeBytes c = encodeStringHeader (length c) @ c" unfolding writeBytes_def by (rule if_not_P)
    then show ?thesis using h that g(2) len by simp
  qed
  moreover have "writeList c = take ts b @ c" if "k = List"
    using g(2) that len by (simp add: writeList_def)
  moreover have "ts = 0 \<and> length c = 1 \<and> c ! 0 \<le> 0x7F" if "k = Byte"
    using g that c len by (auto simp: word_less_nat_alt word_le_nat_alt)
  ultimately show ?thesis using b
    by (cases k) (auto simp: writeBytes_def word_le_nat_alt length_Suc_conv)
qed

section \<open>Integers and sizes\<close>

lemma putint_small: "i < 0x100 \<Longrightarrow> putint i = [ucast i]"
  by (simp add: putint_def)

lemma ucast_le_7F: "i < 0x100 \<Longrightarrow> ((ucast (i :: u64) :: byte) \<le> 0x7F) = (i < 0x80)"
  by (auto simp: word_less_nat_alt word_le_nat_alt unsigned_ucast_eq take_bit_eq_mod)

lemma putint_one: "length (putint i) = 1 \<longleftrightarrow> i < 0x100"
proof
  assume l: "length (putint i) = 1"
  then have "be_nat (putint i) < 256 ^ 1" using be_nat_less by metis
  then show "i < 0x100" by (simp add: putint_exact word_less_nat_alt)
qed (simp add: putint_small)

lemma writeUint64_writeBytes: "writeUint64 i = writeBytes (if i = 0 then [] else putint i)"
proof -
  have "i < 0x80 \<Longrightarrow> i < 0x100" by (simp add: word_less_nat_alt)
  moreover have "length (putint i) < 56" using length_putint(2) [of i] by simp
  moreover have "length (putint i) = 1 \<Longrightarrow> \<not> i < 0x80 \<Longrightarrow> \<not> putint i ! 0 \<le> 0x7F"
    using putint_one [of i] by (simp add: putint_small ucast_le_7F)
  ultimately show ?thesis
    by (auto simp: writeUint64_def writeBytes_def encodeStringHeader_def putint_small ucast_le_7F Let_def)
qed

lemma putint_be_word: "be_word (putint i) = i"
  using putint_exact [of i] by (simp add: be_word_nat)

lemma readSize_content:
  assumes "2 \<le> length c" and "length c \<le> 8"
  shows "readSize c (length c) = (if c ! 0 = 0 \<or> be_word c < (56 :: u64) then Inl ErrCanonSize else Inr (be_word c))"
  by (auto simp: readSize_def Let_def)

lemma two_bytes_large:
  assumes "2 \<le> length c" and "length c \<le> 8" and "c ! 0 \<noteq> 0"
  shows "\<not> be_word c < (56 :: u64)"
proof
  assume "be_word c < (56 :: u64)"
  then have "be_word c < (0x100 :: u64)" by (simp add: word_less_nat_alt)
  then have "length (putint (be_word c)) = 1" by (rule iffD2 [OF putint_one])
  then show False using putint_unique [of c] assms by simp
qed

lemma SplitUint64_content:
  assumes "Split b = Some (Inr (k, c, rest))" and "k \<noteq> List"
  shows "SplitUint64 b = Some (if c = [] then Inr (0, rest) else if length c > 8 then Inl errUintOverflow
           else if c ! 0 = 0 then Inl ErrCanonInt else Inr (be_word c, rest))"
proof -
  have "SplitString b = Some (Inr (c, rest))" using assms by (simp add: SplitString_def)
  moreover have "be_word c = (ucast (c ! 0) :: u64)" if "length c = 1"
    using that be_word_snoc [of "[]" "c ! 0"] by (auto simp: length_Suc_conv)
  moreover have "2 \<le> length c" if "c \<noteq> []" "length c \<noteq> 1" using that by (cases c) (auto simp: neq_Nil_conv Suc_le_eq)
  ultimately show ?thesis
    using readSize_content [of c] two_bytes_large [of c]
    by (cases "c = []"; cases "length c = 1") (auto simp: SplitUint64_def Let_def)
qed

lemma SplitUint64_write:
  assumes "length rest < 2 ^ 60"
  shows "SplitUint64 (writeUint64 i @ rest) = Some (Inr (i, rest))"
proof -
  let ?c = "if i = 0 then [] else putint i"
  let ?k = "if length ?c = 1 \<and> ?c ! 0 \<le> 0x7F then Byte else String"
  have len: "length ?c \<le> 8" using length_putint(2) [of i] by simp
  have "Split (writeUint64 i @ rest) = Some (Inr (?k, ?c, rest))"
    unfolding writeUint64_writeBytes by (rule Split_writeBytes) (use le_less_trans [OF add_right_mono [OF len]] assms in simp)
  then have "SplitUint64 (writeUint64 i @ rest) = Some (if ?c = [] then Inr (0, rest) else if length ?c > 8
      then Inl errUintOverflow else if ?c ! 0 = 0 then Inl ErrCanonInt else Inr (be_word ?c, rest))"
    by (rule SplitUint64_content) simp
  then show ?thesis using len putint_lead [of i] length_putint(1) [of i] putint_be_word [of i] by auto
qed

lemma SplitUint64_canonical:
  assumes "SplitUint64 b = Some (Inr (i, rest))" and "length b < 2 ^ 63"
  shows "b = writeUint64 i @ rest"
proof -
  obtain k c rest' where s: "Split b = Some (Inr (k, c, rest'))" "k \<noteq> List"
    using assms(1) by (auto simp: SplitUint64_def SplitString_def split: Option.bind_splits sum.splits if_splits)
  have u: "rest' = rest" "c = [] \<and> i = 0 \<or> c \<noteq> [] \<and> length c \<le> 8 \<and> c ! 0 \<noteq> 0 \<and> i = be_word c"
    using SplitUint64_content [OF s] assms(1) by (auto split: if_splits)
  have b: "b = writeBytes c @ rest" using Split_canonical [OF s(1) assms(2)] s(2) u(1) by simp
  show ?thesis
  proof (cases "c = []")
    case True
    then show ?thesis using b u(2) by (simp add: writeUint64_writeBytes)
  next
    case False
    then have p: "putint i = c" using u(2) putint_unique [of c] by (cases c) auto
    have "i \<noteq> 0" using p u(2) False putint_small [of 0] by auto
    then show ?thesis using b p by (simp add: writeUint64_writeBytes)
  qed
qed

lemma length_puthead: "length (puthead s l n) = headsize n"
  by (simp add: puthead_def headsize_def intsize_putint Let_def)

lemma length_encodeStringHeader:
  "n < 2 ^ 64 \<Longrightarrow> length (encodeStringHeader n) = headsize (of_nat n)"
  by (simp add: encodeStringHeader_def headsize_def intsize_putint Let_def word_less_nat_alt unat_u64_of_nat)

lemma lengths_written:
  assumes "length b < 2 ^ 64"
  shows "length (writeBytes b) = BytesSize b" "length (writeList b) = ListSize (length b)" "length (writeUint64 i) = IntSize i"
proof -
  show "length (writeBytes b) = BytesSize b"
    using assms length_encodeStringHeader [of "length b"]
    by (auto simp: writeBytes_def BytesSize_def encodeStringHeader_def)
  show "length (writeList b) = ListSize (length b)"
    by (simp add: writeList_def ListSize_def length_puthead)
  show "length (writeUint64 i) = IntSize i"
    by (simp add: writeUint64_def IntSize_def intsize_putint Let_def)
qed

section \<open>Properties\<close>

text \<open>Property C15. A byte string or a list written by the encoder, followed by anything, is split by
  \<open>Split\<close> into exactly its content and what follows it, with the kind of the value.\<close>

theorem rlp_roundtrip:
  assumes "length b + length rest < 2 ^ 61"
  shows "Split (writeBytes b @ rest) = Some (Inr (if length b = 1 \<and> b ! 0 \<le> 0x7F then Byte else String, b, rest))
    \<and> Split (writeList b @ rest) = Some (Inr (List, b, rest))"
  using Split_writeBytes [OF assms] Split_writeList [OF assms] by blast

theorem rlp_roundtrip_witness:
  "Split (writeBytes [0x7F] @ [1, 2]) = Some (Inr (Byte, [0x7F], [1, 2]))
    \<and> Split (writeList [0x7F] @ [1, 2]) = Some (Inr (List, [0x7F], [1, 2]))"
  using rlp_roundtrip [of "[0x7F]" "[1, 2]"] by simp

text \<open>Property C16. The decoder is total and accepts canonical encodings only: \<open>Split\<close> never slices out of range,
  and whatever it accepts is byte for byte what the encoder writes for the content it returns, followed by the rest,
  so no value has two accepted encodings.\<close>

theorem rlp_canonical:
  assumes "length b < 2 ^ 63"
  shows "\<exists>r. Split b = Some r \<and> (\<forall>k c rest. r = Inr (k, c, rest) \<longrightarrow>
    b = (if k = List then writeList c else writeBytes c) @ rest \<and> (k = Byte \<longleftrightarrow> k \<noteq> List \<and> length c = 1 \<and> c ! 0 \<le> 0x7F))"
  using Split_total [OF assms] Split_canonical [OF _ assms] by metis

theorem rlp_canonical_witness:
  "Split [0x82, 5, 6, 7] = Some (Inr (String, [5, 6], [7])) \<and> [0x82, 5, 6, 7] = writeBytes [5, 6] @ [7]"
proof -
  have "Split [0x82, 5, 6, 7] = Some (Inr (String, [5, 6], [7]))"
    by (simp add: Split_def readKind_def go_slice_def)
  then show ?thesis using rlp_canonical [of "[0x82, 5, 6, 7]"] by auto
qed

text \<open>Property C22. \<open>SplitUint64\<close> inverts \<open>writeUint64\<close> on every 64-bit integer, and accepts no other
  encoding of it: leading zeroes, long forms and oversized integers are errors.\<close>

theorem rlp_uint64:
  assumes "length b < 2 ^ 60"
  shows "SplitUint64 (writeUint64 i @ b) = Some (Inr (i, b))
    \<and> (SplitUint64 b = Some (Inr (i, rest)) \<longrightarrow> b = writeUint64 i @ rest)"
  using SplitUint64_write [OF assms] SplitUint64_canonical [of b i rest] assms by simp

theorem rlp_uint64_witness:
  "SplitUint64 (writeUint64 0x400 @ [0x80]) = Some (Inr (0x400, [0x80])) \<and> [0x80] = writeUint64 0 @ []"
proof -
  have "SplitUint64 [0x80] = Some (Inr (0, []))"
    by (simp add: SplitUint64_def SplitString_def Split_def readKind_def go_slice_def)
  then show ?thesis using rlp_uint64 [of "[0x80]" "0x400" "[]"] rlp_uint64 [of "[0x80]" 0 "[]"] by simp
qed

text \<open>Property C23. The size functions predict the encoder: \<open>BytesSize\<close>, \<open>ListSize\<close> and \<open>IntSize\<close> are the lengths
  of what is written.\<close>

theorem rlp_sizes:
  assumes "length b < 2 ^ 64"
  shows "length (writeBytes b) = BytesSize b \<and> length (writeList b) = ListSize (length b)
    \<and> length (writeUint64 i) = IntSize i"
  using lengths_written [OF assms] by blast

theorem rlp_sizes_witness:
  "length (writeBytes [0x80]) = BytesSize [0x80] \<and> length (writeList [0x80]) = ListSize (length [0x80 :: byte])
    \<and> length (writeUint64 7) = IntSize 7"
  using rlp_sizes [of "[0x80]" 7] by simp

end
