(* ===== verification/VM_EVM.thy ===== *)
theory VM_EVM
  imports VM_Interpreter RLP
begin

text \<open>
  The EVM (\<open>core/vm/evm.go\<close>): message calls and contract creation. \<open>CanTransfer\<close> and \<open>Transfer\<close> are the
  functions of \<open>core/evm.go\<close> that every block context is built with, and the contract addresses come
  from \<open>crypto/crypto.go\<close>. Every operation takes the interpreter's \<open>Run\<close> as an argument. The recursion
  between the two is tied by the number of nested frames (\<open>calls_at\<close>): the depth check ends it, so
  that \<open>CallCreateDepth + 2\<close> levels are enough.
\<close>

section \<open>Helpers\<close>

definition CanTransfer :: "StateDB \<Rightarrow> address \<Rightarrow> u256 \<Rightarrow> bool \<times> StateDB" where
  "CanTransfer s addr amount = (let (b, s) = GetBalance s addr in (b \<ge> amount, s))"

definition Transfer :: "StateDB \<Rightarrow> address \<Rightarrow> address \<Rightarrow> u256 \<Rightarrow> StateDB" where
  "Transfer s sender recipient amount =
     (let s = snd (SubBalance s sender amount) in snd (AddBalance s recipient amount))"

definition CreateAddress :: "(bytes \<Rightarrow> hash) \<Rightarrow> address \<Rightarrow> u64 \<Rightarrow> address" where
  "CreateAddress H b nonce = ucast (H (writeList (writeBytes (be_bytes 20 b) @ writeUint64 nonce)))"

definition CreateAddress2 :: "(bytes \<Rightarrow> hash) \<Rightarrow> address \<Rightarrow> u256 \<Rightarrow> hash \<Rightarrow> address" where
  "CreateAddress2 H b salt inithash =
     ucast (H ([0xff] @ be_bytes 20 b @ be_bytes 32 salt @ be_bytes 32 inithash))"

definition isSystemCall :: "address \<Rightarrow> bool" where
  "isSystemCall caller = (caller = SystemAddress)"

definition RunPrecompiledContract :: "PrecompiledContract \<Rightarrow> bytes \<Rightarrow> u64 \<Rightarrow> bytes \<times> u64 \<times> vmerr option" where
  "RunPrecompiledContract p input suppliedGas =
     (let gasCost = RequiredGas p input in
      if suppliedGas < gasCost then ([], 0, Some ErrOutOfGas)
      else let (output, err) = pRun p input in (output, suppliedGas - gasCost, err))"

definition resolveCode :: "env \<Rightarrow> evm \<Rightarrow> address \<Rightarrow> bytes \<times> evm" where
  "resolveCode E w addr =
     (let (code, w) = reads (\<lambda>s. GetCode s addr) w in
      if \<not> IsPrague (chainRules E) then (code, w)
      else
        case ParseDelegation code of
          Some target \<Rightarrow> reads (\<lambda>s. GetCode s target) w
        | None \<Rightarrow> (code, w))"

definition resolveCodeHash :: "env \<Rightarrow> evm \<Rightarrow> address \<Rightarrow> hash \<times> evm" where
  "resolveCodeHash E w addr =
     (if IsPrague (chainRules E) then
        let (code, w) = reads (\<lambda>s. GetCode s addr) w in
        case ParseDelegation code of
          Some target \<Rightarrow> reads (\<lambda>s. GetCodeHash s target) w
        | None \<Rightarrow> reads (\<lambda>s. GetCodeHash s addr) w
      else reads (\<lambda>s. GetCodeHash s addr) w)"

type_synonym runner = "evm \<Rightarrow> Contract \<Rightarrow> bytes \<Rightarrow> bool \<Rightarrow> (bytes \<times> vmerr option \<times> evm \<times> Contract) option"

definition snapshot :: "evm \<Rightarrow> nat \<times> evm" where
  "snapshot w = (let (i, s) = Snapshot (db w) in (i, w\<lparr>db := s\<rparr>))"

definition rollback :: "env \<Rightarrow> evm \<Rightarrow> nat \<Rightarrow> evm option" where
  "rollback E w i = do { s \<leftarrow> RevertToSnapshot (keccak E) (db w) i; Some (w\<lparr>db := s\<rparr>) }"

text \<open>The end of every call: on an error the state is rolled back, and all but a revert burn the gas.\<close>

definition settle :: "env \<Rightarrow> nat \<Rightarrow> bytes \<times> u64 \<times> vmerr option \<times> evm \<Rightarrow> callres" where
  "settle E snap r =
     (let (ret, gas, err, w) = r in
      case err of
        None \<Rightarrow> Some (ret, gas, None, w)
      | Some e \<Rightarrow> do {
          w \<leftarrow> rollback E w snap;
          Some (ret, if e \<noteq> ErrExecutionReverted then 0 else gas, Some e, w)
        })"

definition run_contract :: "runner \<Rightarrow> evm \<Rightarrow> Contract \<Rightarrow> bytes \<Rightarrow> bool \<Rightarrow> callres" where
  "run_contract R w c input ro = do {
     (ret, err, w, c) \<leftarrow> R w c input ro;
     Some (ret, Gas c, err, w)
   }"

definition run_precompile :: "PrecompiledContract \<Rightarrow> bytes \<Rightarrow> u64 \<Rightarrow> evm \<Rightarrow> callres" where
  "run_precompile p input gas w =
     (let (ret, gas, err) = RunPrecompiledContract p input gas in Some (ret, gas, err, w))"

section \<open>Message calls\<close>

text \<open>
  The branch of \<open>Call\<close> for an account that does not exist: it is created, or the call returns at once
  (\<open>Inr\<close>).
\<close>

definition call_absent ::
  "env \<Rightarrow> evm \<Rightarrow> nat \<Rightarrow> address \<Rightarrow> address \<Rightarrow> u64 \<Rightarrow> u256 \<Rightarrow> ((u64 \<times> evm) + (bytes \<times> u64 \<times> vmerr option \<times> evm)) option" where
  "call_absent E w snap caller addr gas val = do {
     let isP = isPrecompile E addr;
     r \<leftarrow> (if \<not> isP \<and> IsEIP4762 (chainRules E) \<and> \<not> isSystemCall caller then do {
             (wgas, w) \<leftarrow> charges (\<lambda>ae. CodeHashGas ae addr True gas False) w;
             if gas < wgas then do {
               w \<leftarrow> rollback E w snap;
               Some (Inr ([], 0, Some ErrOutOfGas, w))
             }
             else Some (Inl (gas - wgas, w))
           }
           else Some (Inl (gas, w)));
     case r of
       Inr out \<Rightarrow> Some (Inr out)
     | Inl (gas, w) \<Rightarrow>
         if \<not> isP \<and> IsEIP158 (chainRules E) \<and> val = 0 then Some (Inr ([], gas, None, w))
         else Some (Inl (gas, writes (\<lambda>s. CreateAccount s addr) w))
   }"

definition Call :: "env \<Rightarrow> runner \<Rightarrow> evm \<Rightarrow> address \<Rightarrow> address \<Rightarrow> bytes \<Rightarrow> u64 \<Rightarrow> u256 \<Rightarrow> callres" where
  "Call E R w caller addr input gas val =
     (if depth w > CallCreateDepth then Some ([], gas, Some ErrDepth, w)
      else
        let (can, w) = (if val \<noteq> 0 then reads (\<lambda>s. CanTransfer s caller val) w else (True, w)) in
        if \<not> can then Some ([], gas, Some ErrInsufficientBalance, w)
        else do {
          let (snap, w) = snapshot w;
          let (ex, w) = reads (\<lambda>s. Exist s addr) w;
          r \<leftarrow> (if \<not> ex then call_absent E w snap caller addr gas val else Some (Inl (gas, w)));
          case r of
            Inr out \<Rightarrow> Some out
          | Inl (gas, w) \<Rightarrow> do {
              let w = writes (\<lambda>s. Transfer s caller addr val) w;
              out \<leftarrow> (case precompiles E addr of
                        Some p \<Rightarrow> run_precompile p input gas w
                      | None \<Rightarrow>
                          let (code, w) = resolveCode E w addr in
                          if length code = 0 then Some ([], gas, None, w)
                          else
                            let c = NewContract caller addr val gas;
                                c = c\<lparr>IsSystemCall := isSystemCall caller\<rparr>;
                                (h, w) = resolveCodeHash E w addr;
                                c = SetCallCode c h code
                            in run_contract R w c input False);
              settle E snap out
            }
        })"

text \<open>
  The body that \<open>CallCode\<close>, \<open>DelegateCall\<close> and \<open>StaticCall\<close> share after the snapshot: run the precompile
  or the code at \<open>addr\<close> in the frame \<open>c\<close>.
\<close>

definition run_code_at :: "env \<Rightarrow> runner \<Rightarrow> evm \<Rightarrow> nat \<Rightarrow> address \<Rightarrow> Contract \<Rightarrow> bytes \<Rightarrow> u64 \<Rightarrow> bool \<Rightarrow> callres" where
  "run_code_at E R w snap addr c input gas ro = do {
     out \<leftarrow> (case precompiles E addr of
               Some p \<Rightarrow> run_precompile p input gas w
             | None \<Rightarrow>
                 let (h, w) = resolveCodeHash E w addr;
                     (code, w) = resolveCode E w addr
                 in run_contract R w (SetCallCode c h code) input ro);
     settle E snap out
   }"

definition CallCode :: "env \<Rightarrow> runner \<Rightarrow> evm \<Rightarrow> address \<Rightarrow> address \<Rightarrow> bytes \<Rightarrow> u64 \<Rightarrow> u256 \<Rightarrow> callres" where
  "CallCode E R w caller addr input gas val =
     (if depth w > CallCreateDepth then Some ([], gas, Some ErrDepth, w)
      else
        let (can, w) = reads (\<lambda>s. CanTransfer s caller val) w in
        if \<not> can then Some ([], gas, Some ErrInsufficientBalance, w)
        else
          let (snap, w) = snapshot w
          in run_code_at E R w snap addr (NewContract caller caller val gas) input gas False)"

definition DelegateCall ::
  "env \<Rightarrow> runner \<Rightarrow> evm \<Rightarrow> address \<Rightarrow> address \<Rightarrow> address \<Rightarrow> bytes \<Rightarrow> u64 \<Rightarrow> u256 \<Rightarrow> callres" where
  "DelegateCall E R w originCaller caller addr input gas val =
     (if depth w > CallCreateDepth then Some ([], gas, Some ErrDepth, w)
      else
        let (snap, w) = snapshot w
        in run_code_at E R w snap addr (NewContract originCaller caller val gas) input gas False)"

definition StaticCall :: "env \<Rightarrow> runner \<Rightarrow> evm \<Rightarrow> address \<Rightarrow> address \<Rightarrow> bytes \<Rightarrow> u64 \<Rightarrow> callres" where
  "StaticCall E R w caller addr input gas =
     (if depth w > CallCreateDepth then Some ([], gas, Some ErrDepth, w)
      else
        let (snap, w) = snapshot w;
            w = writes (\<lambda>s. snd (AddBalance s addr 0)) w
        in run_code_at E R w snap addr (NewContract caller addr 0 gas) input gas True)"

section \<open>Contract creation\<close>

definition initNewContract ::
  "env \<Rightarrow> runner \<Rightarrow> evm \<Rightarrow> Contract \<Rightarrow> address \<Rightarrow> (bytes \<times> vmerr option \<times> evm \<times> Contract) option" where
  "initNewContract E R w c address = do {
     (ret, err, w, c) \<leftarrow> R w c [] False;
     if err \<noteq> None then Some (ret, err, w, c)
     else if IsEIP158 (chainRules E) \<and> length ret > MaxCodeSize then Some (ret, Some ErrMaxCodeSizeExceeded, w, c)
     else if length ret \<ge> 1 \<and> ret ! 0 = 0xEF \<and> IsLondon (chainRules E) then Some (ret, Some ErrInvalidCode, w, c)
     else do {
       (paid, w, c) \<leftarrow>
         (if \<not> IsEIP4762 (chainRules E) then
            let createDataGas = of_nat (length ret) * CreateDataGas;
                (paid, c) = UseGas c createDataGas
            in Some (paid, w, c)
          else do {
            ((consumed, wanted), w) \<leftarrow>
              charges_opt (\<lambda>ae. CodeChunksRangeGas ae address 0 (of_nat (length ret)) (of_nat (length ret)) True (Gas c)) w;
            Some (\<not> (length ret > 0 \<and> consumed < wanted), w, snd (UseGas c consumed))
          });
       if \<not> paid then Some (ret, Some ErrCodeStoreOutOfGas, w, c)
       else Some (ret, None, writes (\<lambda>s. snd (SetCode (keccak E) s address ret)) w, c)
     }
   }"

definition collides :: "evm \<Rightarrow> address \<Rightarrow> bool \<times> evm" where
  "collides w address =
     (let (contractHash, w) = reads (\<lambda>s. GetCodeHash s address) w;
          (storageRoot, w) = reads (\<lambda>s. GetStorageRoot s address) w;
          (nonce, w) = reads (\<lambda>s. GetNonce s address) w
      in (nonce \<noteq> 0 \<or> (contractHash \<noteq> 0 \<and> contractHash \<noteq> EmptyCodeHash)
          \<or> (storageRoot \<noteq> 0 \<and> storageRoot \<noteq> EmptyRootHash), w))"

text \<open>The part of \<open>create\<close> from the snapshot on. The check of the init gas of EIP-4762 leaves without a rollback.\<close>

definition create_at ::
  "env \<Rightarrow> runner \<Rightarrow> evm \<Rightarrow> address \<Rightarrow> bytes \<Rightarrow> u64 \<Rightarrow> u256 \<Rightarrow> address \<Rightarrow> createres" where
  "create_at E R w caller code gas val address = do {
     let (snap, w) = snapshot w;
     let (ex, w) = reads (\<lambda>s. Exist s address) w;
     let w = (if \<not> ex then writes (\<lambda>s. CreateAccount s address) w else w);
     s \<leftarrow> CreateContract (db w) address;
     let w = w\<lparr>db := s\<rparr>;
     let w = (if IsEIP158 (chainRules E) then writes (\<lambda>s. SetNonce s address 1) w else w);
     ((consumed, wanted), w) \<leftarrow>
       (if IsEIP4762 (chainRules E) then charges (\<lambda>ae. ContractCreateInitGas ae address gas) w
        else Some ((0, 0), w));
     if consumed < wanted then Some ([], 0, 0, Some ErrOutOfGas, w)
     else do {
       let gas = gas - consumed;
       let w = writes (\<lambda>s. Transfer s caller address val) w;
       let c = NewContract caller address val gas;
       let c = (SetCallCode c 0 code)\<lparr>IsDeployment := True\<rparr>;
       (ret, err, w, c) \<leftarrow> initNewContract E R w c address;
       if err \<noteq> None \<and> (IsHomestead (chainRules E) \<or> err \<noteq> Some ErrCodeStoreOutOfGas) then do {
         w \<leftarrow> rollback E w snap;
         let c = (if err \<noteq> Some ErrExecutionReverted then snd (UseGas c (Gas c)) else c);
         Some (ret, address, Gas c, err, w)
       }
       else Some (ret, address, Gas c, err, w)
     }
   }"

definition create ::
  "env \<Rightarrow> runner \<Rightarrow> evm \<Rightarrow> address \<Rightarrow> bytes \<Rightarrow> u64 \<Rightarrow> u256 \<Rightarrow> address \<Rightarrow> createres" where
  "create E R w caller code gas val address =
     (if depth w > CallCreateDepth then Some ([], 0, gas, Some ErrDepth, w)
      else
        let (can, w) = reads (\<lambda>s. CanTransfer s caller val) w in
        if \<not> can then Some ([], 0, gas, Some ErrInsufficientBalance, w)
        else
          let (nonce, w) = reads (\<lambda>s. GetNonce s caller) w in
          if nonce + 1 < nonce then Some ([], 0, gas, Some ErrNonceUintOverflow, w)
          else do {
            let w = writes (\<lambda>s. SetNonce s caller (nonce + 1)) w;
            (statelessGas, w) \<leftarrow>
              (if IsEIP4762 (chainRules E) then charges (\<lambda>ae. ContractCreatePreCheckGas ae address gas) w
               else Some (0, w));
            if statelessGas > gas then Some ([], 0, 0, Some ErrOutOfGas, w)
            else do {
              let gas = gas - statelessGas;
              let w = (if IsEIP2929 (chainRules E) then writes (\<lambda>s. AddAddressToAccessList s address) w else w);
              let (collision, w) = collides w address;
              if collision then Some ([], 0, 0, Some ErrContractAddressCollision, w)
              else create_at E R w caller code gas val address
            }
          })"

definition Create :: "env \<Rightarrow> runner \<Rightarrow> evm \<Rightarrow> address \<Rightarrow> bytes \<Rightarrow> u64 \<Rightarrow> u256 \<Rightarrow> createres" where
  "Create E R w caller code gas val =
     (let (nonce, w) = reads (\<lambda>s. GetNonce s caller) w
      in create E R w caller code gas val (CreateAddress (keccak E) caller nonce))"

definition Create2 :: "env \<Rightarrow> runner \<Rightarrow> evm \<Rightarrow> address \<Rightarrow> bytes \<Rightarrow> u64 \<Rightarrow> u256 \<Rightarrow> u256 \<Rightarrow> createres" where
  "Create2 E R w caller code gas endowment salt =
     create E R w caller code gas endowment (CreateAddress2 (keccak E) caller salt (keccak E code))"

section \<open>Tying the knot\<close>

definition no_calls :: calls where
  "no_calls = \<lparr>kCall = \<lambda>_ _ _ _ _ _. None, kCallCode = \<lambda>_ _ _ _ _ _. None,
     kDelegateCall = \<lambda>_ _ _ _ _ _ _. None, kStaticCall = \<lambda>_ _ _ _ _. None,
     kCreate = \<lambda>_ _ _ _ _. None, kCreate2 = \<lambda>_ _ _ _ _ _. None\<rparr>"

fun calls_at :: "nat \<Rightarrow> env \<Rightarrow> JumpTable \<Rightarrow> calls" where
  "calls_at 0 E jt = no_calls"
| "calls_at (Suc n) E jt =
     (let R = Run E jt (calls_at n E jt) in
      \<lparr>kCall = Call E R, kCallCode = CallCode E R, kDelegateCall = DelegateCall E R,
       kStaticCall = StaticCall E R, kCreate = Create E R, kCreate2 = Create2 E R\<rparr>)"

definition evm_calls :: "env \<Rightarrow> JumpTable \<Rightarrow> calls" where
  "evm_calls E jt = calls_at (CallCreateDepth + 2) E jt"

end
