(* ===== verification/VM_Invariants.thy ===== *)
theory VM_Invariants
  imports VM_EVM
begin

text \<open>
  The invariants of a running EVM and the relations between its states. \<open>evm_ok\<close> is what holds
  between instructions; \<open>after\<close> is what running code does to the state. The refund counter covers
  the slots that were cleared in this transaction (\<open>refund_ok\<close>), which is why \<open>SubRefund\<close> never
  panics; \<open>pot\<close>, the refund plus a multiple of the gas, never grows, which is why the counter never
  wraps around. \<open>clr\<close> is the refund for clearing a slot in the fork at hand.
\<close>

section \<open>The world\<close>

definition small :: "bytes \<Rightarrow> bool" where
  "small b \<longleftrightarrow> length b < 2 ^ 62"

definition codes_small :: "sview \<Rightarrow> bool" where
  "codes_small v \<longleftrightarrow> (\<forall>a. small (vCodeAt v a))"

text \<open>The storage slots that are zero now and were not when the transaction began.\<close>

definition cleared :: "sview \<Rightarrow> (address \<times> hash) set" where
  "cleared v = {(a, k). vCommittedAt v a k \<noteq> 0 \<and> vStateAt v a k = 0}"

definition refund_ok :: "nat \<Rightarrow> sview \<Rightarrow> bool" where
  "refund_ok clr v \<longleftrightarrow> finite (cleared v) \<and> clr * card (cleared v) \<le> unat (vRefund v)"

text \<open>An account whose code hash reads as zero has its code in the cache, so that a creation at its address can be undone.\<close>

definition zero_loaded :: "StateDB \<Rightarrow> bool" where
  "zero_loaded s \<longleftrightarrow> (\<forall>a. vCodeHashAt (view s) a = 0 \<longrightarrow> loaded s a)"

text \<open>Where the database below has no account it has no storage either.\<close>

definition storage_backed :: "Reader \<Rightarrow> bool" where
  "storage_backed rd \<longleftrightarrow> (\<forall>a k. (\<forall>acct. rAccount rd a \<noteq> Inr (Some acct)) \<longrightarrow> (\<exists>e. rStorage rd a k = Inl e) \<or> rStorage rd a k = Inr 0)"

definition world_ok :: "nat \<Rightarrow> (bytes \<Rightarrow> hash) \<Rightarrow> StateDB \<Rightarrow> bool" where
  "world_ok clr H s \<longleftrightarrow> sinv H s \<and> codes_small (view s) \<and> zero_loaded s \<and> refund_ok clr (view s)
     \<and> storage_backed (reader s)"

text \<open>A change of the world that leaves code and cleared slots alone.\<close>

definition tame :: "sview \<Rightarrow> sview \<Rightarrow> bool" where
  "tame v v' \<longleftrightarrow> (\<forall>a. vCodeAt v' a = vCodeAt v a) \<and> (\<forall>a. vCodeHashAt v' a = 0 \<longrightarrow> vCodeHashAt v a = 0)
     \<and> cleared v' = cleared v"

text \<open>What a static frame may do: warm addresses and slots, and touch accounts that do not exist into empty ones.\<close>

definition frozen :: "sview \<Rightarrow> sview \<Rightarrow> bool" where
  "frozen v v' \<longleftrightarrow> (\<exists>al as. v' = v\<lparr>vAccessList := al, vAccounts := as\<rparr>
     \<and> (\<forall>a. as a = vAccounts v a \<or> vAccounts v a = None \<and> as a = Some (fresh_view v a)))"

lemma tame_refl [simp]: "tame v v"
  by (simp add: tame_def)

lemma tame_trans: "tame v v' \<Longrightarrow> tame v' v'' \<Longrightarrow> tame v v''"
  by (simp add: tame_def)

lemma frozen_refl [simp]: "frozen v v"
  unfolding frozen_def by (rule exI [of _ "vAccessList v"], rule exI [of _ "vAccounts v"]) simp

lemma frozen_trans:
  assumes "frozen v v'" and "frozen v' v''"
  shows "frozen v v''"
proof -
  obtain al as where v': "v' = v\<lparr>vAccessList := al, vAccounts := as\<rparr>"
    "\<forall>a. as a = vAccounts v a \<or> vAccounts v a = None \<and> as a = Some (fresh_view v a)"
    using assms(1) by (auto simp: frozen_def)
  obtain al' as' where v'': "v'' = v'\<lparr>vAccessList := al', vAccounts := as'\<rparr>"
    "\<forall>a. as' a = vAccounts v' a \<or> vAccounts v' a = None \<and> as' a = Some (fresh_view v' a)"
    using assms(2) by (auto simp: frozen_def)
  have f: "fresh_view v' a = fresh_view v a" for a by (simp add: v'(1) fresh_view_def)
  have "v'' = v\<lparr>vAccessList := al', vAccounts := as'\<rparr>" by (simp add: v''(1) v'(1))
  moreover have "as' a = vAccounts v a \<or> vAccounts v a = None \<and> as' a = Some (fresh_view v a)" for a
    using v'(2) [rule_format, of a] v''(2) [rule_format, of a] f [of a] by (auto simp: v'(1))
  ultimately show ?thesis unfolding frozen_def by blast
qed

lemma vget_access_list [simp]:
  "vCodeAt (v\<lparr>vAccessList := al\<rparr>) a = vCodeAt v a" "vCodeHashAt (v\<lparr>vAccessList := al\<rparr>) a = vCodeHashAt v a"
  "vStateAt (v\<lparr>vAccessList := al\<rparr>) a k = vStateAt v a k" "vCommittedAt (v\<lparr>vAccessList := al\<rparr>) a k = vCommittedAt v a k"
  "cleared (v\<lparr>vAccessList := al\<rparr>) = cleared v"
  by (simp_all add: vget_defs cleared_def)

lemma tame_access_list [simp]: "tame v (v\<lparr>vAccessList := al\<rparr>)"
  by (simp add: tame_def)

lemma frozen_access_list [simp]: "frozen v (v\<lparr>vAccessList := al\<rparr>)"
  unfolding frozen_def by (rule exI [of _ al], rule exI [of _ "vAccounts v"]) simp

lemma tame_same_accounts: "vAccounts v' = vAccounts v \<Longrightarrow> tame v v'"
  by (simp add: tame_def vget_defs cleared_def)

section \<open>Preservation\<close>

lemma fresh_view_sel:
  "avState (fresh_view v a) k = avCommitted (fresh_view v a) k" "avCode (fresh_view v a) = []"
  "aCodeHash (avData (fresh_view v a)) = EmptyCodeHash"
  by (simp_all add: fresh_view_def newObject_def code_of_def NewEmptyStateAccount_def)

lemma EmptyCodeHash_ne_0 [simp]: "EmptyCodeHash \<noteq> 0"
  by (simp add: EmptyCodeHash_def)

text \<open>An update of one account that keeps its code and storage, creating it if need be.\<close>

lemma tame_upd:
  assumes "\<And>w. avCode (f w) = avCode w \<and> aCodeHash (avData (f w)) = aCodeHash (avData w)
    \<and> avState (f w) = avState w \<and> avCommitted (f w) = avCommitted w"
  shows "tame v (v_upd a f v)"
  using assms
  by (auto simp: tame_def v_upd_def vget_defs cleared_def v_acct_def fresh_view_sel split: option.splits if_splits)

lemma tame_fresh: "vAccounts v a = None \<Longrightarrow> tame v (v_set a (Some (fresh_view v a)) v)"
  by (auto simp: tame_def vget_defs cleared_def fresh_view_sel split: option.splits if_splits)

lemma tame_set:
  assumes "vAccounts v a = Some w" and "avCode w' = avCode w" and "aCodeHash (avData w') = aCodeHash (avData w)"
    and "avState w' = avState w" and "avCommitted w' = avCommitted w"
  shows "tame v (v_set a (Some w') v)"
  using assms by (auto simp: tame_def vget_defs cleared_def split: option.splits if_splits)

lemma frozen_ensure: "frozen v (v_ensure a v)"
  unfolding frozen_def v_ensure_def
  by (rule exI [of _ "vAccessList v"], rule exI [of _ "if vAccounts v a = None then (vAccounts v)(a \<mapsto> fresh_view v a) else vAccounts v"])
     (auto simp: v_set_def)

lemma world_ok_sinv: "world_ok clr H s \<Longrightarrow> sinv H s"
  by (simp add: world_ok_def)

lemma world_ok_tame:
  assumes "world_ok clr H s" and "evolves H s t" and "tame (view s) (view t)" and "unat (refund s) \<le> unat (refund t)"
  shows "world_ok clr H t"
proof -
  have "codes_small (view t)" using assms(1,3) by (simp add: world_ok_def codes_small_def tame_def)
  moreover have "zero_loaded t"
    using assms(1-3) evolves_loaded by (auto simp: world_ok_def zero_loaded_def tame_def)
  moreover have "refund_ok clr (view t)"
    using assms(1,3,4) by (auto simp: world_ok_def refund_ok_def tame_def)
  moreover have "storage_backed (reader t)" using assms(1) evolves_static(1) [OF assms(2)] by (simp add: world_ok_def)
  ultimately show ?thesis using evolves_sinv [OF assms(2)] by (simp add: world_ok_def)
qed

lemma fresh_committed:
  assumes "vAccounts (view s) a = None" and "storage_backed (reader s)"
  shows "avCommitted (fresh_view (view s) a) k = 0"
proof -
  have "base_obj (reader s) (stateObjectsDestruct s) a = None"
    using assms(1) by (simp add: peek_obj_def split: option.splits)
  then have "stateObjectsDestruct s a \<noteq> None \<or> (\<forall>acct. rAccount (reader s) a \<noteq> Inr (Some acct))"
    by (auto simp: base_obj_def split: if_splits)
  moreover have "(\<exists>e. rStorage (reader s) a k = Inl e) \<or> rStorage (reader s) a k = Inr 0"
    if "\<forall>acct. rAccount (reader s) a \<noteq> Inr (Some acct)"
    using assms(2) that unfolding storage_backed_def by blast
  ultimately show ?thesis by (auto simp: fresh_view_def committed_of_def newObject_def split: sum.split)
qed

text \<open>After a rollback the world is the one of the snapshot.\<close>

lemma world_ok_restored:
  assumes "world_ok clr H s" and "evolves H s t" and "view t = view s"
  shows "world_ok clr H t"
proof -
  have "refund t = refund s" using arg_cong [OF assms(3), of vRefund] by simp
  then show ?thesis using world_ok_tame [OF assms(1,2)] assms(3) by simp
qed

section \<open>Reading and warming\<close>

definition mild :: "(bytes \<Rightarrow> hash) \<Rightarrow> StateDB \<Rightarrow> StateDB \<Rightarrow> bool" where
  "mild H s t \<longleftrightarrow> evolves H s t \<and> (\<exists>al. view t = (view s)\<lparr>vAccessList := al\<rparr>)"

lemma mild_evolves: "mild H s t \<Longrightarrow> evolves H s t"
  by (simp add: mild_def)

lemma mild_refl: "sinv H s \<Longrightarrow> mild H s s"
  unfolding mild_def using evolves_refl by (auto intro: exI [of _ "sAccessList s"])

lemma mild_trans: "mild H s t \<Longrightarrow> mild H t u \<Longrightarrow> mild H s u"
  unfolding mild_def using evolves_trans by fastforce

lemma mild_quiet: "sinv H s \<Longrightarrow> quiet H s t \<Longrightarrow> mild H s t"
  unfolding mild_def using evolves_quiet by (auto simp: quiet_def intro: exI [of _ "sAccessList s"])

lemma mild_refund:
  assumes "mild H s t"
  shows "refund t = refund s"
proof -
  obtain al where "view t = (view s)\<lparr>vAccessList := al\<rparr>" using assms by (auto simp: mild_def)
  from arg_cong [OF this, of vRefund] show ?thesis by simp
qed

lemma mild_world: "world_ok clr H s \<Longrightarrow> mild H s t \<Longrightarrow> world_ok clr H t"
  using world_ok_tame [of clr H s t] mild_refund [of H s t] by (auto simp: mild_def)

lemma mild_frozen: "mild H s t \<Longrightarrow> frozen (view s) (view t)"
  by (auto simp: mild_def)

lemma mild_warm: "sinv H s \<Longrightarrow> mild H s (AddAddressToAccessList s a)"
  using AddAddressToAccessList_spec [of H s a] mutates_evolves by (auto simp: mild_def)

lemma mild_slot:
  assumes "sinv H s"
  shows "\<exists>t. AddSlotToAccessList s a slot = Some t \<and> mild H s t"
  using AddSlotToAccessList_spec [OF assms, of a slot] mutates_evolves by (fastforce simp: mild_def)

lemma SlotInAccessList_Some: "sinv H s \<Longrightarrow> \<exists>r. SlotInAccessList s a slot = Some r"
  using Contains_eq [OF sinv_al_wf, of H s a slot] by (simp add: SlotInAccessList_def)

section \<open>The EVM\<close>

definition hash_sized :: "(bytes \<Rightarrow> hash) \<Rightarrow> bool" where
  "hash_sized H \<longleftrightarrow> (\<forall>x y. small x \<and> small y \<and> H x = H y \<longrightarrow> length x = length y)"

text \<open>Every shared bitmap belongs to some code with that hash, and a frame's code to its code hash.\<close>

definition jd_ok :: "(bytes \<Rightarrow> hash) \<Rightarrow> jumpDests \<Rightarrow> bool" where
  "jd_ok H jd \<longleftrightarrow> (\<forall>h b. jd h = Some b \<longrightarrow> (\<exists>code. small code \<and> H code = h \<and> fits b code))"

definition con_ok :: "(bytes \<Rightarrow> hash) \<Rightarrow> Contract \<Rightarrow> bool" where
  "con_ok H c \<longleftrightarrow> small (Code c) \<and> small (Input c) \<and> (\<forall>a. analysis c = Some a \<longrightarrow> fits a (Code c))
     \<and> (CodeHash c \<noteq> 0 \<longrightarrow> H (Code c) = CodeHash c)"

definition evm_ok :: "nat \<Rightarrow> env \<Rightarrow> evm \<Rightarrow> bool" where
  "evm_ok clr E w \<longleftrightarrow> world_ok clr (keccak E) (db w) \<and> small (returnData w) \<and> jd_ok (keccak E) (jumpDests w)"

text \<open>What is left of it when an instruction has failed, until the frame is rolled back.\<close>

definition evm_weak :: "env \<Rightarrow> evm \<Rightarrow> bool" where
  "evm_weak E w \<longleftrightarrow> sinv (keccak E) (db w) \<and> small (returnData w) \<and> jd_ok (keccak E) (jumpDests w)"

definition follows :: "env \<Rightarrow> evm \<Rightarrow> evm \<Rightarrow> bool" where
  "follows E w w' \<longleftrightarrow> evolves (keccak E) (db w) (db w') \<and> depth w' = depth w \<and> readOnly w' = readOnly w"

definition after :: "env \<Rightarrow> evm \<Rightarrow> evm \<Rightarrow> bool" where
  "after E w w' \<longleftrightarrow> follows E w w' \<and> (readOnly w \<longrightarrow> frozen (view (db w)) (view (db w')))"

definition pot :: "evm \<Rightarrow> u64 \<Rightarrow> nat" where
  "pot w gas = unat (refund (db w)) + 1000 * unat gas"

lemma evm_ok_weak: "evm_ok clr E w \<Longrightarrow> evm_weak E w"
  by (simp add: evm_ok_def evm_weak_def world_ok_def)

lemma evm_ok_sinv: "evm_ok clr E w \<Longrightarrow> sinv (keccak E) (db w)"
  by (simp add: evm_ok_def world_ok_def)

lemma follows_refl: "evm_ok clr E w \<Longrightarrow> follows E w w"
  by (simp add: follows_def evolves_refl evm_ok_sinv)

lemma follows_trans: "follows E w w' \<Longrightarrow> follows E w' w'' \<Longrightarrow> follows E w w''"
  using evolves_trans by (auto simp: follows_def)

lemma after_refl: "evm_ok clr E w \<Longrightarrow> after E w w"
  by (simp add: after_def follows_refl)

lemma after_trans:
  assumes "after E w w'" and "after E w' w''"
  shows "after E w w''"
proof -
  have "follows E w w''" using assms follows_trans by (auto simp: after_def)
  moreover have "frozen (view (db w)) (view (db w''))" if "readOnly w"
    using assms that frozen_trans [of "view (db w)" "view (db w')" "view (db w'')"] by (auto simp: after_def follows_def)
  ultimately show ?thesis by (simp add: after_def)
qed

lemma after_follows: "after E w w' \<Longrightarrow> follows E w w'"
  by (simp add: after_def)

text \<open>\<open>calm\<close>: only the caches, the warm set and the gas passed to a call have changed.\<close>

definition calm :: "env \<Rightarrow> evm \<Rightarrow> evm \<Rightarrow> bool" where
  "calm E w w' \<longleftrightarrow> mild (keccak E) (db w) (db w') \<and> (\<exists>g. w' = w\<lparr>db := db w', callGasTemp := g\<rparr>)"

lemma calm_refl: "evm_ok clr E w \<Longrightarrow> calm E w w"
  unfolding calm_def using mild_refl evm_ok_sinv by (auto intro: exI [of _ "callGasTemp w"])

lemma calm_trans:
  assumes "calm E w w'" and "calm E w' w''"
  shows "calm E w w''"
proof -
  obtain g g' where "w' = w\<lparr>db := db w', callGasTemp := g\<rparr>" "w'' = w'\<lparr>db := db w'', callGasTemp := g'\<rparr>"
    using assms by (auto simp: calm_def)
  then have "w'' = w\<lparr>db := db w'', callGasTemp := g'\<rparr>" by (metis evm.surjective evm.update_convs(1,5) evm.select_convs(1))
  then show ?thesis using assms mild_trans by (auto simp: calm_def)
qed

lemma calm_sel:
  assumes "calm E w w'"
  shows "depth w' = depth w" "readOnly w' = readOnly w" "returnData w' = returnData w" "jumpDests w' = jumpDests w"
    "accessEvents w' = accessEvents w" "refund (db w') = refund (db w)"
proof -
  obtain g where w: "w' = w\<lparr>db := db w', callGasTemp := g\<rparr>" using assms by (auto simp: calm_def)
  show "depth w' = depth w" "readOnly w' = readOnly w" "returnData w' = returnData w" "jumpDests w' = jumpDests w"
    "accessEvents w' = accessEvents w" by (subst w, simp)+
  show "refund (db w') = refund (db w)" using assms mild_refund by (auto simp: calm_def)
qed

lemma calm_ok:
  assumes "evm_ok clr E w" and "calm E w w'"
  shows "evm_ok clr E w'" "after E w w'"
  using assms calm_sel [OF assms(2)] mild_world [of clr "keccak E" "db w" "db w'"]
    mild_evolves [of "keccak E" "db w" "db w'"] mild_frozen [of "keccak E" "db w" "db w'"]
  by (auto simp: evm_ok_def after_def follows_def calm_def)

lemma calm_db: "mild (keccak E) (db w) s \<Longrightarrow> calm E w (w\<lparr>db := s\<rparr>)"
  unfolding calm_def by (auto intro: exI [of _ "callGasTemp w"])

lemma calm_gas_temp: "evm_ok clr E w \<Longrightarrow> calm E w (w\<lparr>callGasTemp := g\<rparr>)"
  unfolding calm_def using mild_refl evm_ok_sinv by auto

section \<open>Reads\<close>

text \<open>A read fills caches and nothing else.\<close>

definition still :: "env \<Rightarrow> evm \<Rightarrow> evm \<Rightarrow> bool" where
  "still E w w' \<longleftrightarrow> (\<exists>s. w' = w\<lparr>db := s\<rparr> \<and> quiet (keccak E) (db w) s)"

lemma still_refl [simp]: "still E w w"
  unfolding still_def by (rule exI [of _ "db w"]) simp

lemma still_trans: "still E w w' \<Longrightarrow> still E w' w'' \<Longrightarrow> still E w w''"
  unfolding still_def using quiet_trans by fastforce

lemma still_view: "still E w w' \<Longrightarrow> view (db w') = view (db w)"
  by (auto simp: still_def quiet_def)

lemma still_sel:
  "still E w w' \<Longrightarrow> depth w' = depth w" "still E w w' \<Longrightarrow> readOnly w' = readOnly w"
  "still E w w' \<Longrightarrow> callGasTemp w' = callGasTemp w" "still E w w' \<Longrightarrow> returnData w' = returnData w"
  by (auto simp: still_def)

lemma still_calm: "evm_ok clr E w \<Longrightarrow> still E w w' \<Longrightarrow> calm E w w'"
  using calm_db mild_quiet evm_ok_sinv by (auto simp: still_def)

lemma still_ok: "evm_ok clr E w \<Longrightarrow> still E w w' \<Longrightarrow> evm_ok clr E w'"
  using still_calm calm_ok by blast

lemma still_access_list: "still E w w' \<Longrightarrow> sAccessList (db w') = sAccessList (db w)"
  using still_view [of E w w'] view_simps(8) by metis

lemma reads_still:
  "\<exists>t. f (db w) = (x, t) \<and> quiet (keccak E) (db w) t \<Longrightarrow> \<exists>w'. reads f w = (x, w') \<and> still E w w'"
  by (auto simp: reads_def still_def)

lemma reads_specs:
  assumes "evm_ok clr E w"
  shows reads_Exist: "\<exists>w'. reads (\<lambda>s. Exist s a) w = (vAccounts (view (db w)) a \<noteq> None, w') \<and> still E w w'"
    and reads_Empty: "\<exists>w'. reads (\<lambda>s. Empty s a) w = (vEmptyAt (view (db w)) a, w') \<and> still E w w'"
    and reads_GetBalance: "\<exists>w'. reads (\<lambda>s. GetBalance s a) w = (vBal (view (db w)) a, w') \<and> still E w w'"
    and reads_GetNonce: "\<exists>w'. reads (\<lambda>s. GetNonce s a) w = (vNonceAt (view (db w)) a, w') \<and> still E w w'"
    and reads_GetStorageRoot: "\<exists>w'. reads (\<lambda>s. GetStorageRoot s a) w = (vRootAt (view (db w)) a, w') \<and> still E w w'"
    and reads_GetCodeHash: "\<exists>w'. reads (\<lambda>s. GetCodeHash s a) w = (vCodeHashAt (view (db w)) a, w') \<and> still E w w'"
    and reads_HasSelfDestructed: "\<exists>w'. reads (\<lambda>s. HasSelfDestructed s a) w = (vDestructedAt (view (db w)) a, w') \<and> still E w w'"
    and reads_GetCode: "\<exists>w'. reads (\<lambda>s. GetCode s a) w = (vCodeAt (view (db w)) a, w') \<and> still E w w'"
    and reads_GetState: "\<exists>w'. reads (\<lambda>s. GetState s a k) w = (vStateAt (view (db w)) a k, w') \<and> still E w w'"
    and reads_GetCommittedState: "\<exists>w'. reads (\<lambda>s. GetCommittedState s a k) w = (vCommittedAt (view (db w)) a k, w') \<and> still E w w'"
  using sinvD(1) [OF evm_ok_sinv [OF assms]]
  by (intro reads_still Exist_spec Empty_spec GetBalance_spec GetNonce_spec GetStorageRoot_spec GetCodeHash_spec
      HasSelfDestructed_spec GetCode_spec GetState_spec GetCommittedState_spec; simp)+

end
