(* ===== verification/VM_GasProofs.thy ===== *)
theory VM_GasProofs
  imports VM_Invariants
begin

text \<open>
  The dynamic gas functions of the forks before Verkle never panic: with enough operands on the
  stack they return a cost or an error, change nothing but caches, the warm set, the fee of the
  memory and the gas passed to a call, and leave the contract's gas as it was when they succeed.
  A postcondition relates the cost to the rest: that it is not zero, or that it pays for the gas a
  call passes on and for its stipend.
\<close>

section \<open>The contract of a gas function\<close>

type_synonym gaspost = "Stack \<Rightarrow> evm \<Rightarrow> nat \<Rightarrow> bool"

definition spent :: "Contract \<Rightarrow> Contract \<Rightarrow> bool" where
  "spent c c' \<longleftrightarrow> c' = c\<lparr>Gas := Gas c'\<rparr> \<and> Gas c' \<le> Gas c"

definition gas_res :: "env \<Rightarrow> (evm \<Rightarrow> nat \<Rightarrow> bool) \<Rightarrow> evm \<Rightarrow> Contract \<Rightarrow> Memory \<Rightarrow> u64 \<Rightarrow> gasres \<Rightarrow> bool" where
  "gas_res E Q w c m sz r \<longleftrightarrow> (\<exists>cost err w' c' m'. r = Some ((cost, err), w', c', m') \<and> calm E w w'
     \<and> spent c c'
     \<and> (err = None \<longrightarrow> c' = c \<and> Q w' (unat cost) \<and> m' = snd (memoryGasCost m sz) \<and> unat sz \<le> mem_max_size))"

definition gas_fine :: "nat \<Rightarrow> env \<Rightarrow> nat \<Rightarrow> bool \<Rightarrow> gaspost \<Rightarrow> gasFunc \<Rightarrow> bool" where
  "gas_fine clr E n mm Q g \<longleftrightarrow> (\<forall>w c st m sz. evm_ok clr E w \<and> n \<le> length st \<and> mem_wf m \<and> (mm \<or> sz = 0) \<longrightarrow>
     gas_res E (Q st) w c m sz (g E w c st m sz))"

definition any_cost :: gaspost where
  "any_cost st w cost \<longleftrightarrow> True"

definition some_cost :: gaspost where
  "some_cost st w cost \<longleftrightarrow> 1 \<le> cost"

text \<open>The cost of a call covers the gas it passes on, and 9000 more when it transfers value.\<close>

definition transfers :: "Stack \<Rightarrow> bool" where
  "transfers st \<longleftrightarrow> Back st 2 \<noteq> Some 0"

definition pays_call :: gaspost where
  "pays_call st w cost \<longleftrightarrow> unat (callGasTemp w) \<le> cost"

definition pays_transfer :: gaspost where
  "pays_transfer st w cost \<longleftrightarrow> unat (callGasTemp w) + (if transfers st then 9000 else 0) \<le> cost"

lemmas gaspost_defs = any_cost_def some_cost_def pays_call_def pays_transfer_def

lemma spent_refl [simp]: "spent c c"
  by (simp add: spent_def)

lemma gas_resE:
  assumes "gas_res E Q w c m sz r"
  obtains cost err w' c' m' where "r = Some ((cost, err), w', c', m')" "calm E w w'" "spent c c'"
    "err = None \<Longrightarrow> c' = c" "err = None \<Longrightarrow> Q w' (unat cost)"
    "err = None \<Longrightarrow> m' = snd (memoryGasCost m sz)" "err = None \<Longrightarrow> unat sz \<le> mem_max_size"
  using assms unfolding gas_res_def by metis

lemma gas_res_err:
  "calm E w w' \<Longrightarrow> gas_res E Q w c m sz (gas_err g e w' c m')"
  by (simp add: gas_res_def gas_err_def)

lemma gas_res_ok:
  "calm E w w' \<Longrightarrow> Q w' (unat g) \<Longrightarrow> m' = snd (memoryGasCost m sz) \<Longrightarrow> unat sz \<le> mem_max_size
    \<Longrightarrow> gas_res E Q w c m sz (gas_ok g w' c m')"
  by (simp add: gas_res_def gas_ok_def)

lemma memoryGasCost_0 [simp]: "memoryGasCost m 0 = ((0, None), m)"
  by (simp add: memoryGasCost_def)

lemma mem_max_size_0 [simp]: "0 \<le> mem_max_size"
  by simp

lemma gas_res_ok_0:
  "calm E w w' \<Longrightarrow> Q w' (unat g) \<Longrightarrow> gas_res E Q w c m 0 (gas_ok g w' c m)"
  by (rule gas_res_ok) simp_all

text \<open>The memory fee either fails or leaves the size in bounds.\<close>

lemma memoryGasCost_cases:
  obtains (err) g e m' where "memoryGasCost m sz = ((g, Some e), m')"
  | (ok) g m' where "memoryGasCost m sz = ((g, None), m')" "unat sz \<le> mem_max_size"
proof -
  obtain g e m' where r: "memoryGasCost m sz = ((g, e), m')" by (metis surj_pair)
  show thesis
  proof (cases e)
    case (Some x)
    then show thesis using r err by blast
  next
    case None
    then have "\<not> unat sz > mem_max_size" using memoryGasCost_error [of m sz] r by auto
    then show thesis using ok r None by auto
  qed
qed

lemma Back_ex: "n < length st \<Longrightarrow> \<exists>x. Back st n = Some x"
  by (simp add: Back_def)

lemma peek_ex: "1 \<le> length st \<Longrightarrow> \<exists>x. peek st = Some x"
  by (auto simp: peek_def)

section \<open>Copies, logs, hashes and memory\<close>

lemma gas_fineI:
  "(\<And>w c st m sz. evm_ok clr E w \<Longrightarrow> n \<le> length st \<Longrightarrow> mem_wf m \<Longrightarrow> mm \<or> sz = 0 \<Longrightarrow>
     gas_res E (Q st) w c m sz (g E w c st m sz)) \<Longrightarrow> gas_fine clr E n mm Q g"
  by (simp add: gas_fine_def)

lemma gas_fineD:
  "gas_fine clr E n mm Q g \<Longrightarrow> evm_ok clr E w \<Longrightarrow> n \<le> length st \<Longrightarrow> mem_wf m \<Longrightarrow> mm \<or> sz = 0 \<Longrightarrow>
     gas_res E (Q st) w c m sz (g E w c st m sz)"
  by (simp add: gas_fine_def)

text \<open>Functions that charge for memory first.\<close>

lemma gas_res_memory:
  assumes "calm E w w'"
    and "\<And>g. unat sz \<le> mem_max_size \<Longrightarrow> gas_res E Q w c m sz (f g (snd (memoryGasCost m sz)))"
  shows "gas_res E Q w c m sz (let ((gas, err), m) = memoryGasCost m sz in
    case err of Some e \<Rightarrow> gas_err 0 e w' c m | None \<Rightarrow> f gas m)"
proof (cases rule: memoryGasCost_cases [of m sz])
  case (err g e m')
  then show ?thesis using assms(1) by (simp add: gas_res_err)
next
  case (ok g m')
  then show ?thesis using assms(2) [OF ok(2), of g] by simp
qed

lemma gas_memoryCopier:
  assumes "pos < n"
  shows "gas_fine clr E n True any_cost (memoryCopierGas pos)"
proof (rule gas_fineI)
  fix w c m sz and st :: Stack
  assume w: "evm_ok clr E w" and st: "n \<le> length st"
  obtain x where x: "Back st pos = Some x" using Back_ex [of pos st] assms st by auto
  show "gas_res E (any_cost st) w c m sz (memoryCopierGas pos E w c st m sz)"
    unfolding memoryCopierGas_def
    by (rule gas_res_memory [OF calm_refl [OF w]])
      (simp add: x Let_def split_def gas_res_err gas_res_ok any_cost_def calm_refl [OF w])
qed

lemma gas_keccak_words:
  assumes "pos < n"
  shows "gas_fine clr E n True any_cost (gas_keccak_words pos)"
proof (rule gas_fineI)
  fix w c m sz and st :: Stack
  assume w: "evm_ok clr E w" and st: "n \<le> length st"
  obtain x where x: "Back st pos = Some x" using Back_ex [of pos st] assms st by auto
  show "gas_res E (any_cost st) w c m sz (gas_keccak_words pos E w c st m sz)"
    unfolding gas_keccak_words_def
    by (rule gas_res_memory [OF calm_refl [OF w]])
      (simp add: x Let_def split_def gas_res_err gas_res_ok any_cost_def calm_refl [OF w])
qed

lemma gas_initcode:
  "gas_fine clr E 3 True any_cost (gas_initcode perWord)"
proof (rule gas_fineI)
  fix w c m sz and st :: Stack
  assume w: "evm_ok clr E w" and st: "3 \<le> length st"
  obtain x where x: "Back st 2 = Some x" using Back_ex [of 2 st] st by auto
  show "gas_res E (any_cost st) w c m sz (gas_initcode perWord E w c st m sz)"
    unfolding gas_initcode_def
    by (rule gas_res_memory [OF calm_refl [OF w]])
      (simp add: x Let_def split_def gas_res_err gas_res_ok any_cost_def calm_refl [OF w])
qed

lemma gas_pureMemory: "gas_fine clr E 0 True any_cost pureMemoryGascost"
proof (rule gas_fineI)
  fix w c m sz and st :: Stack
  assume w: "evm_ok clr E w"
  show "gas_res E (any_cost st) w c m sz (pureMemoryGascost E w c st m sz)"
  proof (cases rule: memoryGasCost_cases [of m sz])
    case (err g e m')
    then show ?thesis using gas_res_err [OF calm_refl [OF w]] by (simp add: pureMemoryGascost_def gas_err_def)
  next
    case (ok g m')
    then show ?thesis using gas_res_ok [OF calm_refl [OF w] _ refl ok(2), of "any_cost st" g c m]
      by (simp add: pureMemoryGascost_def gas_ok_def any_cost_def)
  qed
qed

lemma gas_log: "gas_fine clr E 2 True some_cost (makeGasLog n)"
proof (rule gas_fineI)
  fix w c m sz and st :: Stack
  assume w: "evm_ok clr E w" and st: "2 \<le> length st"
  obtain x where x: "Back st 1 = Some x" using Back_ex [of 1 st] st by auto
  have lo: "1 \<le> unat (g + 375 + n * 375 + y)"
    if "unat g + 375 < 2 ^ 64" "unat (g + 375) + unat (n * 375) < 2 ^ 64"
      "unat (g + 375 + n * 375) + unat y < 2 ^ 64" for g y :: u64
    using that by (simp add: u64_simps)
  show "gas_res E (some_cost st) w c m sz (makeGasLog n E w c st m sz)"
  proof (cases rule: memoryGasCost_cases [of m sz])
    case (err g e m')
    then show ?thesis using x by (simp add: makeGasLog_def split_def Let_def gas_res_err calm_refl [OF w])
  next
    case (ok g m')
    then show ?thesis using x lo [of g]
      by (simp add: makeGasLog_def split_def Let_def SafeAdd_def some_cost_def not_le
          gas_res_err gas_res_ok calm_refl [OF w])
  qed
qed

lemma gas_exp: "gas_fine clr E 2 False some_cost (gas_exp perByte)"
proof (rule gas_fineI)
  fix w c m sz and st :: Stack
  assume w: "evm_ok clr E w" and st: "2 \<le> length st" and sz: "False \<or> sz = (0 :: u64)"
  obtain x where x: "Back st 1 = Some x" using Back_ex [of 1 st] st by auto
  have lo: "1 \<le> unat (g + 10)" if "unat g + 10 < 2 ^ 64" for g :: u64
    using that by (simp add: u64_simps)
  show "gas_res E (some_cost st) w c m sz (gas_exp perByte E w c st m sz)"
    using x sz lo by (simp add: gas_exp_def split_def Let_def SafeAdd_def some_cost_def not_le gas_res_err gas_res_ok_0 calm_refl [OF w])
qed

section \<open>Warm and cold access\<close>

lemma calm_warm: "evm_ok clr E w \<Longrightarrow> calm E w (writes (\<lambda>s. AddAddressToAccessList s a) w)"
  unfolding writes_def by (rule calm_db) (rule mild_warm [OF evm_ok_sinv])

lemma calm_slot:
  "evm_ok clr E w \<Longrightarrow> \<exists>s. AddSlotToAccessList (db w) a k = Some s \<and> calm E w (w\<lparr>db := s\<rparr>)"
  using mild_slot [OF evm_ok_sinv] calm_db by blast

lemma gas_SLoadEIP2929: "gas_fine clr E 1 False some_cost gasSLoadEIP2929"
proof (rule gas_fineI)
  fix w m sz and c :: Contract and st :: Stack
  assume w: "evm_ok clr E w" and st: "1 \<le> length st" and sz: "False \<or> sz = (0 :: u64)"
  obtain k where k: "peek st = Some k" using peek_ex [OF st] by blast
  obtain p q where r: "SlotInAccessList (db w) (caddress c) k = Some (p, q)"
    using SlotInAccessList_Some [OF evm_ok_sinv [OF w]] by (metis surj_pair)
  obtain s where s: "AddSlotToAccessList (db w) (caddress c) k = Some s" "calm E w (w\<lparr>db := s\<rparr>)"
    using calm_slot [OF w] by blast
  show "gas_res E (some_cost st) w c m sz (gasSLoadEIP2929 E w c st m sz)"
    using sz s(2) by (simp add: gasSLoadEIP2929_def k r s(1) some_cost_def gas_res_ok_0 calm_refl [OF w])
qed

lemma gas_AccountCheck: "gas_fine clr E 1 False any_cost gasEip2929AccountCheck"
proof (rule gas_fineI)
  fix w m sz and c :: Contract and st :: Stack
  assume w: "evm_ok clr E w" and st: "1 \<le> length st" and sz: "False \<or> sz = (0 :: u64)"
  obtain a where a: "peek st = Some a" using peek_ex [OF st] by blast
  show "gas_res E (any_cost st) w c m sz (gasEip2929AccountCheck E w c st m sz)"
    using sz by (simp add: gasEip2929AccountCheck_def a Let_def any_cost_def gas_res_ok_0 calm_refl [OF w] calm_warm [OF w])
qed

lemma gas_ExtCodeCopyEIP2929: "gas_fine clr E 4 True any_cost gasExtCodeCopyEIP2929"
proof (rule gas_fineI)
  fix w m sz and c :: Contract and st :: Stack
  assume w: "evm_ok clr E w" and st: "4 \<le> length st" and m: "mem_wf m"
  obtain a where a: "peek st = Some a" using peek_ex [of st] st by force
  have "gas_res E (any_cost st) w c m sz (gasExtCodeCopy E w c st m sz)"
    unfolding gasExtCodeCopy_def by (rule gas_fineD [OF gas_memoryCopier [of 3 4] w st m]) simp_all
  then obtain cost err w' c' m' where r: "gasExtCodeCopy E w c st m sz = Some ((cost, err), w', c', m')"
    and w': "calm E w w'" and c': "spent c c'"
    and ok: "err = None \<Longrightarrow> c' = c" "err = None \<Longrightarrow> m' = snd (memoryGasCost m sz)" "err = None \<Longrightarrow> unat sz \<le> mem_max_size"
    by (rule gas_resE) blast
  show "gas_res E (any_cost st) w c m sz (gasExtCodeCopyEIP2929 E w c st m sz)"
  proof (cases err)
    case (Some e)
    then show ?thesis using r w' c' by (auto simp: gasExtCodeCopyEIP2929_def gas_res_def gas_err_def)
  next
    case None
    have "calm E w (writes (\<lambda>s. AddAddressToAccessList s (Bytes20 a)) w')"
      using calm_trans [OF w' calm_warm [OF calm_ok(1) [OF w w']]] .
    then show ?thesis using None ok w' r a
      by (simp add: gasExtCodeCopyEIP2929_def Let_def split_def any_cost_def gas_res_ok gas_res_err)
  qed
qed

section \<open>Calls\<close>

lemma gas_res_mono:
  assumes "gas_res E Q w c m sz r" and "\<And>w' n. Q w' n \<Longrightarrow> Q' w' n"
  shows "gas_res E Q' w c m sz r"
  using assms unfolding gas_res_def by blast

lemma call_tail_res:
  assumes "evm_ok clr E w" and "calm E w w'" and "1 \<le> length st"
    and "m' = snd (memoryGasCost m sz)" and "unat sz \<le> mem_max_size"
  shows "gas_res E (\<lambda>w' n. unat (callGasTemp w') + unat g \<le> n) w c m sz (call_tail g mg E w' c st m' sz)"
proof (cases "unat g + unat mg < 2 ^ 64")
  case False
  then show ?thesis using assms(2) by (simp add: call_tail_def SafeAdd_def gas_res_err)
next
  case True
  obtain x where x: "Back st 0 = Some x" using Back_ex [of 0 st] assms(3) by (auto simp: Suc_le_eq)
  obtain t err where t: "callGas (IsEIP150 (chainRules E)) (Gas c) (g + mg) x = (t, err)" by fastforce
  let ?w = "w'\<lparr>callGasTemp := t\<rparr>"
  have w: "calm E w ?w" using calm_trans [OF assms(2) calm_gas_temp [OF calm_ok(1) [OF assms(1,2)]]] .
  have sum: "unat (g + mg + t) = unat g + unat mg + unat t" if "unat (g + mg) + unat t < 2 ^ 64"
    using that True by (simp add: u64_simps)
  show ?thesis using True x t w sum
    by (simp add: call_tail_def SafeAdd_def Let_def gas_res_err gas_res_ok assms(4,5) not_le split: option.split)
qed

lemma gas_Call: "\<not> IsEIP4762 (chainRules E) \<Longrightarrow> gas_fine clr E 3 True pays_transfer gasCall"
proof (rule gas_fineI)
  fix w m sz and c :: Contract and st :: Stack
  assume e: "\<not> IsEIP4762 (chainRules E)" and w: "evm_ok clr E w" and st: "3 \<le> length st"
  obtain v where v: "Back st 2 = Some v" using Back_ex [of 2 st] st by auto
  obtain a where a: "Back st 1 = Some a" using Back_ex [of 1 st] st by auto
  obtain new w1 where r: "(if IsEIP158 (chainRules E) then
          if v \<noteq> 0 then reads (\<lambda>s. Empty s (Bytes20 a)) w else (False, w)
        else let (ex, w) = reads (\<lambda>s. Exist s (Bytes20 a)) w in (\<not> ex, w)) = (new, w1)"
    and w1: "calm E w w1"
    using reads_Empty [OF w, of "Bytes20 a"] reads_Exist [OF w, of "Bytes20 a"] still_calm [OF w] calm_refl [OF w]
    by (cases "IsEIP158 (chainRules E)"; cases "v = 0") auto
  let ?g = "if v \<noteq> 0 then (if new then CallNewAccountGas else 0) + CallValueTransferGas else (if new then CallNewAccountGas else 0)"
  have g: "(if transfers st then 9000 else 0) \<le> unat ?g" by (simp add: transfers_def v)
  have res: "gas_res E (pays_transfer st) w c m sz (call_tail ?g mg E w1 c st (snd (memoryGasCost m sz)) sz)"
    if "unat sz \<le> mem_max_size" for mg
    by (rule gas_res_mono [OF call_tail_res [OF w w1 _ refl that]]) (use st g in \<open>auto simp: pays_transfer_def\<close>)
  have eq: "gasCall E w c st m sz = (let ((memoryGas, err), m) = memoryGasCost m sz in
     case err of Some e \<Rightarrow> gas_err 0 e w1 c m | None \<Rightarrow> call_tail ?g memoryGas E w1 c st m sz)"
    using e by (simp add: gasCall_def v a [unfolded One_nat_def] r Let_def split del: if_split)
  show "gas_res E (pays_transfer st) w c m sz (gasCall E w c st m sz)"
    unfolding eq by (rule gas_res_memory [OF w1], rule res)
qed

lemma gas_CallCode: "\<not> IsEIP4762 (chainRules E) \<Longrightarrow> gas_fine clr E 3 True pays_transfer gasCallCode"
proof (rule gas_fineI)
  fix w m sz and c :: Contract and st :: Stack
  assume e: "\<not> IsEIP4762 (chainRules E)" and w: "evm_ok clr E w" and st: "3 \<le> length st"
  obtain v where v: "Back st 2 = Some v" using Back_ex [of 2 st] st by auto
  have res: "gas_res E (pays_transfer st) w c m sz
      (call_tail (if v \<noteq> 0 then CallValueTransferGas else 0) mg E w c st (snd (memoryGasCost m sz)) sz)"
    if "unat sz \<le> mem_max_size" for mg
    by (rule gas_res_mono [OF call_tail_res [OF w calm_refl [OF w] _ refl that]])
      (use st v in \<open>auto simp: pays_transfer_def transfers_def\<close>)
  show "gas_res E (pays_transfer st) w c m sz (gasCallCode E w c st m sz)"
    unfolding gasCallCode_def by (rule gas_res_memory [OF calm_refl [OF w]]) (use res v e in simp)
qed

lemma gas_DelegateCall: "gas_fine clr E 1 True pays_call gasDelegateCall"
  "gas_fine clr E 1 True pays_call gasStaticCall"
proof -
  have res: "gas_res E (pays_call st) w c m sz (call_tail g 0 E w c st (snd (memoryGasCost m sz)) sz)"
    if w: "evm_ok clr E w" and "1 \<le> length st" and "unat sz \<le> mem_max_size" for g w c m sz st
    by (rule gas_res_mono [OF call_tail_res [OF w calm_refl [OF w] _ refl that(3)]]) (use that in \<open>auto simp: pays_call_def\<close>)
  show "gas_fine clr E 1 True pays_call gasDelegateCall"
    by (rule gas_fineI, unfold gasDelegateCall_def, rule gas_res_memory, rule calm_refl) (simp_all add: res)
  show "gas_fine clr E 1 True pays_call gasStaticCall"
    by (rule gas_fineI, unfold gasStaticCall_def, rule gas_res_memory, rule calm_refl) (simp_all add: res)
qed

text \<open>Charging for a cold account around a call cost keeps its contract.\<close>

definition cost_mono :: "gaspost \<Rightarrow> bool" where
  "cost_mono Q \<longleftrightarrow> (\<forall>st w n n'. Q st w n \<and> n \<le> n' \<longrightarrow> Q st w n')"

lemma cost_mono_pays: "cost_mono pays_call" "cost_mono pays_transfer"
  by (auto simp: cost_mono_def pays_call_def pays_transfer_def)

lemma spent_trans: "spent c c' \<Longrightarrow> spent c' c'' \<Longrightarrow> spent c c''"
  unfolding spent_def by (metis (no_types, lifting) Contract.update_convs(9) Contract.surjective order_trans)

lemma UseGas_spent: "UseGas c g = (b, c') \<Longrightarrow> spent c c' \<and> (b \<longrightarrow> g \<le> Gas c \<and> c' = c\<lparr>Gas := Gas c - g\<rparr>)"
  by (auto simp: UseGas_def spent_def word_sub_le not_less split: if_splits)

lemma gas_res_wrap:
  assumes r: "gas_res E Q w' c' m sz r" and w: "calm E w w'" and c: "spent c c'" "unat (Gas c') + unat t = unat (Gas c)"
    and Q: "\<And>w n n'. Q w n \<Longrightarrow> n \<le> n' \<Longrightarrow> Q w n'"
  shows "gas_res E Q w c m sz (do {
      ((old, err), w, c, m) \<leftarrow> r;
      case err of
        Some e \<Rightarrow> gas_err old e w c m
      | None \<Rightarrow>
        let c = c\<lparr>Gas := Gas c + t\<rparr>;
            (total, overflow) = SafeAdd old t
        in if overflow then gas_err 0 ErrGasUintOverflow w c m else gas_ok total w c m})"
proof -
  obtain cost err w1 c1 m1 where r: "r = Some ((cost, err), w1, c1, m1)" and w1: "calm E w' w1" and c1: "spent c' c1"
    and ok: "err = None \<Longrightarrow> c1 = c'" "err = None \<Longrightarrow> Q w1 (unat cost)"
      "err = None \<Longrightarrow> m1 = snd (memoryGasCost m sz)" "err = None \<Longrightarrow> unat sz \<le> mem_max_size"
    using r by (rule gas_resE) blast
  have w1: "calm E w w1" using calm_trans [OF w w1] .
  show ?thesis
  proof (cases err)
    case (Some e)
    then show ?thesis using r w1 spent_trans [OF c(1) c1] by (simp add: gas_res_def gas_err_def)
  next
    case None
    have "Gas c' + t = Gas c" using c(2) by (simp add: word_unat_eq_iff u64_simps unat_u64_lt)
    then have "c1\<lparr>Gas := Gas c1 + t\<rparr> = c" using ok(1) [OF None] c(1) unfolding spent_def
      by (metis (no_types, lifting) Contract.update_convs(9) Contract.surjective)
    moreover have "Q w1 (unat (cost + t))" if "unat cost + unat t < 2 ^ 64"
      by (rule Q [OF ok(2) [OF None]]) (use that in \<open>simp add: u64_simps\<close>)
    ultimately show ?thesis using None r w1 ok(3,4) by (simp add: Let_def SafeAdd_def not_le gas_res_err gas_res_ok)
  qed
qed

lemma gas_CallVariantEIP2929:
  assumes g: "gas_fine clr E n True Q g" and Q: "cost_mono Q" and n: "pos < n"
  shows "gas_fine clr E n True Q (makeCallVariantGasCallEIP2929 g pos)"
proof (rule gas_fineI)
  fix w m sz and c :: Contract and st :: Stack
  assume w: "evm_ok clr E w" and st: "n \<le> length st" and m: "mem_wf m"
  obtain a where a: "Back st pos = Some a" using Back_ex [of pos st] n st by auto
  let ?cold = "ColdAccountAccessCostEIP2929 - WarmStorageReadCostEIP2929"
  let ?w = "writes (\<lambda>s. AddAddressToAccessList s (Bytes20 a)) w"
  have cw: "calm E w ?w" using calm_warm [OF w] .
  have w': "evm_ok clr E ?w" using calm_ok(1) [OF w cw] .
  have res: "gas_res E (Q st) w c m sz (g E w c st m sz)"
    "gas_res E (Q st) ?w c' m sz (g E ?w c' st m sz)" for c'
    using gas_fineD [OF g _ st m] w w' by blast+
  show "gas_res E (Q st) w c m sz (makeCallVariantGasCallEIP2929 g pos E w c st m sz)"
  proof (cases "AddressInAccessList (db w) (Bytes20 a)")
    case True
    obtain cost err w1 c1 m1 where r: "g E w c st m sz = Some ((cost, err), w1, c1, m1)"
      using res(1) by (auto simp: gas_res_def)
    then have "makeCallVariantGasCallEIP2929 g pos E w c st m sz = g E w c st m sz"
      using True a by (simp add: makeCallVariantGasCallEIP2929_def Let_def)
    then show ?thesis using res(1) by simp
  next
    case False
    obtain paid c' where u: "UseGas c ?cold = (paid, c')" by fastforce
    show ?thesis
    proof (cases paid)
      case True
      then have c': "?cold \<le> Gas c" "c' = c\<lparr>Gas := Gas c - ?cold\<rparr>" "spent c c'" using UseGas_spent [OF u] by auto
      then have "unat (Gas c') + unat ?cold = unat (Gas c)" by (simp add: word_le_nat_alt unat_sub)
      note wrap = gas_res_wrap [OF res(2) cw c'(3) this]
      obtain cost err w1 c1 m1 where r: "g E ?w c' st m sz = Some ((cost, err), w1, c1, m1)"
        using res(2) [of c'] by (auto simp: gas_res_def)
      have "makeCallVariantGasCallEIP2929 g pos E w c st m sz = (do {
          ((old, err), w, c, m) \<leftarrow> g E ?w c' st m sz;
          case err of Some e \<Rightarrow> gas_err old e w c m
          | None \<Rightarrow> let c = c\<lparr>Gas := Gas c + ?cold\<rparr>; (total, overflow) = SafeAdd old ?cold
            in if overflow then gas_err 0 ErrGasUintOverflow w c m else gas_ok total w c m})"
        using False True a u r by (auto simp: makeCallVariantGasCallEIP2929_def Let_def gas_err_def split: option.split)
      also have "gas_res E (Q st) w c m sz \<dots>" using wrap Q by (simp add: cost_mono_def)
      finally show ?thesis .
    next
      case no: False
      then show ?thesis using False a u UseGas_spent [OF u] cw
        by (simp add: makeCallVariantGasCallEIP2929_def Let_def gas_res_def gas_err_def)
    qed
  qed
qed

text \<open>One charge that may be skipped: it warms the address and takes the gas, or fails for lack of gas.\<close>

lemma UseGas_if:
  assumes "(if b then UseGas c g else (True, c)) = (paid, c')"
  shows "spent c c'" "paid \<Longrightarrow> unat (Gas c') + unat (if b then g else 0) = unat (Gas c)"
  using assms UseGas_spent [of c g paid c'] by (auto simp: word_le_nat_alt unat_sub split: if_splits)

lemma calm_warm_if:
  "evm_ok clr E w \<Longrightarrow> calm E w (if b then writes (\<lambda>s. AddAddressToAccessList s a) w else w)"
  by (simp add: calm_warm calm_refl)

lemma gas_CallVariantEIP7702:
  assumes g: "gas_fine clr E n True Q g" and Q: "cost_mono Q" and n: "1 < n"
  shows "gas_fine clr E n True Q (makeCallVariantGasCallEIP7702 g)"
proof (rule gas_fineI)
  fix w m sz and c :: Contract and st :: Stack
  assume w: "evm_ok clr E w" and st: "n \<le> length st" and m: "mem_wf m"
  obtain a where a: "Back st (Suc 0) = Some a" using Back_ex [of "Suc 0" st] n st by auto
  let ?cold = "2500 :: u64"
  define b where "b = (\<not> AddressInAccessList (db w) (Bytes20 a))"
  define w1 where "w1 = (if b then writes (\<lambda>s. AddAddressToAccessList s (Bytes20 a)) w else w)"
  have cw1: "calm E w w1" using calm_warm_if [OF w] by (simp add: w1_def)
  have w1: "evm_ok clr E w1" using calm_ok(1) [OF w cw1] .
  obtain paid c1 where u: "(if b then UseGas c ?cold else (True, c)) = (paid, c1)" by fastforce
  define t1 where "t1 = (if b then ?cold else 0)"
  obtain w2 where r: "reads (\<lambda>s. GetCode s (Bytes20 a)) w1 = (vCodeAt (view (db w1)) (Bytes20 a), w2)"
    and cw2: "calm E w1 w2" using reads_GetCode [OF w1] still_calm [OF w1] by blast
  define code where "code = vCodeAt (view (db w1)) (Bytes20 a)"
  have w2: "evm_ok clr E w2" using calm_ok(1) [OF w1 cw2] .
  obtain cost w3 where d: "(case ParseDelegation code of None \<Rightarrow> (0, w2)
      | Some target \<Rightarrow> if AddressInAccessList (db w2) target then (WarmStorageReadCostEIP2929, w2)
          else (ColdAccountAccessCostEIP2929, writes (\<lambda>s. AddAddressToAccessList s target) w2)) = (cost, w3)"
    by fastforce
  have cw3: "calm E w2 w3" and cost: "ParseDelegation code = None \<longrightarrow> cost = 0" "unat cost \<le> 2600"
    using d calm_warm [OF w2] calm_refl [OF w2] by (auto split: option.splits if_splits)
  obtain paid2 c2 where u2: "(if ParseDelegation code \<noteq> None then UseGas c1 cost else (True, c1)) = (paid2, c2)" by fastforce
  have cw: "calm E w w3" using calm_trans [OF calm_trans [OF cw1 cw2] cw3] .
  have w3: "evm_ok clr E w3" using calm_ok(1) [OF w cw] .
  note s1 = UseGas_if [OF u] and s2 = UseGas_if [OF u2]
  have s12: "spent c c2" using spent_trans [OF s1(1) s2(1)] .
  show "gas_res E (Q st) w c m sz (makeCallVariantGasCallEIP7702 g E w c st m sz)"
  proof (cases "paid \<and> paid2")
    case True
    have "unat (t1 + cost) = unat t1 + unat cost"
      by (rule unat_u64_add) (use cost(2) in \<open>simp add: t1_def\<close>)
    then have tot: "unat (Gas c2) + unat (t1 + cost) = unat (Gas c)"
      using s1(2) s2(2) True cost(1) by (auto simp: t1_def split: if_splits)
    have res: "gas_res E (Q st) w3 c2 m sz (g E w3 c2 st m sz)" by (rule gas_fineD [OF g w3 st m]) simp
    have "makeCallVariantGasCallEIP7702 g E w c st m sz = (do {
          ((old, err), w, c, m) \<leftarrow> g E w3 c2 st m sz;
          case err of Some e \<Rightarrow> gas_err old e w c m
          | None \<Rightarrow> let c = c\<lparr>Gas := Gas c + (t1 + cost)\<rparr>; (total, overflow) = SafeAdd old (t1 + cost)
            in if overflow then gas_err 0 ErrGasUintOverflow w c m else gas_ok total w c m})"
      using True u u2 r d
      by (simp add: makeCallVariantGasCallEIP7702_def a Let_def flip: b_def w1_def t1_def code_def split del: if_split del: not_None_eq)
    also have "gas_res E (Q st) w c m sz \<dots>"
      by (rule gas_res_wrap [OF res cw s12 tot]) (use Q in \<open>auto simp: cost_mono_def\<close>)
    finally show ?thesis .
  next
    case False
    then show ?thesis using u u2 r d cw cw1 s1(1) s12
      by (cases paid) (auto simp: makeCallVariantGasCallEIP7702_def a gas_res_def gas_err_def
          Let_def simp flip: b_def w1_def t1_def code_def split del: if_split simp del: not_None_eq)
  qed
qed

section \<open>Storage writes\<close>

text \<open>
  What charging for a write of \<open>y\<close> to a slot with committed value \<open>o\<close> and current value \<open>x\<close> does to
  the refund counter, provided that it does not wrap around: it grows by at most a multiple of the
  cost, and it keeps covering the cleared slots.
\<close>

definition refund_moves :: "nat \<Rightarrow> u64 \<Rightarrow> hash \<Rightarrow> hash \<Rightarrow> hash \<Rightarrow> u64 \<Rightarrow> u64 \<Rightarrow> bool" where
  "refund_moves clr cost orig x y r r' \<longleftrightarrow> (unat r + 1000 * unat cost < 2 ^ 64 \<longrightarrow>
     unat r' \<le> unat r + 1000 * unat cost
     \<and> unat r + (if orig \<noteq> 0 \<and> y = 0 then clr else 0) \<le> unat r' + (if orig \<noteq> 0 \<and> x = 0 then clr else 0))"

definition refunded :: "(bytes \<Rightarrow> hash) \<Rightarrow> StateDB \<Rightarrow> StateDB \<Rightarrow> u64 \<Rightarrow> bool" where
  "refunded H s t r \<longleftrightarrow> evolves H s t \<and> view t = (view s)\<lparr>vRefund := r\<rparr>"

lemma refunded_refl: "sinv H s \<Longrightarrow> refunded H s s (refund s)"
  by (simp add: refunded_def evolves_refl)

lemma refunded_refund: "refunded H s t r \<Longrightarrow> refund t = r"
  unfolding refunded_def by (metis view_simps(5) sview.select_convs(6) sview.surjective sview.update_convs(6))

lemma refunded_trans: "refunded H s t r \<Longrightarrow> refunded H t u r' \<Longrightarrow> refunded H s u r'"
  using evolves_trans by (auto simp: refunded_def)

lemma refunded_Add: "sinv H s \<Longrightarrow> refunded H s (AddRefund s g) (refund s + g)"
  using AddRefund_spec [of H s g] by (simp add: refunded_def mutates_evolves)

lemma refunded_Sub:
  assumes "sinv H s" and "unat g \<le> unat (refund s)"
  shows "\<exists>t. SubRefund s g = Some t \<and> refunded H s t (refund s - g)"
proof -
  have "\<not> g > refund s" using assms(2) by (simp add: word_less_nat_alt)
  then obtain t where t: "SubRefund s g = Some t" by (auto simp: SubRefund_def Let_def journal_append_def)
  then show ?thesis using SubRefund_spec [OF assms(1) t] by (auto simp: refunded_def mutates_evolves)
qed

lemma dirty_refunds_Some:
  assumes s: "sinv H s" and cover: "orig \<noteq> 0 \<and> x = 0 \<longrightarrow> unat cl \<le> unat (refund s)"
    and y: "x \<noteq> y" and cost: "100 \<le> unat cost"
    and b: "unat cl \<le> 20000" "unat rc \<le> 20000" "unat rr \<le> 20000"
  shows "\<exists>t r. dirty_refunds cl rc rr orig x y s = Some t \<and> refunded H s t r
    \<and> refund_moves (unat cl) cost orig x y (refund s) r"
proof -
  let ?r = "refund s"
  define r1 where "r1 = (if orig \<noteq> 0 \<and> x = 0 then ?r - cl else if orig \<noteq> 0 \<and> y = 0 then ?r + cl else ?r)"
  let ?r2 = "if orig = y then (if orig = 0 then r1 + rc else r1 + rr) else r1"
  have "\<exists>s1. (if orig \<noteq> 0 then if x = 0 then SubRefund s cl
       else if y = 0 then Some (AddRefund s cl) else Some s else Some s) = Some s1 \<and> refunded H s s1 r1"
    using refunded_Sub [OF s, of cl] cover refunded_Add [OF s, of cl] refunded_refl [OF s] y
    by (cases "orig = 0"; cases "x = 0"; cases "y = 0") (auto simp: r1_def)
  then obtain s1 where s1: "(if orig \<noteq> 0 then if x = 0 then SubRefund s cl
       else if y = 0 then Some (AddRefund s cl) else Some s else Some s) = Some s1" "refunded H s s1 r1" by blast
  have i1: "sinv H s1" using s1(2) evolves_sinv by (auto simp: refunded_def)
  have "refunded H s (if orig = y then if orig = 0 then AddRefund s1 rc else AddRefund s1 rr else s1) ?r2"
    using refunded_trans [OF s1(2) refunded_Add [OF i1]] refunded_refund [OF s1(2)] s1(2) by simp
  moreover have "refund_moves (unat cl) cost orig x y ?r ?r2"
    unfolding refund_moves_def
  proof (intro impI)
    assume "unat ?r + 1000 * unat cost < 2 ^ 64"
    then have big: "unat ?r + 100000 < 18446744073709551616" using cost by simp
    have add: "unat (?r + z) = unat ?r + unat z" if "unat z \<le> 20000" for z
      by (rule unat_u64_add) (use that big in linarith)
    have sub: "unat (?r - cl) = unat ?r - unat cl" if "orig \<noteq> 0 \<and> x = 0"
      using cover that by (simp add: u64_simps)
    have sub': "unat (?r - cl + rr) = unat ?r - unat cl + unat rr" if "orig \<noteq> 0 \<and> x = 0"
      using sub [OF that] b(3) big by (subst unat_u64_add) linarith+
    show "unat ?r2 \<le> unat ?r + 1000 * unat cost \<and> unat ?r + (if orig \<noteq> 0 \<and> y = 0 then unat cl else 0)
        \<le> unat ?r2 + (if orig \<noteq> 0 \<and> x = 0 then unat cl else 0)"
      using add [OF b(1)] add [OF b(2)] add [OF b(3)] sub sub' b cost cover y by (auto simp: r1_def)
  qed
  ultimately show ?thesis using s1(1) by (auto simp: dirty_refunds_def)
qed

definition sstore_res :: "nat \<Rightarrow> env \<Rightarrow> evm \<Rightarrow> Contract \<Rightarrow> u256 \<Rightarrow> u256 \<Rightarrow> Memory \<Rightarrow> gasres \<Rightarrow> bool" where
  "sstore_res clr E w c x y m res \<longleftrightarrow> (\<exists>cost err w1 s. res = Some ((cost, err), w1\<lparr>db := s\<rparr>, c, m) \<and> calm E w w1
     \<and> evolves (keccak E) (db w1) s
     \<and> (err = None \<longrightarrow> 1 \<le> unat cost \<and> (\<exists>r. refunded (keccak E) (db w1) s r
          \<and> refund_moves clr cost (vCommittedAt (view (db w)) (caddress c) x) (vStateAt (view (db w)) (caddress c) x) y
              (refund (db w)) r)))"

definition sstore_fine :: "nat \<Rightarrow> env \<Rightarrow> gasFunc \<Rightarrow> bool" where
  "sstore_fine clr E g \<longleftrightarrow> (\<forall>w c st m x y. evm_ok clr E w \<and> Back st 0 = Some x \<and> Back st 1 = Some y \<longrightarrow>
     sstore_res clr E w c x y m (g E w c st m 0))"

lemma sstore_fineI:
  "(\<And>w c st m x y. evm_ok clr E w \<Longrightarrow> Back st 0 = Some x \<Longrightarrow> Back st 1 = Some y \<Longrightarrow>
     sstore_res clr E w c x y m (g E w c st m 0)) \<Longrightarrow> sstore_fine clr E g"
  by (simp add: sstore_fine_def)

lemma refund_moves_same:
  "(orig \<noteq> 0 \<and> y = 0 \<longrightarrow> x = 0) \<Longrightarrow> refund_moves clr cost orig x y r r"
  by (auto simp: refund_moves_def)

lemma refund_moves_add:
  assumes "clr \<le> unat cl" and "unat cl \<le> 20000" and "100 \<le> unat cost"
  shows "refund_moves clr cost orig x y r (r + cl)"
  unfolding refund_moves_def
proof (intro impI)
  assume "unat r + 1000 * unat cost < 2 ^ 64"
  then have "unat r + unat cl < 18446744073709551616" using assms(2,3) by simp
  then have "unat (r + cl) = unat r + unat cl" by (rule unat_u64_add [OF order_less_le_trans]) simp
  then show "unat (r + cl) \<le> unat r + 1000 * unat cost \<and> unat r + (if orig \<noteq> 0 \<and> y = 0 then clr else 0)
      \<le> unat (r + cl) + (if orig \<noteq> 0 \<and> x = 0 then clr else 0)" using assms by simp
qed

lemma refund_covers:
  assumes "evm_ok clr E w" and "vCommittedAt (view (db w)) a k \<noteq> 0" and "vStateAt (view (db w)) a k = 0"
  shows "clr \<le> unat (refund (db w))"
proof -
  have r: "finite (cleared (view (db w)))" "clr * card (cleared (view (db w))) \<le> unat (refund (db w))"
    using assms(1) by (simp_all add: evm_ok_def world_ok_def refund_ok_def)
  have "(a, k) \<in> cleared (view (db w))" using assms(2,3) by (simp add: cleared_def)
  then have "1 \<le> card (cleared (view (db w)))" using r(1) by (auto simp: card_gt_0_iff Suc_le_eq)
  then have "clr * 1 \<le> clr * card (cleared (view (db w)))" by (rule mult_le_mono2)
  then show ?thesis using r(2) by linarith
qed

lemma sstore_res_err:
  "evm_ok clr E w \<Longrightarrow> calm E w w1 \<Longrightarrow> sstore_res clr E w c x y m (gas_err g e w1 c m)"
  unfolding sstore_res_def gas_err_def using evolves_refl [OF evm_ok_sinv [OF calm_ok(1)]]
  by (intro exI [of _ g] exI [of _ "Some e"] exI [of _ w1] exI [of _ "db w1"]) simp

lemma sstore_res_ok:
  assumes "calm E w w1" and "1 \<le> unat g" and "refunded (keccak E) (db w1) s r"
    and "refund_moves clr g (vCommittedAt (view (db w)) (caddress c) x) (vStateAt (view (db w)) (caddress c) x) y (refund (db w)) r"
  shows "sstore_res clr E w c x y m (gas_ok g (w1\<lparr>db := s\<rparr>) c m)"
  unfolding sstore_res_def gas_ok_def using assms
  by (intro exI [of _ g] exI [of _ None] exI [of _ w1] exI [of _ s]) (auto simp: refunded_def)

text \<open>The three ways a write is charged.\<close>

lemma sstore_res_same:
  assumes "evm_ok clr E w" and "calm E w w1" and "1 \<le> unat g"
    and "vCommittedAt (view (db w)) (caddress c) x \<noteq> 0 \<Longrightarrow> y = 0 \<Longrightarrow> vStateAt (view (db w)) (caddress c) x = 0"
  shows "sstore_res clr E w c x y m (gas_ok g w1 c m)"
  using sstore_res_ok [OF assms(2,3) refunded_refl [OF evm_ok_sinv [OF calm_ok(1) [OF assms(1,2)]]], of clr c x y m]
    refund_moves_same [of "vCommittedAt (view (db w)) (caddress c) x" y "vStateAt (view (db w)) (caddress c) x" clr g "refund (db w)"]
    assms(4) calm_sel(6) [OF assms(2)] by auto

lemma sstore_res_add:
  assumes "evm_ok clr E w" and "calm E w w1" and "100 \<le> unat g" and "clr \<le> unat cl" and "unat cl \<le> 20000"
  shows "sstore_res clr E w c x y m (gas_ok g (writes (\<lambda>s. AddRefund s cl) w1) c m)"
  unfolding writes_def
  by (rule sstore_res_ok [OF assms(2) _ refunded_Add [OF evm_ok_sinv [OF calm_ok(1) [OF assms(1,2)]]]])
    (use assms refund_moves_add [OF assms(4,5,3)] in \<open>simp_all add: calm_sel(6) [OF assms(2)]\<close>)

lemma sstore_res_dirty:
  assumes w: "evm_ok clr E w" and w1: "calm E w w1" and g: "100 \<le> unat g" and cl: "clr = unat cl" "unat cl \<le> 20000"
    and b: "unat rc \<le> 20000" "unat rr \<le> 20000" and y: "vStateAt (view (db w)) (caddress c) x \<noteq> y"
  shows "sstore_res clr E w c x y m (do {
      s \<leftarrow> dirty_refunds cl rc rr (vCommittedAt (view (db w)) (caddress c) x) (vStateAt (view (db w)) (caddress c) x) y (db w1);
      gas_ok g (w1\<lparr>db := s\<rparr>) c m })"
proof -
  obtain t r where "dirty_refunds cl rc rr (vCommittedAt (view (db w)) (caddress c) x) (vStateAt (view (db w)) (caddress c) x) y (db w1) = Some t"
    "refunded (keccak E) (db w1) t r"
    "refund_moves (unat cl) g (vCommittedAt (view (db w)) (caddress c) x) (vStateAt (view (db w)) (caddress c) x) y (refund (db w1)) r"
    using dirty_refunds_Some [OF evm_ok_sinv [OF calm_ok(1) [OF w w1]] _ y g cl(2) b,
        of "vCommittedAt (view (db w)) (caddress c) x"] refund_covers [OF w] cl(1) calm_sel(6) [OF w1] by metis
  then show ?thesis using sstore_res_ok [OF w1 _ _, of g t r clr c x y m] cl(1) g calm_sel(6) [OF w1] by simp
qed

lemma sstore_Frontier: "sstore_fine 15000 E gasSStore"
proof (rule sstore_fineI)
  fix w m x y and c :: Contract and st :: Stack
  assume w: "evm_ok 15000 E w" and x: "Back st 0 = Some x" and y: "Back st 1 = Some y"
  obtain w1 where r1: "reads (\<lambda>s. GetState s (caddress c) x) w = (vStateAt (view (db w)) (caddress c) x, w1)"
    and s1: "still E w w1" using reads_GetState [OF w] by blast
  obtain w2 where r2: "reads (\<lambda>s. GetCommittedState s (caddress c) x) w1 = (vCommittedAt (view (db w)) (caddress c) x, w2)"
    and s2: "still E w1 w2" using reads_GetCommittedState [OF still_ok [OF w s1]] still_view [OF s1] by metis
  note c1 = still_calm [OF w s1] and c2 = still_calm [OF w still_trans [OF s1 s2]]
  show "sstore_res 15000 E w c x y m (gasSStore E w c st m 0)"
    using sstore_res_dirty [OF w c2, of 200 15000 19800 4800 c x y m]
    by (cases "IsPetersburg (chainRules E) \<or> \<not> IsConstantinople (chainRules E)";
        cases "vStateAt (view (db w)) (caddress c) x = y";
        cases "vCommittedAt (view (db w)) (caddress c) x = vStateAt (view (db w)) (caddress c) x";
        cases "vStateAt (view (db w)) (caddress c) x = 0"; cases "y = 0")
      (simp_all add: gasSStore_def x y [unfolded One_nat_def] r1 r2 Let_def sstore_res_same [OF w c1] sstore_res_same [OF w c2]
        sstore_res_add [OF w c1] sstore_res_add [OF w c2])
qed

lemma sstore_2200: "sstore_fine 15000 E gasSStoreEIP2200"
proof (rule sstore_fineI)
  fix w m x y and c :: Contract and st :: Stack
  assume w: "evm_ok 15000 E w" and x: "Back st 0 = Some x" and y: "Back st 1 = Some y"
  obtain w1 where r1: "reads (\<lambda>s. GetState s (caddress c) x) w = (vStateAt (view (db w)) (caddress c) x, w1)"
    and s1: "still E w w1" using reads_GetState [OF w] by blast
  obtain w2 where r2: "reads (\<lambda>s. GetCommittedState s (caddress c) x) w1 = (vCommittedAt (view (db w)) (caddress c) x, w2)"
    and s2: "still E w1 w2" using reads_GetCommittedState [OF still_ok [OF w s1]] still_view [OF s1] by metis
  note c1 = still_calm [OF w s1] and c2 = still_calm [OF w still_trans [OF s1 s2]]
  show "sstore_res 15000 E w c x y m (gasSStoreEIP2200 E w c st m 0)"
    using sstore_res_dirty [OF w c2, of 800 15000 19200 4200 c x y m]
    by (simp add: gasSStoreEIP2200_def x y [unfolded One_nat_def] r1 r2 Let_def sstore_res_err [OF w calm_refl [OF w]]
        sstore_res_same [OF w c1] sstore_res_same [OF w c2] sstore_res_add [OF w c2])
qed

lemma sstore_2929:
  assumes cl: "unat cl \<le> 20000"
  shows "sstore_fine (unat cl) E (makeGasSStoreFunc cl)"
proof (rule sstore_fineI)
  fix w m x y and c :: Contract and st :: Stack
  assume w: "evm_ok (unat cl) E w" and x: "Back st 0 = Some x" and y: "Back st 1 = Some y"
  obtain w1 where r1: "reads (\<lambda>s. GetState s (caddress c) x) w = (vStateAt (view (db w)) (caddress c) x, w1)"
    and s1: "still E w w1" using reads_GetState [OF w] by blast
  have ok1: "evm_ok (unat cl) E w1" using still_ok [OF w s1] .
  obtain p q where in_list: "SlotInAccessList (db w1) (caddress c) x = Some (p, q)"
    using SlotInAccessList_Some [OF evm_ok_sinv [OF ok1]] by (metis surj_pair)
  obtain s where s: "AddSlotToAccessList (db w1) (caddress c) x = Some s" "calm E w1 (w1\<lparr>db := s\<rparr>)"
    using calm_slot [OF ok1] by blast
  define w2 where "w2 = (if q then w1 else w1\<lparr>db := s\<rparr>)"
  define cost where "cost = (if q then 0 else ColdSloadCostEIP2929)"
  have c2: "calm E w w2" using calm_trans [OF still_calm [OF w s1]] s(2) still_calm [OF w s1] by (simp add: w2_def)
  have ok2: "evm_ok (unat cl) E w2" using calm_ok(1) [OF w c2] .
  have v2: "vCommittedAt (view (db w2)) (caddress c) x = vCommittedAt (view (db w)) (caddress c) x"
    using c2 by (auto simp: calm_def mild_def)
  obtain w3 where r3: "reads (\<lambda>s. GetCommittedState s (caddress c) x) w2 = (vCommittedAt (view (db w)) (caddress c) x, w3)"
    and s3: "still E w2 w3" using reads_GetCommittedState [OF ok2] v2 by metis
  have c3: "calm E w w3" using calm_trans [OF c2 still_calm [OF ok2 s3]] .
  have charge: "(if \<not> q then do { s \<leftarrow> AddSlotToAccessList (db w1) (caddress c) x; Some (ColdSloadCostEIP2929, w1\<lparr>db := s\<rparr>) }
      else Some (0, w1)) = Some (cost, w2)" using s(1) by (simp add: w2_def cost_def)
  have g: "100 \<le> unat (cost + 100)" "1 \<le> unat (cost + 100)" "1 \<le> unat (cost + 20000)" "100 \<le> unat (cost + 2900)" "1 \<le> unat (cost + 2900)"
    by (simp_all add: cost_def)
  have "makeGasSStoreFunc cl E w c st m 0 = (if Gas c \<le> SstoreSentryGasEIP2200 then gas_err 0 errSentry w c m
      else if vStateAt (view (db w)) (caddress c) x = y then gas_ok (cost + 100) w2 c m
      else if vCommittedAt (view (db w)) (caddress c) x = vStateAt (view (db w)) (caddress c) x then
        if vCommittedAt (view (db w)) (caddress c) x = 0 then gas_ok (cost + 20000) w3 c m
        else gas_ok (cost + 2900) (if y = 0 then writes (\<lambda>s. AddRefund s cl) w3 else w3) c m
      else do {
        s \<leftarrow> dirty_refunds cl 19900 2800 (vCommittedAt (view (db w)) (caddress c) x) (vStateAt (view (db w)) (caddress c) x) y (db w3);
        gas_ok (cost + 100) (w3\<lparr>db := s\<rparr>) c m })"
    using charge by (simp add: makeGasSStoreFunc_def x y [unfolded One_nat_def] Back_0_peek [symmetric] r1 in_list r3 Let_def split del: if_split cong: if_cong)
  then show "sstore_res (unat cl) E w c x y m (makeGasSStoreFunc cl E w c st m 0)"
    using sstore_res_dirty [OF w c3 g(1) refl cl, of 19900 2800 c x y m] g
    by (simp add: sstore_res_err [OF w calm_refl [OF w]] sstore_res_same [OF w c2] sstore_res_same [OF w c3]
        sstore_res_add [OF w c3] cl)
qed

section \<open>Self-destruction\<close>

text \<open>The only gas function whose refund is not paid for by its cost; the frame ends with it.\<close>

definition sd_fine :: "nat \<Rightarrow> env \<Rightarrow> gasFunc \<Rightarrow> bool" where
  "sd_fine clr E g \<longleftrightarrow> (\<forall>w c st m. evm_ok clr E w \<and> 1 \<le> length st \<longrightarrow>
     (\<exists>cost w1 b. g E w c st m 0 = gas_ok cost (if b then writes (\<lambda>s. AddRefund s SelfdestructRefundGas) w1 else w1) c m
        \<and> calm E w w1))"

lemma sd_fineI:
  "(\<And>w c st m. evm_ok clr E w \<Longrightarrow> 1 \<le> length st \<Longrightarrow>
     \<exists>cost w1 b. g E w c st m 0 = gas_ok cost (if b then writes (\<lambda>s. AddRefund s SelfdestructRefundGas) w1 else w1) c m
        \<and> calm E w w1) \<Longrightarrow> sd_fine clr E g"
  by (simp add: sd_fine_def)

text \<open>Whether a new account will be made for the beneficiary.\<close>

lemma sd_creates:
  assumes "evm_ok clr E w"
  shows "\<exists>b w'. (let (empty, w) = reads (\<lambda>s. Empty s a) w in
      if empty then let (bal, w) = reads (\<lambda>s. GetBalance s a') w in (bal \<noteq> 0, w) else (False, w)) = (b, w') \<and> still E w w'"
proof -
  obtain e w1 where r1: "reads (\<lambda>s. Empty s a) w = (e, w1)" "still E w w1" using reads_Empty [OF assms] by blast
  obtain x w2 where r2: "reads (\<lambda>s. GetBalance s a') w1 = (x, w2)" "still E w1 w2"
    using reads_GetBalance [OF still_ok [OF assms r1(2)]] by blast
  show ?thesis using r1 r2 still_trans [OF r1(2) r2(2)] by (cases e) auto
qed

lemma sd_Frontier: "sd_fine clr E gasSelfdestruct"
proof (rule sd_fineI)
  fix w m and c :: Contract and st :: Stack
  assume w: "evm_ok clr E w" and st: "1 \<le> length st"
  obtain a where a: "Back st 0 = Some a" using Back_ex [of 0 st] st by (auto simp: Suc_le_eq)
  obtain b w1 where r: "(let (empty, w) = reads (\<lambda>s. Empty s (Bytes20 a)) w in
      if empty then let (bal, w) = reads (\<lambda>s. GetBalance s (caddress c)) w in (bal \<noteq> 0, w) else (False, w)) = (b, w1)"
    and w1: "still E w w1" using sd_creates [OF w] by blast
  obtain ex w2 where r2: "reads (\<lambda>s. Exist s (Bytes20 a)) w = (ex, w2)" and w2: "still E w w2"
    using reads_Exist [OF w] by blast
  define w3 where "w3 = (if IsEIP150 (chainRules E) then if IsEIP158 (chainRules E) then w1 else w2 else w)"
  have s3: "still E w w3" using w1 w2 by (simp add: w3_def)
  obtain gas where g: "(if IsEIP150 (chainRules E) then do {
          a \<leftarrow> Back st 0;
          let address = Bytes20 a;
          let (create, w) = (if IsEIP158 (chainRules E) then
               let (empty, w) = reads (\<lambda>s. Empty s address) w in
               if empty then let (bal, w) = reads (\<lambda>s. GetBalance s (caddress c)) w in (bal \<noteq> 0, w) else (False, w)
             else let (ex, w) = reads (\<lambda>s. Exist s address) w in (\<not> ex, w));
          Some (if create then SelfdestructGasEIP150 + CreateBySelfdestructGas else SelfdestructGasEIP150, w)
        } else Some (0, w)) = Some (gas, w3)"
    using a r r2 by (cases "IsEIP150 (chainRules E)"; cases "IsEIP158 (chainRules E)") (simp_all add: w3_def)
  obtain d w4 where r4: "reads (\<lambda>s. HasSelfDestructed s (caddress c)) w3 = (d, w4)" and w4: "still E w3 w4"
    using reads_HasSelfDestructed [OF still_ok [OF w s3]] by blast
  have "gasSelfdestruct E w c st m 0 = gas_ok gas (if \<not> d then writes (\<lambda>s. AddRefund s SelfdestructRefundGas) w4 else w4) c m"
    unfolding gasSelfdestruct_def g by (simp add: r4)
  then show "\<exists>cost w1 b. gasSelfdestruct E w c st m 0 = gas_ok cost
      (if b then writes (\<lambda>s. AddRefund s SelfdestructRefundGas) w1 else w1) c m \<and> calm E w w1"
    using still_calm [OF w still_trans [OF s3 w4]] by blast
qed

lemma sd_2929: "sd_fine clr E (makeSelfdestructGasFn refundsEnabled)"
proof (rule sd_fineI)
  fix w m and c :: Contract and st :: Stack
  assume w: "evm_ok clr E w" and st: "1 \<le> length st"
  obtain a where a: "peek st = Some a" using peek_ex [OF st] by blast
  define w1 where "w1 = (if \<not> AddressInAccessList (db w) (Bytes20 a) then writes (\<lambda>s. AddAddressToAccessList s (Bytes20 a)) w else w)"
  have c1: "calm E w w1" using calm_warm_if [OF w] by (simp add: w1_def)
  have ok1: "evm_ok clr E w1" using calm_ok(1) [OF w c1] .
  obtain gas where g: "(if \<not> AddressInAccessList (db w) (Bytes20 a)
      then (ColdAccountAccessCostEIP2929, writes (\<lambda>s. AddAddressToAccessList s (Bytes20 a)) w) else (0, w)) = (gas, w1)"
    by (cases "AddressInAccessList (db w) (Bytes20 a)") (auto simp: w1_def)
  obtain e w2 where r2: "reads (\<lambda>s. Empty s (Bytes20 a)) w1 = (e, w2)" and s2: "still E w1 w2"
    using reads_Empty [OF ok1] by blast
  obtain b w3 where r3: "(if e then let (bal, w) = reads (\<lambda>s. GetBalance s (caddress c)) w2 in (bal \<noteq> 0, w) else (False, w2)) = (b, w3)"
    and s3: "still E w2 w3"
    using reads_GetBalance [OF still_ok [OF ok1 s2], of "caddress c"] by (cases e) auto
  have s13: "still E w1 w3" using still_trans [OF s2 s3] .
  obtain d w4 where r4: "(if refundsEnabled then reads (\<lambda>s. HasSelfDestructed s (caddress c)) w3 else (True, w3)) = (d, w4)"
    and s4: "still E w3 w4" using reads_HasSelfDestructed [OF still_ok [OF ok1 s13], of "caddress c"] by (cases refundsEnabled) auto
  have "makeSelfdestructGasFn refundsEnabled E w c st m 0 = gas_ok (if b then gas + CreateBySelfdestructGas else gas)
      (if \<not> d then writes (\<lambda>s. AddRefund s SelfdestructRefundGas) w4 else w4) c m"
    by (simp add: makeSelfdestructGasFn_def a g r2 r3 r4 split del: if_split)
  then show "\<exists>cost w1 b. makeSelfdestructGasFn refundsEnabled E w c st m 0 = gas_ok cost
      (if b then writes (\<lambda>s. AddRefund s SelfdestructRefundGas) w1 else w1) c m \<and> calm E w w1"
    using calm_trans [OF c1 still_calm [OF ok1 still_trans [OF s13 s4]]] by blast
qed

end
