(* ===== verification/VM_OpProofs.thy ===== *)
theory VM_OpProofs
  imports VM_GasProofs
begin

text \<open>
  The instruction handlers other than storage writes, calls and creations never panic: with their
  operands on the stack and their memory in range they return, keep the invariants, pop and push as
  many words as their table entry says, and change the world only outside static frames.
\<close>

section \<open>The contract of a handler\<close>

definition frame_ok :: "env \<Rightarrow> scope \<Rightarrow> bool" where
  "frame_ok E sc \<longleftrightarrow> mem_wf (Mem sc) \<and> con_ok (keccak E) (Con sc)"

text \<open>The memory the operands ask for is there.\<close>

definition mem_ready :: "memorySizeFunc option \<Rightarrow> Stack \<Rightarrow> Memory \<Rightarrow> bool" where
  "mem_ready ms st m \<longleftrightarrow>
     (case ms of None \<Rightarrow> True | Some f \<Rightarrow> \<exists>s. f st = Some (s, False) \<and> unat s \<le> length (store m))"

definition exec_res :: "nat \<Rightarrow> env \<Rightarrow> nat \<Rightarrow> nat \<Rightarrow> bool \<Rightarrow> evm \<Rightarrow> scope \<Rightarrow> execres \<Rightarrow> bool" where
  "exec_res clr E n q stops w sc r \<longleftrightarrow> (\<exists>res err pc' w' sc'. r = Some ((res, err), pc', w', sc')
     \<and> evm_ok clr E w' \<and> after E w w' \<and> refund (db w') = refund (db w) \<and> small res
     \<and> frame_ok E sc' \<and> Gas (Con sc') = Gas (Con sc)
     \<and> (err = None \<longrightarrow> length (Stk sc') + n = length (Stk sc) + q) \<and> (stops \<longrightarrow> err \<noteq> None)
     \<and> err \<noteq> Some ErrCodeStoreOutOfGas)"

definition exec_fine :: "nat \<Rightarrow> env \<Rightarrow> nat \<Rightarrow> nat \<Rightarrow> bool \<Rightarrow> memorySizeFunc option \<Rightarrow> executionFunc \<Rightarrow> bool" where
  "exec_fine clr E n q stops ms f \<longleftrightarrow> (\<forall>k pc w sc. evm_ok clr E w \<and> frame_ok E sc \<and> n \<le> length (Stk sc)
     \<and> mem_ready ms (Stk sc) (Mem sc) \<and> unat pc < length (Code (Con sc)) \<longrightarrow>
     exec_res clr E n q stops w sc (f E k pc w sc))"

lemma exec_fineI:
  "(\<And>k pc w sc. evm_ok clr E w \<Longrightarrow> frame_ok E sc \<Longrightarrow> n \<le> length (Stk sc) \<Longrightarrow> mem_ready ms (Stk sc) (Mem sc)
     \<Longrightarrow> unat pc < length (Code (Con sc)) \<Longrightarrow> exec_res clr E n q stops w sc (f E k pc w sc))
   \<Longrightarrow> exec_fine clr E n q stops ms f"
  by (simp add: exec_fine_def)

lemma small_Nil [simp]: "small []"
  by (simp add: small_def)

lemma exec_res_ok:
  "evm_ok clr E w' \<Longrightarrow> after E w w' \<Longrightarrow> refund (db w') = refund (db w) \<Longrightarrow> frame_ok E sc' \<Longrightarrow>
   Gas (Con sc') = Gas (Con sc) \<Longrightarrow> length (Stk sc') + n = length (Stk sc) + q \<Longrightarrow>
   exec_res clr E n q False w sc (ok pc w' sc')"
  by (simp add: exec_res_def ok_def)

lemma exec_res_fail:
  "evm_ok clr E w' \<Longrightarrow> after E w w' \<Longrightarrow> refund (db w') = refund (db w) \<Longrightarrow> frame_ok E sc' \<Longrightarrow>
   Gas (Con sc') = Gas (Con sc) \<Longrightarrow> e \<noteq> ErrCodeStoreOutOfGas \<Longrightarrow> exec_res clr E n q stops w sc (fail e pc w' sc')"
  by (simp add: exec_res_def fail_def)

text \<open>Handlers that leave the EVM alone, or only read from it.\<close>

lemma exec_res_still:
  assumes "evm_ok clr E w" and "still E w w'" and "frame_ok E sc'" and "Gas (Con sc') = Gas (Con sc)"
    and "length (Stk sc') + n = length (Stk sc) + q"
  shows "exec_res clr E n q False w sc (ok pc w' sc')"
  using calm_ok [OF assms(1) still_calm [OF assms(1,2)]] calm_sel(6) [OF still_calm [OF assms(1,2)]] assms(3-5)
  by (simp add: exec_res_ok)

lemma exec_res_same:
  "evm_ok clr E w \<Longrightarrow> frame_ok E sc' \<Longrightarrow> Gas (Con sc') = Gas (Con sc) \<Longrightarrow>
   length (Stk sc') + n = length (Stk sc) + q \<Longrightarrow> exec_res clr E n q False w sc (ok pc w sc')"
  by (rule exec_res_still) simp_all

lemma exec_res_fail_same:
  "evm_ok clr E w \<Longrightarrow> frame_ok E sc' \<Longrightarrow> Gas (Con sc') = Gas (Con sc) \<Longrightarrow> e \<noteq> ErrCodeStoreOutOfGas \<Longrightarrow>
   exec_res clr E n q stops w sc (fail e pc w sc')"
  by (rule exec_res_fail) (simp_all add: after_refl)

lemma frame_ok_Stk [simp]: "frame_ok E (sc\<lparr>Stk := st\<rparr>) = frame_ok E sc"
  by (simp add: frame_ok_def)

section \<open>Stacks with a known top part\<close>

lemma pop_append: "pop (st @ x # xs) = Some (last (x # xs), st @ butlast (x # xs))"
  by (simp add: pop_def butlast_append)

lemma peek_append: "peek (st @ x # xs) = Some (last (x # xs))"
  by (simp add: peek_def)

lemma Back_append:
  assumes "i < length xs"
  shows "Back (st @ xs) i = Some (xs ! (length xs - i - 1))"
proof -
  have "length (st @ xs) - i - 1 = length st + (length xs - i - 1)" using assms by simp
  then show ?thesis using assms nth_append_length_plus [of st xs "length xs - i - 1"] by (simp add: Back_def)
qed

lemma split_stack: "n \<le> length st \<Longrightarrow> \<exists>st' xs. st = st' @ xs \<and> length xs = n"
  by (rule exI [of _ "take (length st - n) st"], rule exI [of _ "drop (length st - n) st"]) simp

lemma len1: "length xs = 1 \<longleftrightarrow> (\<exists>a. xs = [a])"
  by (auto simp: length_Suc_conv)

lemma stack1: "1 \<le> length st \<Longrightarrow> \<exists>st' a. st = st' @ [a]"
  using split_stack [of 1 st] by (auto simp: length_Suc_conv)

lemma stack2: "2 \<le> length st \<Longrightarrow> \<exists>st' a b. st = st' @ [b, a]"
  using split_stack [of 2 st] by (auto simp: length_Suc_conv numeral_eq_Suc)

lemma stack3: "3 \<le> length st \<Longrightarrow> \<exists>st' a b c. st = st' @ [c, b, a]"
  using split_stack [of 3 st] by (auto simp: length_Suc_conv numeral_eq_Suc)

lemma stack4: "4 \<le> length st \<Longrightarrow> \<exists>st' a b c d. st = st' @ [d, c, b, a]"
  using split_stack [of 4 st] by (auto simp: length_Suc_conv numeral_eq_Suc)

lemma stack6: "6 \<le> length st \<Longrightarrow> \<exists>st' a b c d e f. st = st' @ [f, e, d, c, b, a]"
  using split_stack [of 6 st] by (auto simp: length_Suc_conv numeral_eq_Suc)

lemma stack7: "7 \<le> length st \<Longrightarrow> \<exists>st' a b c d e f g. st = st' @ [g, f, e, d, c, b, a]"
  using split_stack [of 7 st] by (auto simp: length_Suc_conv numeral_eq_Suc)

section \<open>Shapes\<close>

lemma exec_unop: "exec_fine clr E 1 1 False None (unop f)"
proof (rule exec_fineI)
  fix k pc w sc
  assume "evm_ok clr E w" "frame_ok E sc" and n: "1 \<le> length (Stk sc)"
  then show "exec_res clr E 1 1 False w sc (unop f E k pc w sc)"
    using stack1 [OF n] by (auto simp: unop_def stack_simps intro!: exec_res_same)
qed

lemma exec_binop: "exec_fine clr E 2 1 False None (binop f)"
proof (rule exec_fineI)
  fix k pc w sc
  assume "evm_ok clr E w" "frame_ok E sc" and n: "2 \<le> length (Stk sc)"
  then show "exec_res clr E 2 1 False w sc (binop f E k pc w sc)"
    using stack2 [OF n] by (auto simp: binop_def stack_simps intro!: exec_res_same)
qed

lemma exec_ternop: "exec_fine clr E 3 1 False None (ternop f)"
proof (rule exec_fineI)
  fix k pc w sc
  assume "evm_ok clr E w" "frame_ok E sc" and n: "3 \<le> length (Stk sc)"
  then show "exec_res clr E 3 1 False w sc (ternop f E k pc w sc)"
    using stack3 [OF n] by (auto simp: ternop_def stack_simps intro!: exec_res_same)
qed

lemma exec_pushop:
  assumes "\<And>pc w sc. f E pc w sc \<noteq> None"
  shows "exec_fine clr E 0 1 False None (pushop f)"
proof (rule exec_fineI)
  fix k pc w sc
  assume "evm_ok clr E w" "frame_ok E sc"
  then show "exec_res clr E 0 1 False w sc (pushop f E k pc w sc)"
    using assms [of pc w sc] by (auto simp: pushop_def stack_simps intro!: exec_res_same)
qed

lemma exec_readop:
  assumes "\<And>w x sc. evm_ok clr E w \<Longrightarrow> \<exists>v w'. reads (f x sc) w = (v, w') \<and> still E w w'"
  shows "exec_fine clr E 1 1 False None (readop f)"
proof (rule exec_fineI)
  fix k pc w sc
  assume w: "evm_ok clr E w" and sc: "frame_ok E sc" and n: "1 \<le> length (Stk sc)"
  obtain st x where st: "Stk sc = st @ [x]" using stack1 [OF n] by blast
  obtain v w' where r: "reads (f x sc) w = (v, w')" "still E w w'" using assms [OF w] by blast
  show "exec_res clr E 1 1 False w sc (readop f E k pc w sc)"
    by (simp add: readop_def st stack_simps r(1) exec_res_still [OF w r(2)] sc)
qed

lemma reads_pure: "reads (\<lambda>s. (f s, s)) w = (f (db w), w) \<and> still E w w"
  by (simp add: reads_def)

text \<open>Two reads in a row.\<close>

lemma reads_then:
  assumes w: "evm_ok clr E w" and f: "\<exists>x w'. reads f w = (x, w') \<and> still E w w'"
    and g: "\<And>x w. evm_ok clr E w \<Longrightarrow> \<exists>y w'. reads (g x) w = (y, w') \<and> still E w w'"
  shows "\<exists>y w'. reads (\<lambda>s. case f s of (x, s) \<Rightarrow> g x s) w = (y, w') \<and> still E w w'"
proof -
  obtain x w1 where r1: "reads f w = (x, w1)" "still E w w1" using f by blast
  obtain y w2 where r2: "reads (g x) w1 = (y, w2)" "still E w1 w2" using g [OF still_ok [OF w r1(2)]] by blast
  have "reads (\<lambda>s. case f s of (x, s) \<Rightarrow> g x s) w = (y, w2)"
    using r1(1) r2(1) by (auto simp: reads_def split: prod.splits)
  then show ?thesis using still_trans [OF r1(2) r2(2)] by blast
qed

section \<open>Environment and reads\<close>

lemma exec_Balance: "exec_fine clr E 1 1 False None opBalance"
  unfolding opBalance_def by (rule exec_readop) (use reads_GetBalance in blast)

lemma exec_Sload: "exec_fine clr E 1 1 False None opSload"
  unfolding opSload_def by (rule exec_readop) (use reads_GetState in blast)

lemma exec_ExtCodeSize: "exec_fine clr E 1 1 False None opExtCodeSize"
  unfolding opExtCodeSize_def
proof (rule exec_readop)
  fix w x and sc :: scope
  assume w: "evm_ok clr E w"
  obtain t where "GetCodeSize (db w) (Bytes20 x) = (length (vCodeAt (view (db w)) (Bytes20 x)), t)" "quiet (keccak E) (db w) t"
    using GetCodeSize_spec [OF sinvD(1) [OF evm_ok_sinv [OF w]]] by blast
  then show "\<exists>v w'. reads (\<lambda>s. let (n, s) = GetCodeSize s (Bytes20 x) in (SetUint64 (of_nat n), s)) w = (v, w') \<and> still E w w'"
    by (auto simp: reads_def still_def)
qed

lemma exec_ExtCodeHash: "exec_fine clr E 1 1 False None opExtCodeHash"
  unfolding opExtCodeHash_def
proof (rule exec_readop)
  fix w x and sc :: scope
  assume w: "evm_ok clr E w"
  have zero: "\<exists>y w'. reads (\<lambda>s. (0 :: u256, s)) w = (y, w') \<and> still E w w'" for w
    using reads_pure [of "\<lambda>_. 0 :: u256" w E] by auto
  have "\<exists>y w'. reads (\<lambda>s. case Empty s (Bytes20 x) of (e, s) \<Rightarrow> (if e then (\<lambda>s. (0, s)) else (\<lambda>s. GetCodeHash s (Bytes20 x))) s) w
      = (y, w') \<and> still E w w'"
  proof (rule reads_then [OF w])
    show "\<exists>e w'. reads (\<lambda>s. Empty s (Bytes20 x)) w = (e, w') \<and> still E w w'" using reads_Empty [OF w] by blast
    show "\<exists>y w'. reads (if e then (\<lambda>s. (0, s)) else (\<lambda>s. GetCodeHash s (Bytes20 x))) w = (y, w') \<and> still E w w'"
      if "evm_ok clr E w" for e w
      using reads_GetCodeHash [OF that, of "Bytes20 x"] zero [of w] by (cases e) auto
  qed
  then show "\<exists>v w'. reads (\<lambda>s. let (empty, s) = Empty s (Bytes20 x) in if empty then (0, s) else GetCodeHash s (Bytes20 x)) w
      = (v, w') \<and> still E w w'"
    by (simp add: if_distribR Let_def cong: if_cong)
qed

lemma exec_Tload: "exec_fine clr E 1 1 False None opTload"
  unfolding opTload_def
  by (rule exec_readop) (use reads_pure in fastforce)

lemma exec_SelfBalance: "exec_fine clr E 0 1 False None opSelfBalance"
proof (rule exec_fineI)
  fix k pc w sc
  assume w: "evm_ok clr E w" and sc: "frame_ok E sc"
  obtain v w' where r: "reads (\<lambda>s. GetBalance s (caddress (Con sc))) w = (v, w')" "still E w w'"
    using reads_GetBalance [OF w] by blast
  show "exec_res clr E 0 1 False w sc (opSelfBalance E k pc w sc)"
    by (simp add: opSelfBalance_def stack_simps r(1) exec_res_still [OF w r(2)] sc)
qed

section \<open>Memory\<close>

lemma covers_window:
  assumes "calcMemSize64 off l = (s, False)" and "unat s \<le> length (store m)" and "mem_wf m"
  shows "mem_covers m (Uint64 off) (Uint64 l)" "unat (Uint64 l) < 2 ^ 62" "IsUint64 l"
proof -
  have ov: "\<not> snd (calcMemSize64 off l)" and s: "s = fst (calcMemSize64 off l)" using assms(1) by simp_all
  have len: "length (store m) < 2 ^ 62" using mem_wf_small [OF assms(3)] by (simp add: mem_small_def mem_max_size_def)
  have "mem_covers m (Uint64 off) (Uint64 l) \<and> unat (Uint64 l) < 2 ^ 62 \<and> IsUint64 l"
  proof (cases "l = 0")
    case False
    then have sum: "unat off + unat l = unat s" "unat s \<le> length (store m)"
      using calcMemSize64_exact [OF ov] assms(2) s by simp_all
    then have u: "IsUint64 off" "IsUint64 l" using len by (simp_all add: IsUint64_def)
    then have "unat (Uint64 off) = unat off" "unat (Uint64 l) = unat l" by simp_all
    then show ?thesis using sum len u by (simp add: mem_covers_def)
  qed (simp add: mem_covers_def Uint64_def IsUint64_def)
  then show "mem_covers m (Uint64 off) (Uint64 l)" "unat (Uint64 l) < 2 ^ 62" "IsUint64 l" by blast+
qed

lemma mem_ready_at:
  assumes "mem_ready (Some (mem_at i j)) st m" and "mem_wf m" and "Back st i = Some off" and "Back st j = Some l"
  shows "mem_covers m (Uint64 off) (Uint64 l)" "unat (Uint64 l) < 2 ^ 62" "IsUint64 l"
proof -
  obtain s where "calcMemSize64 off l = (s, False)" "unat s \<le> length (store m)"
    using assms by (auto simp: mem_ready_def mem_at_def)
  then show "mem_covers m (Uint64 off) (Uint64 l)" "unat (Uint64 l) < 2 ^ 62" "IsUint64 l" using covers_window [OF _ _ assms(2)] by blast+
qed

lemma mem_wf_store: "mem_wf m \<Longrightarrow> length s = length (store m) \<Longrightarrow> mem_wf (m\<lparr>store := s\<rparr>)"
  by (simp add: mem_wf_def)

lemma frame_ok_Mem: "frame_ok E sc \<Longrightarrow> mem_wf m \<Longrightarrow> frame_ok E (sc\<lparr>Mem := m\<rparr>)"
  "frame_ok E sc \<Longrightarrow> mem_wf m \<Longrightarrow> frame_ok E (sc\<lparr>Stk := st, Mem := m\<rparr>)"
  by (simp_all add: frame_ok_def)

lemma mem_Set_Some:
  assumes "mem_covers m off sz" and "mem_wf m"
  shows "\<exists>m'. mem_Set m off sz v = Some m' \<and> mem_wf m'"
  using mem_Set_eq [OF assms(1) mem_wf_small [OF assms(2)], of v] mem_wf_store [OF assms(2)] assms
  by (auto simp: mem_covers_def length_overwrite)

lemma mem_GetCopy_Some:
  assumes "mem_covers m off sz" and "mem_wf m"
  shows "\<exists>b. mem_GetCopy m off sz = Some b \<and> small b"
proof -
  have "length (store m) < 2 ^ 62" using mem_wf_small [OF assms(2)] by (simp add: mem_small_def mem_max_size_def)
  then show ?thesis using mem_GetCopy_eq [OF assms(1) mem_wf_small [OF assms(2)]] by (auto simp: small_def)
qed

lemma copy_window_Some:
  assumes "small src" and "mem_covers m (Uint64 off) (Uint64 len)" and "unat (Uint64 len) < 2 ^ 62" and "mem_wf m"
  shows "\<exists>m'. copy_window src off d len m = Some m' \<and> mem_wf m'"
proof -
  have "getData src x (Uint64 len) = Some (window src (unat x) (unat (Uint64 len)))" for x
    by (rule getData_window) (use assms in \<open>simp_all add: small_def\<close>)
  then show ?thesis using mem_Set_Some [OF assms(2,4)] by (simp add: copy_window_def split_def Let_def)
qed

lemma frame_okD: "frame_ok E sc \<Longrightarrow> mem_wf (Mem sc)" "frame_ok E sc \<Longrightarrow> small (Code (Con sc))"
  "frame_ok E sc \<Longrightarrow> small (Input (Con sc))"
  by (simp_all add: frame_ok_def con_ok_def)

lemma exec_copy3:
  assumes f: "\<And>k pc w sc. f E k pc w sc = do {
     (memOffset, st) \<leftarrow> pop (Stk sc);
     (dataOffset, st) \<leftarrow> pop st;
     (len, st) \<leftarrow> pop st;
     m \<leftarrow> copy_window (src sc) memOffset dataOffset len (Mem sc);
     ok pc w (sc\<lparr>Stk := st, Mem := m\<rparr>)
   }" and src: "\<And>sc. frame_ok E sc \<Longrightarrow> small (src sc)"
  shows "exec_fine clr E 3 0 False (Some (mem_at 0 2)) f"
proof (rule exec_fineI)
  fix k pc w sc
  assume w: "evm_ok clr E w" and sc: "frame_ok E sc" and n: "3 \<le> length (Stk sc)"
    and m: "mem_ready (Some (mem_at 0 2)) (Stk sc) (Mem sc)"
  obtain st a b c where st: "Stk sc = st @ [c, b, a]" using stack3 [OF n] by blast
  note cov = mem_ready_at [OF m frame_okD(1) [OF sc], of a c]
  obtain m' where m': "copy_window (src sc) a b c (Mem sc) = Some m'" "mem_wf m'"
    using copy_window_Some [OF src [OF sc] cov(1,2) frame_okD(1) [OF sc]] by (auto simp: st Back_append)
  show "exec_res clr E 3 0 False w sc (f E k pc w sc)"
    unfolding f by (simp add: st pop_append m'(1) exec_res_same [OF w] frame_ok_Mem [OF sc m'(2)])
qed

lemma exec_CallDataCopy: "exec_fine clr E 3 0 False (Some memoryCallDataCopy) opCallDataCopy"
  unfolding memoryCallDataCopy_def by (rule exec_copy3 [OF opCallDataCopy_def]) (rule frame_okD(3))

lemma exec_CodeCopy: "exec_fine clr E 3 0 False (Some memoryCodeCopy) opCodeCopy"
  unfolding memoryCodeCopy_def by (rule exec_copy3 [OF opCodeCopy_def]) (rule frame_okD(2))

lemma vCodeAt_small: "evm_ok clr E w \<Longrightarrow> small (vCodeAt (view (db w)) a)"
  by (simp add: evm_ok_def world_ok_def codes_small_def)

lemma exec_ExtCodeCopy: "exec_fine clr E 4 0 False (Some memoryExtCodeCopy) opExtCodeCopy"
  unfolding memoryExtCodeCopy_def
proof (rule exec_fineI)
  fix k pc w sc
  assume w: "evm_ok clr E w" and sc: "frame_ok E sc" and n: "4 \<le> length (Stk sc)"
    and m: "mem_ready (Some (mem_at 1 3)) (Stk sc) (Mem sc)"
  obtain st a b c d where st: "Stk sc = st @ [d, c, b, a]" using stack4 [OF n] by blast
  note cov = mem_ready_at [OF m frame_okD(1) [OF sc], of b d]
  obtain w' where r: "reads (\<lambda>s. GetCode s (Bytes20 a)) w = (vCodeAt (view (db w)) (Bytes20 a), w')" "still E w w'"
    using reads_GetCode [OF w] by blast
  obtain m' where m': "copy_window (vCodeAt (view (db w)) (Bytes20 a)) b c d (Mem sc) = Some m'" "mem_wf m'"
    using copy_window_Some [OF vCodeAt_small [OF w] cov(1,2) frame_okD(1) [OF sc]] by (auto simp: st Back_append)
  show "exec_res clr E 4 0 False w sc (opExtCodeCopy E k pc w sc)"
    by (simp add: opExtCodeCopy_def st pop_append r(1) m'(1) exec_res_still [OF w r(2)] frame_ok_Mem [OF sc m'(2)])
qed

lemma covers_fixed:
  assumes "calcMemSize64WithUint off l = (s, False)" and "unat s \<le> length (store m)" and "l \<noteq> 0" and "mem_wf m"
  shows "unat (Uint64 off) + unat l \<le> length (store m)"
proof -
  have ov: "\<not> snd (calcMemSize64WithUint off l)" using assms(1) by simp
  have len: "length (store m) < 2 ^ 62" using mem_wf_small [OF assms(4)] by (simp add: mem_small_def mem_max_size_def)
  have sum: "unat off + unat l = unat s" using calcMemSize64WithUint_exact [OF ov] assms(1,3) by simp
  then have "IsUint64 off" using assms(2) len by (simp add: IsUint64_def)
  then show ?thesis using sum assms(2) by simp
qed

lemma exec_Keccak256: "exec_fine clr E 2 1 False (Some memoryKeccak256) opKeccak256"
  unfolding memoryKeccak256_def
proof (rule exec_fineI)
  fix k pc w sc
  assume w: "evm_ok clr E w" and sc: "frame_ok E sc" and n: "2 \<le> length (Stk sc)"
    and m: "mem_ready (Some (mem_at 0 1)) (Stk sc) (Mem sc)"
  obtain st a b where st: "Stk sc = st @ [b, a]" using stack2 [OF n] by blast
  note cov = mem_ready_at [OF m frame_okD(1) [OF sc], of a b]
  obtain bs where bs: "mem_GetPtr (Mem sc) (Uint64 a) (Uint64 b) = Some bs"
    using mem_GetCopy_Some [OF cov(1) frame_okD(1) [OF sc]] by (auto simp: mem_GetPtr_GetCopy st Back_append)
  have "still E w (writes (\<lambda>s. AddPreimage s h x) w)" for h x
    by (auto simp: still_def writes_def AddPreimage_quiet)
  then show "exec_res clr E 2 1 False w sc (opKeccak256 E k pc w sc)"
    by (simp add: opKeccak256_def st pop_append stack_simps bs Let_def exec_res_still [OF w] sc)
qed

lemma exec_CallDataLoad: "exec_fine clr E 1 1 False None opCallDataLoad"
proof (rule exec_fineI)
  fix k pc w sc
  assume w: "evm_ok clr E w" and sc: "frame_ok E sc" and n: "1 \<le> length (Stk sc)"
  obtain st a where st: "Stk sc = st @ [a]" using stack1 [OF n] by blast
  have "getData (Input (Con sc)) x 32 = Some (window (Input (Con sc)) (unat x) 32)" for x
    using getData_window [of "Input (Con sc)" 32 x] frame_okD(3) [OF sc] by (simp add: small_def)
  then show "exec_res clr E 1 1 False w sc (opCallDataLoad E k pc w sc)"
    by (simp add: opCallDataLoad_def st stack_simps split_def Let_def exec_res_same [OF w] sc)
qed

lemma exec_ReturnDataCopy: "exec_fine clr E 3 0 False (Some memoryReturnDataCopy) opReturnDataCopy"
  unfolding memoryReturnDataCopy_def
proof (rule exec_fineI)
  fix k pc w sc
  assume w: "evm_ok clr E w" and sc: "frame_ok E sc" and n: "3 \<le> length (Stk sc)"
    and m: "mem_ready (Some (mem_at 0 2)) (Stk sc) (Mem sc)"
  obtain st a b c where st: "Stk sc = st @ [c, b, a]" using stack3 [OF n] by blast
  have cov: "mem_covers (Mem sc) (Uint64 a) (Uint64 c)" "unat (Uint64 c) < 2 ^ 62" "IsUint64 c"
    using mem_ready_at [OF m frame_okD(1) [OF sc], of a c] by (simp_all add: st Back_append)
  have set: "\<exists>m'. mem_Set (Mem sc) (Uint64 a) (Uint64 c) v = Some m' \<and> mem_wf m'" for v
    using mem_Set_Some [OF cov(1) frame_okD(1) [OF sc]] .
  have fail: "exec_res clr E 3 0 False w sc (fail ErrReturnDataOutOfBounds pc w (sc\<lparr>Stk := st\<rparr>))"
    by (rule exec_res_fail_same [OF w]) (simp_all add: sc)
  show "exec_res clr E 3 0 False w sc (opReturnDataCopy E k pc w sc)"
  proof (cases "IsUint64 b \<and> IsUint64 (b + c) \<and> \<not> of_nat (length (returnData w)) < Uint64 (b + c)")
    case True
    have c: "unat c < 2 ^ 62" using cov(2,3) by simp
    have "unat b + unat c < 2 ^ 256" using True c by (simp add: IsUint64_def)
    then have "unat (b + c) = unat b + unat c" by (simp add: unat_word_ariths)
    moreover have "length (returnData w) < 2 ^ 62" using w by (simp add: evm_ok_def small_def)
    ultimately have "unat (Uint64 b) \<le> unat (Uint64 (b + c))" "unat (Uint64 (b + c)) \<le> length (returnData w)"
      using True by (auto simp: word_less_nat_alt unat_u64_of_nat not_less)
    then obtain chunk where "go_slice (returnData w) (unat (Uint64 b)) (unat (Uint64 (b + c))) = Some chunk"
      using go_slice_Some by blast
    then show ?thesis using set [of chunk] True frame_ok_Mem [OF sc]
      by (auto simp: opReturnDataCopy_def st pop_append Uint64WithOverflow_def exec_res_same [OF w])
  next
    case False
    then show ?thesis using fail
      by (auto simp: opReturnDataCopy_def st pop_append Uint64WithOverflow_def Let_def)
  qed
qed

lemma exec_Pop: "exec_fine clr E 1 0 False None opPop"
proof (rule exec_fineI)
  fix k pc w sc
  assume w: "evm_ok clr E w" and sc: "frame_ok E sc" and n: "1 \<le> length (Stk sc)"
  then show "exec_res clr E 1 0 False w sc (opPop E k pc w sc)"
    using stack1 [OF n] by (auto simp: opPop_def stack_simps intro!: exec_res_same)
qed

lemma exec_Mload: "exec_fine clr E 1 1 False (Some memoryMLoad) opMload"
proof (rule exec_fineI)
  fix k pc w sc
  assume w: "evm_ok clr E w" and sc: "frame_ok E sc" and n: "1 \<le> length (Stk sc)"
    and m: "mem_ready (Some memoryMLoad) (Stk sc) (Mem sc)"
  obtain st a where st: "Stk sc = st @ [a]" using stack1 [OF n] by blast
  obtain s where "calcMemSize64WithUint a 32 = (s, False)" "unat s \<le> length (store (Mem sc))"
    using m by (auto simp: mem_ready_def memoryMLoad_def st Back_append)
  then have "mem_covers (Mem sc) (Uint64 a) 32"
    using covers_fixed [OF _ _ _ frame_okD(1) [OF sc], of a 32 s] by (simp add: mem_covers_def)
  then obtain bs where "mem_GetPtr (Mem sc) (Uint64 a) 32 = Some bs"
    using mem_GetCopy_Some [OF _ frame_okD(1) [OF sc]] by (auto simp: mem_GetPtr_GetCopy)
  then show "exec_res clr E 1 1 False w sc (opMload E k pc w sc)"
    by (simp add: opMload_def st stack_simps exec_res_same [OF w] sc)
qed

lemma exec_Mstore: "exec_fine clr E 2 0 False (Some memoryMStore) opMstore"
proof (rule exec_fineI)
  fix k pc w sc
  assume w: "evm_ok clr E w" and sc: "frame_ok E sc" and n: "2 \<le> length (Stk sc)"
    and m: "mem_ready (Some memoryMStore) (Stk sc) (Mem sc)"
  obtain st a b where st: "Stk sc = st @ [b, a]" using stack2 [OF n] by blast
  obtain s where "calcMemSize64WithUint a 32 = (s, False)" "unat s \<le> length (store (Mem sc))"
    using m by (auto simp: mem_ready_def memoryMStore_def st Back_append)
  then have le: "unat (Uint64 a) + 32 \<le> length (store (Mem sc))"
    using covers_fixed [OF _ _ _ frame_okD(1) [OF sc], of a 32 s] by simp
  have "mem_Set32 (Mem sc) (Uint64 a) b = Some ((Mem sc)\<lparr>store := overwrite (store (Mem sc)) (unat (Uint64 a)) (be_bytes 32 b)\<rparr>)"
    by (rule mem_Set32_eq [OF le mem_wf_small [OF frame_okD(1) [OF sc]]])
  moreover have "mem_wf ((Mem sc)\<lparr>store := overwrite (store (Mem sc)) (unat (Uint64 a)) (be_bytes 32 b)\<rparr>)"
    by (rule mem_wf_store [OF frame_okD(1) [OF sc]]) (use le in \<open>simp add: length_overwrite\<close>)
  ultimately show "exec_res clr E 2 0 False w sc (opMstore E k pc w sc)"
    by (simp add: opMstore_def st pop_append exec_res_same [OF w] frame_ok_Mem [OF sc])
qed

lemma exec_Mstore8: "exec_fine clr E 2 0 False (Some memoryMStore8) opMstore8"
proof (rule exec_fineI)
  fix k pc w sc
  assume w: "evm_ok clr E w" and sc: "frame_ok E sc" and n: "2 \<le> length (Stk sc)"
    and m: "mem_ready (Some memoryMStore8) (Stk sc) (Mem sc)"
  obtain st a b where st: "Stk sc = st @ [b, a]" using stack2 [OF n] by blast
  obtain s where "calcMemSize64WithUint a 1 = (s, False)" "unat s \<le> length (store (Mem sc))"
    using m by (auto simp: mem_ready_def memoryMStore8_def st Back_append)
  then have le: "unat (Uint64 a) < length (store (Mem sc))"
    using covers_fixed [OF _ _ _ frame_okD(1) [OF sc], of a 1 s] by simp
  have "mem_wf ((Mem sc)\<lparr>store := (store (Mem sc))[i := x]\<rparr>)" for i x
    by (rule mem_wf_store [OF frame_okD(1) [OF sc]]) simp
  then show "exec_res clr E 2 0 False w sc (opMstore8 E k pc w sc)"
    using le by (simp add: opMstore8_def st pop_append go_update_def exec_res_same [OF w] frame_ok_Mem [OF sc])
qed

lemma Uint64_mono: "IsUint64 b \<Longrightarrow> a \<le> b \<Longrightarrow> IsUint64 a \<and> Uint64 a \<le> Uint64 b"
  by (auto simp: IsUint64_def word_le_nat_alt)

lemma exec_Mcopy: "exec_fine clr E 3 0 False (Some memoryMcopy) opMcopy"
proof (rule exec_fineI)
  fix k pc w sc
  assume w: "evm_ok clr E w" and sc: "frame_ok E sc" and n: "3 \<le> length (Stk sc)"
    and m: "mem_ready (Some memoryMcopy) (Stk sc) (Mem sc)"
  note wf = frame_okD(1) [OF sc]
  obtain st a b c where st: "Stk sc = st @ [c, b, a]" using stack3 [OF n] by blast
  obtain s where s: "calcMemSize64 (if b > a then b else a) c = (s, False)" "unat s \<le> length (store (Mem sc))"
    using m by (auto simp: mem_ready_def memoryMcopy_def st Back_append Let_def)
  note cov = covers_window [OF s wf]
  have cov2: "mem_covers (Mem sc) (Uint64 x) (Uint64 c)" if x: "x \<le> (if b > a then b else a)" for x
  proof (cases "c = 0")
    case False
    let ?y = "if b > a then b else a"
    have "unat ?y + unat c = unat s" using calcMemSize64_exact [of ?y c] s(1) False by simp
    then have "unat ?y < 2 ^ 62" using s(2) mem_wf_small [OF wf] by (simp add: mem_small_def mem_max_size_def)
    then have "IsUint64 ?y" by (simp add: IsUint64_def)
    then have "Uint64 x \<le> Uint64 ?y" using Uint64_mono x by blast
    then have "unat (Uint64 x) \<le> unat (Uint64 ?y)" by (simp only: word_le_nat_alt)
    then show ?thesis using cov(1) by (auto simp: mem_covers_def)
  qed (simp add: mem_covers_def Uint64_def)
  have ab: "mem_covers (Mem sc) (Uint64 a) (Uint64 c)" "mem_covers (Mem sc) (Uint64 b) (Uint64 c)"
    by (rule cov2; simp add: word_le_nat_alt word_less_nat_alt)+
  note copy = mem_Copy_eq [OF ab(2,1) mem_wf_small [OF wf]]
  have "mem_wf (if Uint64 c = 0 then Mem sc else (Mem sc)\<lparr>store := overwrite (store (Mem sc)) (unat (Uint64 a))
      (take (unat (Uint64 c)) (drop (unat (Uint64 b)) (store (Mem sc))))\<rparr>)"
    using wf mem_wf_store [OF wf] ab(1)
    by (auto simp: mem_covers_def length_overwrite)
  then show "exec_res clr E 3 0 False w sc (opMcopy E k pc w sc)"
    by (simp add: opMcopy_def st pop_append copy exec_res_same [OF w] frame_ok_Mem [OF sc])
qed

section \<open>Control flow\<close>

lemma isCode_jd:
  assumes "isCode c jd u = Some (r, c', jd')"
  shows "jd' = jd \<or> CodeHash c \<noteq> 0 \<and> (\<exists>b. jd' = jd(CodeHash c \<mapsto> b) \<and> fits b (Code c))"
  using assms by (auto simp: isCode_def codeBitmap_fits bind_Some_iff split: option.splits if_splits)

lemma caches_fit_ok:
  assumes "con_ok H c" and "jd_ok H jd" and "hash_sized H"
  shows "caches_fit c jd"
proof -
  have "fits b (Code c)" if nz: "CodeHash c \<noteq> 0" and b: "jd (CodeHash c) = Some b" for b
  proof -
    obtain code where code: "small code" "H code = CodeHash c" "fits b code"
      using assms(2) b by (auto simp: jd_ok_def)
    have "H (Code c) = CodeHash c" "small (Code c)" using assms(1) nz by (simp_all add: con_ok_def)
    then have "length code = length (Code c)" using assms(3) code(1,2) by (auto simp: hash_sized_def)
    then show ?thesis using code(3) by (simp add: fits_def)
  qed
  then show ?thesis using assms(1) by (auto simp: caches_fit_def con_ok_def)
qed

lemma validJumpdest_Some:
  assumes "con_ok H c" and "jd_ok H jd" and "hash_sized H"
  shows "\<exists>r c' jd'. validJumpdest c jd pos = Some (r, c', jd') \<and> con_ok H c' \<and> jd_ok H jd' \<and> Gas c' = Gas c"
proof (cases "unat pos < length (Code c) \<and> Code c ! unat pos = 0x5b")
  case False
  have "length (Code c) < 2 ^ 63" using assms(1) by (simp add: con_ok_def small_def)
  then have "validJumpdest c jd pos = Some (False, c, jd)"
    using validJumpdest_cases [of c jd pos] if_not_P [OF False] by metis
  then show ?thesis using assms by blast
next
  case True
  have small: "length (Code c) < 2 ^ 63" using assms(1) by (simp add: con_ok_def small_def)
  have "unat (Uint64 pos) < length (Code c)" using True small by (simp add: IsUint64_def)
  then obtain r a jd' where i: "isCode c jd (Uint64 pos) = Some (r, c\<lparr>analysis := a\<rparr>, jd')"
    and f: "caches_fit (c\<lparr>analysis := a\<rparr>) jd'"
    using isCode_Some [OF caches_fit_ok [OF assms]] by blast
  have "con_ok H (c\<lparr>analysis := a\<rparr>)" using assms(1) f by (simp add: con_ok_def caches_fit_def)
  moreover have "jd_ok H jd'"
    using isCode_jd [OF i] assms(1,2) by (auto simp: jd_ok_def con_ok_def split: if_splits)
  ultimately show ?thesis using i True validJumpdest_cases [OF small] by auto
qed

lemma exec_res_jump:
  assumes "evm_ok clr E w" and "after E w w'" and "evm_ok clr E w'" and "refund (db w') = refund (db w)"
    and "frame_ok E sc'" and "Gas (Con sc') = Gas (Con sc)"
    and "length (Stk sc') + n = length (Stk sc) + q" and "hash_sized (keccak E)"
  shows "exec_res clr E n q False w sc (jump_to pos pc w' sc')"
proof -
  have jd: "jd_ok (keccak E) (jumpDests w')" and c: "con_ok (keccak E) (Con sc')"
    using assms(3,5) by (simp_all add: evm_ok_def frame_ok_def)
  obtain r c' jd' where v: "validJumpdest (Con sc') (jumpDests w') pos = Some (r, c', jd')"
    "con_ok (keccak E) c'" "jd_ok (keccak E) jd'" "Gas c' = Gas (Con sc')"
    using validJumpdest_Some [OF c jd assms(8)] by blast
  have "evm_ok clr E (w'\<lparr>jumpDests := jd'\<rparr>)" using assms(3) v(3) by (simp add: evm_ok_def)
  moreover have "after E w (w'\<lparr>jumpDests := jd'\<rparr>)" using assms(2) by (simp add: after_def follows_def)
  moreover have "frame_ok E (sc'\<lparr>Con := c'\<rparr>)" using assms(5) v(2) by (simp add: frame_ok_def)
  ultimately show ?thesis using v assms(4,6,7) by (simp add: jump_to_def Let_def exec_res_fail exec_res_ok)
qed

lemma abort_Load_ok:
  assumes "evm_ok clr E w" and "abort_Load E w = (b, w')"
  shows "evm_ok clr E w'" "after E w w'" "refund (db w') = refund (db w)"
  using assms after_refl [OF assms(1)] by (auto simp: abort_Load_def evm_ok_def after_def follows_def)

lemma exec_Jump: "hash_sized (keccak E) \<Longrightarrow> exec_fine clr E 1 0 False None opJump"
proof (rule exec_fineI)
  fix k pc w sc
  assume h: "hash_sized (keccak E)" and w: "evm_ok clr E w" and sc: "frame_ok E sc" and n: "1 \<le> length (Stk sc)"
  obtain st a where st: "Stk sc = st @ [a]" using stack1 [OF n] by blast
  obtain b w' where r: "abort_Load E w = (b, w')" by fastforce
  note l = abort_Load_ok [OF w r]
  show "exec_res clr E 1 0 False w sc (opJump E k pc w sc)"
    by (simp add: opJump_def r st stack_simps exec_res_fail [OF l] sc exec_res_jump [OF w l(2,1,3)] h)
qed

lemma exec_Jumpi: "hash_sized (keccak E) \<Longrightarrow> exec_fine clr E 2 0 False None opJumpi"
proof (rule exec_fineI)
  fix k pc w sc
  assume h: "hash_sized (keccak E)" and w: "evm_ok clr E w" and sc: "frame_ok E sc" and n: "2 \<le> length (Stk sc)"
  obtain st a b where st: "Stk sc = st @ [b, a]" using stack2 [OF n] by blast
  obtain x w' where r: "abort_Load E w = (x, w')" by fastforce
  note l = abort_Load_ok [OF w r]
  show "exec_res clr E 2 0 False w sc (opJumpi E k pc w sc)"
    by (simp add: opJumpi_def r st pop_append exec_res_fail [OF l] exec_res_ok [OF l] sc exec_res_jump [OF w l(2,1,3)] h Let_def)
qed

lemma exec_Jumpdest: "exec_fine clr E 0 0 False None opJumpdest"
  by (rule exec_fineI) (simp add: opJumpdest_def exec_res_same)

lemma exec_Swap: "exec_fine clr E (Suc n) (Suc n) False None (opSwap n)"
proof (rule exec_fineI)
  fix k w sc and pc :: u64
  assume w: "evm_ok clr E w" and sc: "frame_ok E sc" and n: "Suc n \<le> length (Stk sc)"
  obtain st where "swap n (Stk sc) = Some st" "length st = length (Stk sc)" using swap_Some [of n "Stk sc"] n by auto
  then show "exec_res clr E (Suc n) (Suc n) False w sc (opSwap n E k pc w sc)"
    by (simp add: opSwap_def exec_res_same [OF w] sc)
qed

lemma exec_Dup: "0 < n \<Longrightarrow> exec_fine clr E n (Suc n) False None (makeDup n)"
proof (rule exec_fineI)
  fix k w sc and pc :: u64
  assume n0: "0 < n" and w: "evm_ok clr E w" and sc: "frame_ok E sc" and n: "n \<le> length (Stk sc)"
  obtain v where "dup n (Stk sc) = Some (push (Stk sc) v)" using dup_Some [OF n0 n] by blast
  then show "exec_res clr E n (Suc n) False w sc (makeDup n E k pc w sc)"
    by (simp add: makeDup_def stack_simps exec_res_same [OF w] sc)
qed

section \<open>Pushes\<close>

lemma pc_plus:
  assumes "unat (pc :: u64) < length code" and "small code" and "k \<le> 100"
  shows "unat (pc + of_nat k) = unat pc + k"
  using assms by (simp add: small_def u64_simps)

lemma exec_Push1: "exec_fine clr E 0 1 False None opPush1"
proof (rule exec_fineI)
  fix k w sc and pc :: u64
  assume w: "evm_ok clr E w" and sc: "frame_ok E sc"
  have "unat (pc + 1) < length (Code (Con sc))" if "pc + 1 < of_nat (length (Code (Con sc)))"
    using that frame_okD(2) [OF sc] by (simp add: word_less_nat_alt small_def unat_u64_of_nat)
  then show "exec_res clr E 0 1 False w sc (opPush1 E k pc w sc)"
    by (simp add: opPush1_def Let_def go_index_def stack_simps exec_res_same [OF w] sc)
qed

lemma exec_Push2: "exec_fine clr E 0 1 False None opPush2"
proof (rule exec_fineI)
  fix k w sc and pc :: u64
  assume w: "evm_ok clr E w" and sc: "frame_ok E sc" and pc: "unat pc < length (Code (Con sc))"
  let ?code = "Code (Con sc)"
  have len: "unat (of_nat (length ?code) :: u64) = length ?code"
    using frame_okD(2) [OF sc] by (simp add: small_def unat_u64_of_nat)
  have p: "unat (pc + 1) = unat pc + 1" "unat (pc + 2) = unat pc + 2" "unat (pc + 3) = unat pc + 3"
    using pc_plus [OF pc frame_okD(2) [OF sc], of 1] pc_plus [OF pc frame_okD(2) [OF sc], of 2]
      pc_plus [OF pc frame_okD(2) [OF sc], of 3] by simp_all
  have "\<exists>v. (if pc + 2 < of_nat (length ?code) then do { bs \<leftarrow> go_slice ?code (unat (pc + 1)) (unat (pc + 3)); Some (be_word bs) }
      else if pc + 1 < of_nat (length ?code) then do { b \<leftarrow> go_index ?code (unat (pc + 1)); Some (SetUint64 (push_bit 8 (ucast b))) }
      else Some 0) = Some (v :: u256)"
    by (simp add: word_less_nat_alt len p go_slice_def go_index_def)
  then show "exec_res clr E 0 1 False w sc (opPush2 E k pc w sc)"
    by (auto simp: opPush2_def stack_simps simp del: One_nat_def intro!: exec_res_same [OF w] simp: sc)
qed

lemma push_bounds_Some:
  assumes "unat pc < length code" and "small code"
  shows "\<exists>i j. push_bounds code pc k = Some (i, j) \<and> i \<le> j \<and> j \<le> length code"
proof -
  have p: "unat (pc + 1) = unat pc + 1" using pc_plus [OF assms, of 1] by simp
  have "unat (pc + 1) < 2 ^ 63" using p assms by (simp add: small_def)
  then have "sint (pc + 1) = int (unat (pc + 1))" by (rule sint_u64_nonneg)
  then obtain i where "sint (pc + 1) = int i" by blast
  then show ?thesis by (auto simp: push_bounds_def Let_def min_def)
qed

lemma exec_makePush: "exec_fine clr E 0 1 False None (makePush sz n)"
proof (rule exec_fineI)
  fix k w sc and pc :: u64
  assume w: "evm_ok clr E w" and sc: "frame_ok E sc" and pc: "unat pc < length (Code (Con sc))"
  obtain i j where b: "push_bounds (Code (Con sc)) pc n = Some (i, j)" "i \<le> j" "j \<le> length (Code (Con sc))"
    using push_bounds_Some [OF pc frame_okD(2) [OF sc]] by blast
  show "exec_res clr E 0 1 False w sc (makePush sz n E k pc w sc)"
    by (simp add: makePush_def b go_slice_Some Let_def stack_simps exec_res_same [OF w] sc)
qed

section \<open>Writes\<close>

text \<open>Writes that leave code, storage and the refund counter alone.\<close>

definition soft :: "env \<Rightarrow> evm \<Rightarrow> evm \<Rightarrow> bool" where
  "soft E w w' \<longleftrightarrow> (\<exists>s. w' = w\<lparr>db := s\<rparr> \<and> evolves (keccak E) (db w) s \<and> tame (view (db w)) (view s)
     \<and> refund s = refund (db w))"

lemma soft_trans: "soft E w w' \<Longrightarrow> soft E w' w'' \<Longrightarrow> soft E w w''"
  unfolding soft_def using evolves_trans tame_trans by fastforce

lemma soft_still: "evm_ok clr E w \<Longrightarrow> still E w w' \<Longrightarrow> soft E w w'"
  unfolding still_def soft_def using evolves_quiet [OF evm_ok_sinv] still_view [of E w]
  by (metis quiet_def tame_refl view_simps(5))

lemma soft_ok: "evm_ok clr E w \<Longrightarrow> soft E w w' \<Longrightarrow> evm_ok clr E w'"
  unfolding soft_def evm_ok_def using world_ok_tame by fastforce

lemma soft_follows: "soft E w w' \<Longrightarrow> follows E w w'"
  by (auto simp: soft_def follows_def)

lemma soft_after: "soft E w w' \<Longrightarrow> \<not> readOnly w \<Longrightarrow> after E w w'"
  by (simp add: after_def soft_follows)

lemma soft_refund: "soft E w w' \<Longrightarrow> refund (db w') = refund (db w)"
  by (auto simp: soft_def)

lemma soft_readOnly: "soft E w w' \<Longrightarrow> readOnly w' = readOnly w"
  by (auto simp: soft_def)

lemma soft_writes:
  assumes "mutates (keccak E) (db w) (f (db w))" and "tame (view (db w)) (view (f (db w)))" and "refund (f (db w)) = refund (db w)"
  shows "soft E w (writes f w)"
  using assms mutates_evolves by (auto simp: soft_def writes_def)

lemma refund_view: "vRefund (view t) = vRefund (view s) \<Longrightarrow> refund t = refund s"
  by simp

lemma tame_v_upd_data: "tame v (v_upd a (avData_update (Nonce_update f)) v)"
  "tame v (v_add_balance a x v)"
  by (auto simp: v_add_balance_def intro!: tame_upd)

lemma vRefund_upd: "vRefund (v_upd a f v) = vRefund v" "vRefund (v_ensure a v) = vRefund v"
  "vRefund (v_add_balance a x v) = vRefund v" "vRefund (v_destruct a v) = vRefund v"
  by (auto simp: v_upd_def v_ensure_def v_add_balance_def v_destruct_def split: option.split)

lemma soft_AddBalance: "evm_ok clr E w \<Longrightarrow> soft E w (writes (\<lambda>s. snd (AddBalance s a x)) w)"
  using AddBalance_spec [OF evm_ok_sinv, of clr E w a x]
  by (intro soft_writes refund_view) (simp_all add: tame_v_upd_data vRefund_upd)

lemma soft_SubBalance: "evm_ok clr E w \<Longrightarrow> soft E w (writes (\<lambda>s. snd (SubBalance s a x)) w)"
  using SubBalance_spec [OF evm_ok_sinv, of clr E w a x]
  by (intro soft_writes refund_view) (simp_all add: tame_v_upd_data vRefund_upd)

lemma tame_destruct: "tame v (v_destruct a v)"
  by (auto simp: v_destruct_def intro!: tame_set split: option.split)

lemma soft_SelfDestruct: "evm_ok clr E w \<Longrightarrow> soft E w (writes (\<lambda>s. snd (SelfDestruct s a)) w)"
  using SelfDestruct_spec [OF evm_ok_sinv, of clr E w a]
  by (intro soft_writes refund_view) (simp_all add: tame_destruct vRefund_upd)

lemma soft_SelfDestruct6780:
  assumes "evm_ok clr E w"
  shows "soft E w (writes (\<lambda>s. snd (SelfDestruct6780 s a)) w)"
proof -
  obtain b t where "SelfDestruct6780 (db w) a = ((vBal (view (db w)) a, b), t)" "mutates (keccak E) (db w) t"
    "view t = (if b then v_destruct a (view (db w)) else view (db w))"
    using SelfDestruct6780_spec [OF evm_ok_sinv [OF assms], of a] by blast
  then show ?thesis by (intro soft_writes refund_view) (auto simp: tame_destruct vRefund_upd)
qed

lemma exec_res_protected:
  "evm_ok clr E w \<Longrightarrow> frame_ok E sc \<Longrightarrow> exec_res clr E n q stops w sc (fail ErrWriteProtection pc w sc)"
  by (rule exec_res_fail_same) simp_all

lemma exec_res_soft:
  assumes "evm_ok clr E w" and "soft E w w'" and "\<not> readOnly w" and "frame_ok E sc'" and "Gas (Con sc') = Gas (Con sc)"
  shows "length (Stk sc') + n = length (Stk sc) + q \<Longrightarrow> exec_res clr E n q False w sc (ok pc w' sc')"
    and "e \<noteq> ErrCodeStoreOutOfGas \<Longrightarrow> exec_res clr E n q stops w sc (fail e pc w' sc')"
  using soft_ok [OF assms(1,2)] soft_after [OF assms(2,3)] soft_refund [OF assms(2)] assms(4,5)
  by (simp_all add: exec_res_ok exec_res_fail)

lemma soft_AddLog: "evm_ok clr E w \<Longrightarrow> soft E w (writes (\<lambda>s. AddLog s l) w)"
  using AddLog_spec [OF evm_ok_sinv, of clr E w l]
  by (intro soft_writes refund_view) (simp_all add: AddLog_view, simp_all add: v_log_def tame_same_accounts)

lemma soft_SetTransientState: "evm_ok clr E w \<Longrightarrow> soft E w (writes (\<lambda>s. SetTransientState s a k x) w)"
  using SetTransientState_spec [OF evm_ok_sinv, of clr E w a k x]
  by (intro soft_writes refund_view) (simp_all add: tame_same_accounts)

lemma pop_n_Some: "n \<le> length st \<Longrightarrow> \<exists>xs st'. pop_n n st = Some (xs, st') \<and> length st' + n = length st"
proof (induction n arbitrary: st)
  case (Suc n)
  then obtain st' x where st: "st = st' @ [x]" using stack1 [of st] by auto
  then show ?case using Suc.IH [of st'] Suc.prems by (fastforce simp: stack_simps)
qed simp

lemma exec_Log: "exec_fine clr E (2 + n) 0 False (Some memoryLog) (makeLog n)"
  unfolding memoryLog_def
proof (rule exec_fineI)
  fix k w sc and pc :: u64
  assume w: "evm_ok clr E w" and sc: "frame_ok E sc" and n: "2 + n \<le> length (Stk sc)"
    and m: "mem_ready (Some (mem_at 0 1)) (Stk sc) (Mem sc)"
  obtain st a b where st: "Stk sc = st @ [b, a]" using stack2 [of "Stk sc"] n by auto
  have cov: "mem_covers (Mem sc) (Uint64 a) (Uint64 b)"
    using mem_ready_at(1) [OF m frame_okD(1) [OF sc], of a b] by (simp add: st Back_append)
  obtain d where d: "mem_GetCopy (Mem sc) (Uint64 a) (Uint64 b) = Some d"
    using mem_GetCopy_Some [OF cov frame_okD(1) [OF sc]] by blast
  obtain xs st' where p: "pop_n n st = Some (xs, st')" "length st' + n = length st"
    using pop_n_Some [of n st] n by (auto simp: st)
  show "exec_res clr E (2 + n) 0 False w sc (makeLog n E k pc w sc)"
  proof (cases "readOnly w")
    case True
    then show ?thesis using exec_res_protected [OF w sc] by (simp add: makeLog_def)
  next
    case False
    show ?thesis using False p(2)
      by (simp add: makeLog_def st pop_append p(1) d Let_def exec_res_soft(1) [OF w soft_AddLog [OF w]] sc)
  qed
qed

lemma exec_Tstore: "exec_fine clr E 2 0 False None opTstore"
proof (rule exec_fineI)
  fix k w sc and pc :: u64
  assume w: "evm_ok clr E w" and sc: "frame_ok E sc" and n: "2 \<le> length (Stk sc)"
  obtain st a b where st: "Stk sc = st @ [b, a]" using stack2 [OF n] by auto
  show "exec_res clr E 2 0 False w sc (opTstore E k pc w sc)"
    using exec_res_protected [OF w sc]
    by (simp add: opTstore_def st pop_append exec_res_soft(1) [OF w soft_SetTransientState [OF w]] sc)
qed

section \<open>Ends of a frame\<close>

lemma exec_res_stop_with:
  "evm_ok clr E w \<Longrightarrow> frame_ok E sc' \<Longrightarrow> Gas (Con sc') = Gas (Con sc) \<Longrightarrow> small ret \<Longrightarrow> e \<noteq> ErrCodeStoreOutOfGas \<Longrightarrow>
   exec_res clr E n q stops w sc (stop_with ret (Some e) pc w sc')"
  by (simp add: exec_res_def stop_with_def after_refl)

lemma exec_res_stop_with_data:
  assumes "evm_ok clr E w" and "frame_ok E sc'" and "Gas (Con sc') = Gas (Con sc)" and "small ret" and "small ret'"
    and "e \<noteq> ErrCodeStoreOutOfGas"
  shows "exec_res clr E n q stops w sc (stop_with ret (Some e) pc (w\<lparr>returnData := ret'\<rparr>) sc')"
proof -
  have "evm_ok clr E (w\<lparr>returnData := ret'\<rparr>)" using assms(1,5) by (simp add: evm_ok_def)
  moreover have "after E w (w\<lparr>returnData := ret'\<rparr>)" using after_refl [OF assms(1)] by (simp add: after_def follows_def)
  ultimately show ?thesis using assms by (simp add: exec_res_def stop_with_def)
qed

lemma exec_Return: "exec_fine clr E 2 0 True (Some memoryReturn) opReturn"
  unfolding memoryReturn_def
proof (rule exec_fineI)
  fix k w sc and pc :: u64
  assume w: "evm_ok clr E w" and sc: "frame_ok E sc" and n: "2 \<le> length (Stk sc)"
    and m: "mem_ready (Some (mem_at 0 1)) (Stk sc) (Mem sc)"
  obtain st a b where st: "Stk sc = st @ [b, a]" using stack2 [OF n] by auto
  obtain d where d: "mem_GetCopy (Mem sc) (Uint64 a) (Uint64 b) = Some d" "small d"
    using mem_GetCopy_Some [OF mem_ready_at(1) [OF m frame_okD(1) [OF sc], of a b] frame_okD(1) [OF sc]]
    by (auto simp: st Back_append)
  show "exec_res clr E 2 0 True w sc (opReturn E k pc w sc)"
    by (simp add: opReturn_def st pop_append d exec_res_stop_with [OF w] sc)
qed

lemma exec_Revert: "exec_fine clr E 2 0 True (Some memoryRevert) opRevert"
  unfolding memoryRevert_def
proof (rule exec_fineI)
  fix k w sc and pc :: u64
  assume w: "evm_ok clr E w" and sc: "frame_ok E sc" and n: "2 \<le> length (Stk sc)"
    and m: "mem_ready (Some (mem_at 0 1)) (Stk sc) (Mem sc)"
  obtain st a b where st: "Stk sc = st @ [b, a]" using stack2 [OF n] by auto
  obtain d where d: "mem_GetCopy (Mem sc) (Uint64 a) (Uint64 b) = Some d" "small d"
    using mem_GetCopy_Some [OF mem_ready_at(1) [OF m frame_okD(1) [OF sc], of a b] frame_okD(1) [OF sc]]
    by (auto simp: st Back_append)
  show "exec_res clr E 2 0 True w sc (opRevert E k pc w sc)"
    by (simp add: opRevert_def st pop_append d exec_res_stop_with_data [OF w] sc)
qed

lemma exec_Undefined: "exec_fine clr E 0 0 True None opUndefined"
  by (rule exec_fineI) (simp add: opUndefined_def go_index_def exec_res_fail_same)

lemma exec_Selfdestruct: "exec_fine clr E 1 0 True None opSelfdestruct"
proof (rule exec_fineI)
  fix k w sc and pc :: u64
  assume w: "evm_ok clr E w" and sc: "frame_ok E sc" and n: "1 \<le> length (Stk sc)"
  obtain st a where st: "Stk sc = st @ [a]" using stack1 [OF n] by auto
  obtain x w1 where r: "reads (\<lambda>s. GetBalance s (caddress (Con sc))) w = (x, w1)" "still E w w1" using reads_GetBalance [OF w] by blast
  define w2 where "w2 = writes (\<lambda>s. snd (AddBalance s (Bytes20 a) x)) w1"
  define w3 where "w3 = writes (\<lambda>s. snd (SelfDestruct s (caddress (Con sc)))) w2"
  note o1 = still_ok [OF w r(2)]
  have s2: "soft E w w2" using soft_trans [OF soft_still [OF w r(2)] soft_AddBalance [OF o1]] by (simp add: w2_def)
  have s3: "soft E w w3" using soft_trans [OF s2 soft_SelfDestruct [OF soft_ok [OF w s2]]] by (simp add: w3_def)
  show "exec_res clr E 1 0 True w sc (opSelfdestruct E k pc w sc)"
    using exec_res_protected [OF w sc]
    by (simp add: opSelfdestruct_def st stack_simps r(1) flip: w2_def w3_def) (simp add: exec_res_soft(2) [OF w s3] sc)
qed

lemma exec_Selfdestruct6780: "exec_fine clr E 1 0 True None opSelfdestruct6780"
proof (rule exec_fineI)
  fix k w sc and pc :: u64
  assume w: "evm_ok clr E w" and sc: "frame_ok E sc" and n: "1 \<le> length (Stk sc)"
  obtain st a where st: "Stk sc = st @ [a]" using stack1 [OF n] by auto
  obtain x w1 where r: "reads (\<lambda>s. GetBalance s (caddress (Con sc))) w = (x, w1)" "still E w w1" using reads_GetBalance [OF w] by blast
  define w2 where "w2 = writes (\<lambda>s. snd (SubBalance s (caddress (Con sc)) x)) w1"
  define w3 where "w3 = writes (\<lambda>s. snd (AddBalance s (Bytes20 a) x)) w2"
  define w4 where "w4 = writes (\<lambda>s. snd (SelfDestruct6780 s (caddress (Con sc)))) w3"
  note o1 = still_ok [OF w r(2)]
  have s2: "soft E w w2" using soft_trans [OF soft_still [OF w r(2)] soft_SubBalance [OF o1]] by (simp add: w2_def)
  have s3: "soft E w w3" using soft_trans [OF s2 soft_AddBalance [OF soft_ok [OF w s2]]] by (simp add: w3_def)
  have s4: "soft E w w4" using soft_trans [OF s3 soft_SelfDestruct6780 [OF soft_ok [OF w s3]]] by (simp add: w4_def)
  show "exec_res clr E 1 0 True w sc (opSelfdestruct6780 E k pc w sc)"
    using exec_res_protected [OF w sc]
    by (simp add: opSelfdestruct6780_def st stack_simps r(1) flip: w2_def w3_def w4_def) (simp add: exec_res_soft(2) [OF w s4] sc)
qed

end
