(* ===== verification/VM_StepProofs.thy ===== *)
theory VM_StepProofs
  imports VM_OpProofs
begin

text \<open>
  One iteration of the interpreter on one operation: gas, memory and handler together. An
  iteration that continues has used gas; one that ends has ended with an error token, and if that
  token is the one of a normal end the invariants hold. Calls and creations are covered by what the
  EVM's call operations promise (\<open>calls_ok\<close>), which is proved of them later.
\<close>

section \<open>What the call operations promise\<close>

definition call_res :: "nat \<Rightarrow> env \<Rightarrow> evm \<Rightarrow> u64 \<Rightarrow> callres \<Rightarrow> bool" where
  "call_res clr E w gas r \<longleftrightarrow> (\<exists>ret gas' err w'. r = Some (ret, gas', err, w') \<and> evm_ok clr E w' \<and> after E w w'
     \<and> small ret \<and> gas' \<le> gas \<and> pot w' gas' \<le> pot w gas + 24000 \<and> (err \<noteq> None \<longrightarrow> view (db w') = view (db w)))"

definition create_res :: "nat \<Rightarrow> env \<Rightarrow> evm \<Rightarrow> u64 \<Rightarrow> createres \<Rightarrow> bool" where
  "create_res clr E w gas r \<longleftrightarrow> (\<exists>ret addr gas' err w'. r = Some (ret, addr, gas', err, w') \<and> evm_ok clr E w' \<and> after E w w'
     \<and> small ret \<and> gas' \<le> gas \<and> pot w' gas' \<le> pot w gas + 24000)"

text \<open>Enough room for the refund counter.\<close>

definition roomy :: "evm \<Rightarrow> u64 \<Rightarrow> bool" where
  "roomy w gas \<longleftrightarrow> pot w gas + 24000 < 2 ^ 64"

definition calls_ok :: "nat \<Rightarrow> env \<Rightarrow> nat \<Rightarrow> calls \<Rightarrow> bool" where
  "calls_ok clr E d k \<longleftrightarrow> (\<forall>w gas input. evm_ok clr E w \<and> depth w = d \<and> roomy w gas \<and> small input \<longrightarrow>
     (\<forall>caller addr val. (readOnly w \<longrightarrow> val = 0) \<longrightarrow> call_res clr E w gas (kCall k w caller addr input gas val))
     \<and> (\<forall>caller addr val. call_res clr E w gas (kCallCode k w caller addr input gas val))
     \<and> (\<forall>orig caller addr val. call_res clr E w gas (kDelegateCall k w orig caller addr input gas val))
     \<and> (\<forall>caller addr. call_res clr E w gas (kStaticCall k w caller addr input gas))
     \<and> (\<not> readOnly w \<longrightarrow> (\<forall>caller val. create_res clr E w gas (kCreate k w caller input gas val)))
     \<and> (\<not> readOnly w \<longrightarrow> (\<forall>caller val salt. create_res clr E w gas (kCreate2 k w caller input gas val salt))))"

section \<open>What a step promises\<close>

definition goes_on :: "nat \<Rightarrow> env \<Rightarrow> evm \<Rightarrow> scope \<Rightarrow> evm \<Rightarrow> scope \<Rightarrow> bool" where
  "goes_on clr E w sc w' sc' \<longleftrightarrow> evm_ok clr E w' \<and> after E w w' \<and> frame_ok E sc' \<and> length (Stk sc') \<le> StackLimit
     \<and> Gas (Con sc') < Gas (Con sc) \<and> pot w' (Gas (Con sc')) \<le> pot w (Gas (Con sc))"

definition ends :: "nat \<Rightarrow> env \<Rightarrow> evm \<Rightarrow> scope \<Rightarrow> bytes \<Rightarrow> vmerr option \<Rightarrow> evm \<Rightarrow> scope \<Rightarrow> bool" where
  "ends clr E w sc res err w' sc' \<longleftrightarrow> err \<noteq> None \<and> evm_weak E w' \<and> follows E w w' \<and> small res
     \<and> Gas (Con sc') \<le> Gas (Con sc) \<and> err \<noteq> Some ErrCodeStoreOutOfGas
     \<and> (err = Some errStopToken \<longrightarrow> evm_ok clr E w' \<and> after E w w' \<and> pot w' (Gas (Con sc')) \<le> pot w (Gas (Con sc)) + 24000)"

definition step_res :: "nat \<Rightarrow> env \<Rightarrow> evm \<Rightarrow> scope \<Rightarrow> stepres \<Rightarrow> bool" where
  "step_res clr E w sc r \<longleftrightarrow> (\<exists>x. r = Some x \<and> (case x of
      Inl (pc', w', sc') \<Rightarrow> goes_on clr E w sc w' sc'
    | Inr (res, err, w', sc') \<Rightarrow> ends clr E w sc res err w' sc'))"

definition op_good :: "nat \<Rightarrow> env \<Rightarrow> operation \<Rightarrow> bool" where
  "op_good clr E op \<longleftrightarrow> (\<forall>k pc w sc. evm_ok clr E w \<and> frame_ok E sc \<and> length (Stk sc) \<le> StackLimit
     \<and> roomy w (Gas (Con sc)) \<and> unat pc < length (Code (Con sc)) \<and> calls_ok clr E (depth w) k \<longrightarrow>
     step_res clr E w sc (exec_op E k op pc w sc))"

lemma op_goodI:
  "(\<And>k pc w sc. evm_ok clr E w \<Longrightarrow> frame_ok E sc \<Longrightarrow> length (Stk sc) \<le> StackLimit \<Longrightarrow> roomy w (Gas (Con sc)) \<Longrightarrow>
     unat pc < length (Code (Con sc)) \<Longrightarrow> calls_ok clr E (depth w) k \<Longrightarrow> step_res clr E w sc (exec_op E k op pc w sc))
   \<Longrightarrow> op_good clr E op"
  by (simp add: op_good_def)

text \<open>Leaving with an error before the handler has run.\<close>

lemma step_res_leave:
  assumes "evm_ok clr E w" and "calm E w w'" and "spent (Con sc) (Con sc')" and "e \<noteq> ErrCodeStoreOutOfGas" and "e \<noteq> errStopToken"
  shows "step_res clr E w sc (leave e w' sc')"
  using assms evm_ok_weak [OF calm_ok(1) [OF assms(1,2)]] after_follows [OF calm_ok(2) [OF assms(1,2)]]
  by (simp add: step_res_def leave_def ends_def spent_def)

section \<open>From handlers to steps\<close>

definition finish :: "execres \<Rightarrow> stepres" where
  "finish r = do { ((res, err), pc, w, sc) \<leftarrow> r; Some (if err \<noteq> None then Inr (res, err, w, sc) else Inl (pc + 1, w, sc)) }"

lemma perform_finish:
  "perform E k op sz pc w sc = finish (execute op E k pc w (if sz > 0 then sc\<lparr>Mem := mem_Resize (Mem sc) sz\<rparr> else sc))"
  by (simp add: perform_def finish_def Let_def)

lemma calm_after: "calm E w w' \<Longrightarrow> after E w w'"
  using calm_sel(1,2) [of E w w'] mild_evolves mild_frozen by (auto simp: after_def follows_def calm_def)

lemma calm_pot: "calm E w w' \<Longrightarrow> g \<le> g' \<Longrightarrow> pot w' g \<le> pot w g'"
  using calm_sel(6) [of E w w'] by (simp add: pot_def word_le_nat_alt)

text \<open>\<open>ready\<close>: the state in which the handler runs.\<close>

definition ready :: "nat \<Rightarrow> env \<Rightarrow> operation \<Rightarrow> nat \<Rightarrow> nat \<Rightarrow> evm \<Rightarrow> scope \<Rightarrow> evm \<Rightarrow> scope \<Rightarrow> nat \<Rightarrow> bool" where
  "ready clr E op n q w sc w' sc' cost \<longleftrightarrow> evm_ok clr E w' \<and> calm E w w' \<and> frame_ok E sc' \<and> Stk sc' = Stk sc
     \<and> Con sc' = (Con sc)\<lparr>Gas := Gas (Con sc')\<rparr>
     \<and> unat (Gas (Con sc')) + unat (constantGas op) + cost = unat (Gas (Con sc))
     \<and> mem_ready (memorySize op) (Stk sc') (Mem sc') \<and> n \<le> length (Stk sc) \<and> length (Stk sc) + q \<le> StackLimit + n"

lemma step_res_exec:
  assumes r: "ready clr E op n q w sc w' sc' cost" and x: "exec_res clr E n q stops w' sc' res"
    and c: "stops \<or> 0 < unat (constantGas op) + cost"
  shows "step_res clr E w sc (finish res)"
proof -
  obtain ret err pc' w2 sc2 where res: "res = Some ((ret, err), pc', w2, sc2)"
    and w2: "evm_ok clr E w2" "after E w' w2" "refund (db w2) = refund (db w')" and ret: "small ret"
    and sc2: "frame_ok E sc2" "Gas (Con sc2) = Gas (Con sc')"
    and l: "err = None \<longrightarrow> length (Stk sc2) + n = length (Stk sc') + q" and s: "stops \<longrightarrow> err \<noteq> None"
    and e: "err \<noteq> Some ErrCodeStoreOutOfGas"
    using x unfolding exec_res_def by blast
  have w: "evm_ok clr E w'" "calm E w w'" and stk: "Stk sc' = Stk sc" "n \<le> length (Stk sc)" "length (Stk sc) + q \<le> StackLimit + n"
    and gas: "unat (Gas (Con sc')) + unat (constantGas op) + cost = unat (Gas (Con sc))"
    using r by (simp_all add: ready_def)
  have a: "after E w w2" using after_trans [OF calm_after [OF w(2)] w2(2)] .
  have p: "pot w2 (Gas (Con sc2)) \<le> pot w (Gas (Con sc))"
    using w2(3) calm_sel(6) [OF w(2)] sc2(2) gas by (simp add: pot_def)
  have g: "Gas (Con sc2) \<le> Gas (Con sc)" using gas sc2(2) by (simp add: word_le_nat_alt)
  show ?thesis
  proof (cases err)
    case None
    then have "goes_on clr E w sc w2 sc2"
      using w2(1) a sc2 l stk s c gas p by (auto simp: goes_on_def word_less_nat_alt)
    then show ?thesis using res None by (simp add: step_res_def finish_def)
  next
    case (Some x)
    then have "ends clr E w sc ret err w2 sc2"
      using evm_ok_weak [OF w2(1)] w2(1) a g e p ret by (simp add: ends_def after_follows)
    then show ?thesis using res Some by (simp add: step_res_def finish_def)
  qed
qed

section \<open>Gas and memory before the handler\<close>

lemma wanted_memory_cases [consumes 1, case_names over size]:
  assumes "\<forall>f. memorySize op = Some f \<longrightarrow> (\<exists>r. f st = Some r)"
  obtains (over) b where "wanted_memory op st = Some (Inl b)"
  | (size) sz where "wanted_memory op st = Some (Inr sz)" "32 dvd unat sz" "memorySize op = None \<longrightarrow> sz = 0"
      "\<forall>f. memorySize op = Some f \<longrightarrow> (\<exists>s. f st = Some (s, False) \<and> unat s \<le> unat sz)"
proof (cases "memorySize op")
  case None
  then have "wanted_memory op st = Some (Inr 0)" by (simp add: wanted_memory_def)
  then show thesis using size None by simp
next
  case (Some f)
  then obtain s ov where f: "f st = Some (s, ov)" using assms by fastforce
  show thesis
  proof (cases "ov \<or> snd (SafeMul (toWordSize s) 32)")
    case True
    then show thesis using over Some f by (auto simp: wanted_memory_def split_def Let_def)
  next
    case False
    let ?sz = "toWordSize s * 32"
    have u: "unat ?sz = 32 * ((unat s + 31) div 32)"
      using False by (simp add: SafeMul_def u64_simps toWordSize_exact)
    have "wanted_memory op st = Some (Inr ?sz)"
      using False Some f by (simp add: wanted_memory_def split_def Let_def) (simp add: SafeMul_def)
    moreover have "unat s \<le> unat ?sz" unfolding u by presburger
    ultimately show thesis using size Some f False u by simp
  qed
qed

text \<open>What the table says of an operation.\<close>

definition entry :: "operation \<Rightarrow> nat \<Rightarrow> nat \<Rightarrow> bool" where
  "entry op n q \<longleftrightarrow> op_minStack op = int n \<and> op_maxStack op = int StackLimit + int n - int q
     \<and> (\<forall>f st. memorySize op = Some f \<and> n \<le> length st \<longrightarrow> (\<exists>r. f st = Some r))
     \<and> (memorySize op \<noteq> None \<longrightarrow> dynamicGas op \<noteq> None)"

lemma mem_ready_resized:
  assumes m: "mem_wf m" and sz: "unat sz \<le> mem_max_size" "32 dvd unat sz"
    and f: "\<forall>f. ms = Some f \<longrightarrow> (\<exists>s. f st = Some (s, False) \<and> unat s \<le> unat sz)"
  defines "m' \<equiv> snd (memoryGasCost m sz)"
  shows "mem_wf (if sz > 0 then mem_Resize m' sz else m')" "mem_ready ms st (if sz > 0 then mem_Resize m' sz else m')"
proof -
  note s = mem_step_wf [OF m sz]
  have z: "\<not> sz > 0 \<Longrightarrow> sz = 0" by (simp add: word_gt_0)
  show "mem_wf (if sz > 0 then mem_Resize m' sz else m')" using s(1) m z by (auto simp: m'_def)
  show "mem_ready ms st (if sz > 0 then mem_Resize m' sz else m')"
  proof (cases ms)
    case (Some f')
    then obtain x where "f' st = Some (x, False)" "unat x \<le> unat sz" using f by blast
    moreover have "unat sz \<le> length (store (if sz > 0 then mem_Resize m' sz else m'))" using s(2) z by (auto simp: m'_def)
    ultimately show ?thesis using Some by (auto simp: mem_ready_def)
  qed (simp add: mem_ready_def)
qed

lemma stack_check:
  assumes "entry op n q" and "\<not> int (length st) < op_minStack op" and "\<not> int (length st) > op_maxStack op"
  shows "n \<le> length st" "length st + q \<le> StackLimit + n"
  using assms by (simp_all add: entry_def)

lemma step_res_stack:
  assumes "evm_ok clr E w" and "int (length (Stk sc)) < op_minStack op \<or> int (length (Stk sc)) > op_maxStack op \<or> Gas (Con sc) < constantGas op"
  shows "step_res clr E w sc (exec_op E k op pc w sc)"
  using assms by (auto simp: exec_op_def Let_def intro!: step_res_leave [OF assms(1) calm_refl [OF assms(1)]])

lemma step_res_plain:
  assumes w: "evm_ok clr E w" and sc: "frame_ok E sc" and e: "entry op n q" and d: "dynamicGas op = None"
    and h: "\<And>sc'. ready clr E op n q w sc w sc' 0 \<Longrightarrow> step_res clr E w sc (finish (execute op E k pc w sc'))"
  shows "step_res clr E w sc (exec_op E k op pc w sc)"
proof (cases "int (length (Stk sc)) < op_minStack op \<or> int (length (Stk sc)) > op_maxStack op \<or> Gas (Con sc) < constantGas op")
  case True
  then show ?thesis using step_res_stack [OF w] by blast
next
  case False
  let ?sc = "sc\<lparr>Con := (Con sc)\<lparr>Gas := Gas (Con sc) - constantGas op\<rparr>\<rparr>"
  have m: "memorySize op = None" using e d by (auto simp: entry_def)
  have st: "n \<le> length (Stk sc)" "length (Stk sc) + q \<le> StackLimit + n" using stack_check [OF e] False by auto
  have "ready clr E op n q w sc w ?sc 0"
    using st False w calm_refl [OF w] sc m
    by (simp add: ready_def frame_ok_def con_ok_def mem_ready_def word_le_nat_alt unat_sub not_less)
  then show ?thesis using h [of ?sc] False d by (simp add: exec_op_def Let_def perform_finish)
qed

lemma step_res_dyn:
  assumes w: "evm_ok clr E w" and sc: "frame_ok E sc" and e: "entry op n q" and d: "dynamicGas op = Some g"
    and g: "gas_fine clr E n mm Q g" and mm: "mm \<or> memorySize op = None"
    and h: "\<And>w' sc' cost. ready clr E op n q w sc w' sc' cost \<Longrightarrow> Q (Stk sc) w' cost \<Longrightarrow>
      step_res clr E w sc (finish (execute op E k pc w' sc'))"
  shows "step_res clr E w sc (exec_op E k op pc w sc)"
proof (cases "int (length (Stk sc)) < op_minStack op \<or> int (length (Stk sc)) > op_maxStack op \<or> Gas (Con sc) < constantGas op")
  case True
  then show ?thesis using step_res_stack [OF w] by blast
next
  case False
  let ?c = "(Con sc)\<lparr>Gas := Gas (Con sc) - constantGas op\<rparr>"
  have st: "n \<le> length (Stk sc)" "length (Stk sc) + q \<le> StackLimit + n" using stack_check [OF e] False by auto
  have sp: "spent (Con sc) ?c" using False by (simp add: spent_def word_sub_le not_less)
  have ms: "\<forall>f. memorySize op = Some f \<longrightarrow> (\<exists>r. f (Stk sc) = Some r)" using e st(1) by (simp add: entry_def)
  from ms show ?thesis
  proof (cases rule: wanted_memory_cases)
    case (over b)
    then show ?thesis using False d sp by (simp add: exec_op_def Let_def step_res_leave [OF w calm_refl [OF w]])
  next
    case (size sz)
    have "gas_res E (Q (Stk sc)) w ?c (Mem sc) sz (g E w ?c (Stk sc) (Mem sc) sz)"
      by (rule gas_fineD [OF g w st(1) frame_okD(1) [OF sc]]) (use mm size in auto)
    then obtain cost err w' c' m' where r: "g E w ?c (Stk sc) (Mem sc) sz = Some ((cost, err), w', c', m')"
      and w': "calm E w w'" and c': "spent ?c c'" and ok: "err = None \<Longrightarrow> c' = ?c" "err = None \<Longrightarrow> Q (Stk sc) w' (unat cost)"
      "err = None \<Longrightarrow> m' = snd (memoryGasCost (Mem sc) sz)" "err = None \<Longrightarrow> unat sz \<le> mem_max_size"
      by (rule gas_resE) blast
    show ?thesis
    proof (cases "err = None \<and> \<not> Gas c' < cost")
      case True
      define m2 where "m2 = (if sz > 0 then mem_Resize m' sz else m')"
      let ?sc = "sc\<lparr>Con := ?c\<lparr>Gas := Gas ?c - cost\<rparr>, Mem := m2\<rparr>"
      have err: "err = None" and le: "cost \<le> Gas ?c" using True ok(1) by auto
      have m: "mem_wf m2" "mem_ready (memorySize op) (Stk sc) m2"
        using mem_ready_resized [OF frame_okD(1) [OF sc] ok(4) [OF err] size(2,4)] by (simp_all only: m2_def ok(3) [OF err])
      have u: "unat (Gas (Con sc) - constantGas op - cost) + unat (constantGas op) + unat cost = unat (Gas (Con sc))"
        using False le by (auto simp: word_le_nat_alt unat_sub not_less)
      have "ready clr E op n q w sc w' ?sc (unat cost)"
        using st calm_ok(1) [OF w w'] w' sc m u by (simp add: ready_def frame_ok_def con_ok_def)
      then have "step_res clr E w sc (finish (execute op E k pc w' ?sc))" using h ok(2) [OF err] by blast
      moreover have "exec_op E k op pc w sc = finish (execute op E k pc w' ?sc)"
        using False d size(1) r True ok(1) by (cases sc) (simp add: exec_op_def Let_def perform_finish m2_def)
      ultimately show ?thesis by simp
    next
      case no: False
      then show ?thesis using False d size(1) r w' spent_trans [OF sp c']
        by (cases err) (simp_all add: exec_op_def Let_def step_res_leave [OF w])
    qed
  qed
qed

section \<open>Ordinary operations\<close>

lemma exec_fineD:
  "exec_fine clr E n q stops ms f \<Longrightarrow> evm_ok clr E w \<Longrightarrow> frame_ok E sc \<Longrightarrow> n \<le> length (Stk sc) \<Longrightarrow>
   mem_ready ms (Stk sc) (Mem sc) \<Longrightarrow> unat pc < length (Code (Con sc)) \<Longrightarrow> exec_res clr E n q stops w sc (f E k pc w sc)"
  by (simp add: exec_fine_def)

lemma ready_Code: "ready clr E op n q w sc w' sc' cost \<Longrightarrow> Code (Con sc') = Code (Con sc)"
  unfolding ready_def by (metis Contract.select_convs(4) Contract.surjective Contract.update_convs(9))

lemma step_res_fine:
  assumes "ready clr E op n q w sc w' sc' cost" and "exec_fine clr E n q stops (memorySize op) f"
    and "unat pc < length (Code (Con sc))" and "stops \<or> 0 < unat (constantGas op) + cost"
  shows "step_res clr E w sc (finish (f E k pc w' sc'))"
proof (rule step_res_exec [OF assms(1) exec_fineD [OF assms(2)] assms(4)])
  show "unat pc < length (Code (Con sc'))" using assms(3) ready_Code [OF assms(1)] by simp
qed (use assms(1) in \<open>auto simp: ready_def\<close>)

lemma op_good_plain:
  assumes "entry op n q" and "dynamicGas op = None" and "exec_fine clr E n q stops (memorySize op) (execute op)"
    and "stops \<or> constantGas op \<noteq> 0"
  shows "op_good clr E op"
proof (rule op_goodI)
  fix k w sc and pc :: u64
  assume w: "evm_ok clr E w" and sc: "frame_ok E sc" and pc: "unat pc < length (Code (Con sc))"
  have c: "stops \<or> 0 < unat (constantGas op) + 0" using assms(4) by (simp add: unat_gt_0)
  show "step_res clr E w sc (exec_op E k op pc w sc)"
    by (rule step_res_plain [OF w sc assms(1,2) step_res_fine [OF _ assms(3) pc c]])
qed

lemma op_good_dyn:
  assumes "entry op n q" and "dynamicGas op = Some g" and "exec_fine clr E n q stops (memorySize op) (execute op)"
    and "gas_fine clr E n mm Q g" and "mm \<or> memorySize op = None" and "stops \<or> constantGas op \<noteq> 0 \<or> Q = some_cost"
  shows "op_good clr E op"
proof (rule op_goodI)
  fix k w sc and pc :: u64
  assume w: "evm_ok clr E w" and sc: "frame_ok E sc" and pc: "unat pc < length (Code (Con sc))"
  show "step_res clr E w sc (exec_op E k op pc w sc)"
  proof (rule step_res_dyn [OF w sc assms(1,2,4,5)])
    fix w' sc' cost
    assume r: "ready clr E op n q w sc w' sc' cost" and q: "Q (Stk sc) w' cost"
    have "stops \<or> 0 < unat (constantGas op) + cost" using assms(6) q by (auto simp: unat_gt_0 some_cost_def)
    then show "step_res clr E w sc (finish (execute op E k pc w' sc'))" by (rule step_res_fine [OF r assms(3) pc])
  qed
qed

section \<open>Self-destruction\<close>

lemma world_ok_refund:
  assumes "world_ok clr H s" and "refunded H s t r" and "unat (refund s) \<le> unat r"
  shows "world_ok clr H t"
proof -
  have v: "evolves H s t" "view t = (view s)\<lparr>vRefund := r\<rparr>" using assms(2) by (simp_all add: refunded_def)
  show ?thesis
    by (rule world_ok_tame [OF assms(1) v(1)])
      (simp_all add: v(2) tame_same_accounts refunded_refund [OF assms(2)] assms(3))
qed

lemma AddRefund_ok:
  assumes w: "evm_ok clr E w" and r: "unat (refund (db w)) + unat x < 2 ^ 64"
  shows "evm_ok clr E (writes (\<lambda>s. AddRefund s x) w)" "follows E w (writes (\<lambda>s. AddRefund s x) w)"
    "unat (refund (db (writes (\<lambda>s. AddRefund s x) w))) = unat (refund (db w)) + unat x"
proof -
  have a: "refunded (keccak E) (db w) (AddRefund (db w) x) (refund (db w) + x)" by (rule refunded_Add [OF evm_ok_sinv [OF w]])
  have u: "unat (refund (db w) + x) = unat (refund (db w)) + unat x" using r by (simp add: u64_simps)
  have "world_ok clr (keccak E) (AddRefund (db w) x)"
    by (rule world_ok_refund [OF _ a]) (use w u in \<open>simp_all add: evm_ok_def\<close>)
  then show "evm_ok clr E (writes (\<lambda>s. AddRefund s x) w)" using w by (simp add: evm_ok_def writes_def)
  show "follows E w (writes (\<lambda>s. AddRefund s x) w)" using a by (simp add: follows_def writes_def refunded_def)
  show "unat (refund (db (writes (\<lambda>s. AddRefund s x) w))) = unat (refund (db w)) + unat x"
    using refunded_refund [OF a] u by (simp add: writes_def)
qed

lemma op_good_selfdestruct:
  assumes e: "entry op 1 0" "memorySize op = None" and d: "dynamicGas op = Some g" and g: "sd_fine clr E g"
    and x: "exec_fine clr E 1 0 True None (execute op)"
    and ro: "\<And>k pc w sc. readOnly w \<Longrightarrow> execute op E k pc w sc = fail ErrWriteProtection pc w sc"
  shows "op_good clr E op"
proof (rule op_goodI)
  fix k w sc and pc :: u64
  assume w: "evm_ok clr E w" and sc: "frame_ok E sc" and pc: "unat pc < length (Code (Con sc))" and room: "roomy w (Gas (Con sc))"
  show "step_res clr E w sc (exec_op E k op pc w sc)"
  proof (cases "int (length (Stk sc)) < op_minStack op \<or> int (length (Stk sc)) > op_maxStack op \<or> Gas (Con sc) < constantGas op")
    case True
    then show ?thesis using step_res_stack [OF w] by blast
  next
    case False
    let ?c = "(Con sc)\<lparr>Gas := Gas (Con sc) - constantGas op\<rparr>"
    have st: "1 \<le> length (Stk sc)" using stack_check [OF e(1)] False by auto
    obtain cost w1 b where r: "g E w ?c (Stk sc) (Mem sc) 0 =
        gas_ok cost (if b then writes (\<lambda>s. AddRefund s SelfdestructRefundGas) w1 else w1) ?c (Mem sc)" and w1: "calm E w w1"
      using g w st unfolding sd_fine_def by blast
    define w2 where "w2 = (if b then writes (\<lambda>s. AddRefund s SelfdestructRefundGas) w1 else w1)"
    have o1: "evm_ok clr E w1" using calm_ok(1) [OF w w1] .
    have "unat (refund (db w1)) + 24000 < 2 ^ 64" using room calm_sel(6) [OF w1] by (simp add: roomy_def pot_def)
    then have o2: "evm_ok clr E w2" "follows E w1 w2" "unat (refund (db w2)) \<le> unat (refund (db w)) + 24000"
      using AddRefund_ok [OF o1, of SelfdestructRefundGas] o1 follows_refl [OF o1] calm_sel(6) [OF w1] by (simp_all add: w2_def)
    have f2: "follows E w w2" using follows_trans [OF after_follows [OF calm_after [OF w1]] o2(2)] .
    have ge: "Gas ?c \<le> Gas (Con sc)" using False by (simp add: word_sub_le not_less)
    show ?thesis
    proof (cases "Gas ?c < cost")
      case True
      have "exec_op E k op pc w sc = leave ErrOutOfGas w2 (sc\<lparr>Con := ?c\<rparr>)"
        using True False d e(2) r by (cases sc) (simp add: exec_op_def Let_def wanted_memory_def gas_ok_def w2_def)
      then show ?thesis using evm_ok_weak [OF o2(1)] f2 ge by (simp add: leave_def step_res_def ends_def)
    next
      case c: False
      let ?sc = "sc\<lparr>Con := ?c\<lparr>Gas := Gas ?c - cost\<rparr>\<rparr>"
      have eq: "exec_op E k op pc w sc = finish (execute op E k pc w2 ?sc)"
        using c False d e(2) r by (cases sc) (simp add: exec_op_def Let_def wanted_memory_def gas_ok_def w2_def perform_finish)
      have sc2: "frame_ok E ?sc" using sc by (simp add: frame_ok_def con_ok_def)
      have "exec_res clr E 1 0 True w2 ?sc (execute op E k pc w2 ?sc)"
        by (rule exec_fineD [OF x o2(1) sc2]) (use st pc in \<open>simp_all add: mem_ready_def\<close>)
      then obtain ret err pc' w3 sc3 where res: "execute op E k pc w2 ?sc = Some ((ret, err), pc', w3, sc3)"
        and w3: "evm_ok clr E w3" "after E w2 w3" "refund (db w3) = refund (db w2)" and ret: "small ret"
        and sc3: "Gas (Con sc3) = Gas (Con ?sc)" and err: "err \<noteq> None" "err \<noteq> Some ErrCodeStoreOutOfGas"
        unfolding exec_res_def by blast
      have g3: "Gas (Con sc3) \<le> Gas (Con sc)" using sc3 ge c word_sub_le [of cost "Gas ?c"] by (simp add: not_less)
      have "\<not> readOnly w" if "err = Some errStopToken"
        using that res ro [of w2 k pc ?sc] f2 by (auto simp: follows_def fail_def)
      moreover have "follows E w w3" using follows_trans [OF f2 after_follows [OF w3(2)]] .
      moreover have "pot w3 (Gas (Con sc3)) \<le> pot w (Gas (Con sc)) + 24000"
        using w3(3) o2(3) g3 by (simp add: pot_def word_le_nat_alt)
      ultimately have "ends clr E w sc ret err w3 sc3"
        using err evm_ok_weak [OF w3(1)] w3(1) ret g3 by (auto simp: ends_def after_def)
      then show ?thesis using eq res err(1) by (simp add: step_res_def finish_def)
    qed
  qed
qed

section \<open>Storage writes\<close>

abbreviation v_store :: "address \<Rightarrow> hash \<Rightarrow> hash \<Rightarrow> sview \<Rightarrow> sview" where
  "v_store a k y \<equiv> v_upd a (\<lambda>w. w\<lparr>avState := (avState w)(k := y)\<rparr>)"

lemma cleared_store:
  assumes "\<And>k. vAccounts v a = None \<Longrightarrow> avCommitted (fresh_view v a) k = 0"
  shows "cleared (v_store a k y v) =
    (if vCommittedAt v a k \<noteq> 0 \<and> y = 0 then insert (a, k) (cleared v) else cleared v - {(a, k)})"
  using assms
  by (auto simp: cleared_def v_upd_def v_acct_def vget_defs split: option.splits if_splits)

lemma code_store:
  "vCodeAt (v_store a k y v) b = vCodeAt v b" "vCodeHashAt (v_store a k y v) b = 0 \<Longrightarrow> vCodeHashAt v b = 0"
  by (auto simp: v_upd_def v_acct_def vget_defs fresh_view_sel split: option.splits if_splits)

lemma card_toggle:
  assumes "finite C" and "clr * card C \<le> R"
    and "R + (if new then clr else 0) \<le> r + (if p \<in> C then clr else 0)"
  shows "clr * card (if new then insert p C else C - {p}) \<le> (r :: nat)"
proof (cases "p \<in> C")
  case True
  then obtain n where "card C = Suc n" using card_Suc_Diff1 [OF assms(1)] by metis
  then show ?thesis using assms True by (auto simp: insert_absorb split: if_splits)
next
  case False
  then show ?thesis using assms by (auto split: if_splits)
qed

lemma world_ok_store:
  assumes w: "world_ok clr H s" and m: "mild H s s1" and f: "refunded H s1 s2 r"
    and mv: "unat (refund s) + (if vCommittedAt (view s) a k \<noteq> 0 \<and> y = 0 then clr else 0)
       \<le> unat r + (if vCommittedAt (view s) a k \<noteq> 0 \<and> vStateAt (view s) a k = 0 then clr else 0)"
  shows "world_ok clr H (snd (SetState s2 a k y))" "evolves H s (snd (SetState s2 a k y))"
    "refund (snd (SetState s2 a k y)) = r"
proof -
  let ?t = "snd (SetState s2 a k y)"
  obtain al where v1: "view s1 = (view s)\<lparr>vAccessList := al\<rparr>" using m by (auto simp: mild_def)
  have v2: "view s2 = (view s)\<lparr>vAccessList := al, vRefund := r\<rparr>" and e12: "evolves H s1 s2"
    using f v1 by (simp_all add: refunded_def)
  have i2: "sinv H s2" using evolves_sinv [OF e12] .
  note t = SetState_spec [OF i2, of a k y]
  have e2: "evolves H s s2" using evolves_trans [OF mild_evolves [OF m] e12] .
  show e: "evolves H s ?t" using evolves_trans [OF e2 mutates_evolves [OF t(1)]] .
  have same: "vAccounts (view s2) = vAccounts (view s)" by (simp add: v2)
  have rd: "storage_backed (reader s2)" using w evolves_static(1) [OF e2] by (simp add: world_ok_def)
  have get: "vCommittedAt (view s2) = vCommittedAt (view s)" "vStateAt (view s2) = vStateAt (view s)"
    "vCodeAt (view s2) = vCodeAt (view s)" "vCodeHashAt (view s2) = vCodeHashAt (view s)" "cleared (view s2) = cleared (view s)"
    by (simp_all add: vget_defs cleared_def same fun_eq_iff)
  have cl: "cleared (view ?t) = (if vCommittedAt (view s) a k \<noteq> 0 \<and> y = 0 then insert (a, k) (cleared (view s))
      else cleared (view s) - {(a, k)})"
    using cleared_store [of "view s2" a k y] fresh_committed [OF _ rd] by (simp add: t(2) get)
  show r: "refund ?t = r" using arg_cong [OF t(2), of vRefund] refunded_refund [OF f] by (simp add: vRefund_upd)
  have ro: "finite (cleared (view s))" "clr * card (cleared (view s)) \<le> unat (refund s)"
    using w by (simp_all add: world_ok_def refund_ok_def)
  have "refund_ok clr (view ?t)"
    unfolding refund_ok_def cl using ro card_toggle [OF ro, of "vCommittedAt (view s) a k \<noteq> 0 \<and> y = 0" "unat r" "(a, k)"] mv r
    by (simp add: cleared_def)
  moreover have "codes_small (view ?t)"
    using w code_store(1) [of a k y "view s2"] by (simp add: world_ok_def codes_small_def t(2) get)
  moreover have "zero_loaded ?t"
    using w code_store(2) [of a k y "view s2"] evolves_loaded [OF e] by (auto simp: world_ok_def zero_loaded_def t(2) get)
  moreover have "storage_backed (reader ?t)" using w evolves_static(1) [OF e] by (simp add: world_ok_def)
  ultimately show "world_ok clr H ?t" using evolves_sinv [OF e] by (simp add: world_ok_def)
qed

lemma op_good_sstore:
  assumes e: "entry op 2 0" "memorySize op = None" and d: "dynamicGas op = Some g" and g: "sstore_fine clr E g"
    and x: "execute op = opSstore"
  shows "op_good clr E op"
proof (rule op_goodI)
  fix k w sc and pc :: u64
  assume w: "evm_ok clr E w" and sc: "frame_ok E sc" and l: "length (Stk sc) \<le> StackLimit" and room: "roomy w (Gas (Con sc))"
  show "step_res clr E w sc (exec_op E k op pc w sc)"
  proof (cases "int (length (Stk sc)) < op_minStack op \<or> int (length (Stk sc)) > op_maxStack op \<or> Gas (Con sc) < constantGas op")
    case True
    then show ?thesis using step_res_stack [OF w] by blast
  next
    case False
    let ?c = "(Con sc)\<lparr>Gas := Gas (Con sc) - constantGas op\<rparr>" and ?a = "caddress (Con sc)"
    obtain st a y where st: "Stk sc = st @ [y, a]" using stack2 [of "Stk sc"] stack_check [OF e(1)] False by auto
    have "sstore_res clr E w ?c a y (Mem sc) (g E w ?c (Stk sc) (Mem sc) 0)"
      using g w unfolding sstore_fine_def by (simp add: st Back_append)
    then obtain cost err w1 s where r: "g E w ?c (Stk sc) (Mem sc) 0 = Some ((cost, err), w1\<lparr>db := s\<rparr>, ?c, Mem sc)"
      and w1: "calm E w w1" and s: "evolves (keccak E) (db w1) s"
      and ok: "err = None \<longrightarrow> 1 \<le> unat cost \<and> (\<exists>r. refunded (keccak E) (db w1) s r
        \<and> refund_moves clr cost (vCommittedAt (view (db w)) (caddress ?c) a) (vStateAt (view (db w)) (caddress ?c) a) y (refund (db w)) r)"
      unfolding sstore_res_def by blast
    let ?w2 = "w1\<lparr>db := s\<rparr>"
    have f2: "follows E w ?w2" 
      by (rule follows_trans [OF after_follows [OF calm_after [OF w1]]]) (simp add: follows_def s)
    have k2: "evm_weak E ?w2" using calm_ok(1) [OF w w1] evolves_sinv [OF s] by (simp add: evm_weak_def evm_ok_def)
    have ge: "Gas ?c \<le> Gas (Con sc)" using False by (simp add: word_sub_le not_less)
    show ?thesis
    proof (cases "err = None \<and> \<not> Gas ?c < cost")
      case no: False
      have "exec_op E k op pc w sc = leave (case err of None \<Rightarrow> ErrOutOfGas | Some e \<Rightarrow> WrapErr ErrOutOfGas e) ?w2 (sc\<lparr>Con := ?c\<rparr>)"
        using no False d e(2) r by (cases sc; cases err) (simp_all add: exec_op_def Let_def wanted_memory_def)
      then show ?thesis using k2 f2 ge by (auto simp: leave_def step_res_def ends_def split: option.split)
    next
      case c: True
      let ?sc = "sc\<lparr>Con := ?c\<lparr>Gas := Gas ?c - cost\<rparr>\<rparr>"
      have eq: "exec_op E k op pc w sc = finish (opSstore E k pc ?w2 ?sc)"
        using c False d e(2) r x by (cases sc) (simp add: exec_op_def Let_def wanted_memory_def perform_finish)
      obtain r where cost: "1 \<le> unat cost" and rf: "refunded (keccak E) (db w1) s r"
        and mv: "refund_moves clr cost (vCommittedAt (view (db w)) ?a a) (vStateAt (view (db w)) ?a a) y (refund (db w)) r"
        using ok c by auto
      have u: "unat (Gas (Con ?sc)) + unat (constantGas op) + unat cost = unat (Gas (Con sc))"
        using False c by (auto simp: word_le_nat_alt unat_sub not_less)
      have "unat (refund (db w)) + 1000 * unat cost < 2 ^ 64" using room u by (simp add: roomy_def pot_def)
      then have r: "unat r \<le> unat (refund (db w)) + 1000 * unat cost"
        "unat (refund (db w)) + (if vCommittedAt (view (db w)) ?a a \<noteq> 0 \<and> y = 0 then clr else 0)
         \<le> unat r + (if vCommittedAt (view (db w)) ?a a \<noteq> 0 \<and> vStateAt (view (db w)) ?a a = 0 then clr else 0)"
        using mv by (simp_all add: refund_moves_def)
      let ?w3 = "writes (\<lambda>s. snd (SetState s ?a a y)) ?w2" and ?sc3 = "?sc\<lparr>Stk := st\<rparr>"
      have g3: "Gas (Con ?sc3) < Gas (Con sc)" using u cost by (simp add: word_less_nat_alt)
      show ?thesis
      proof (cases "readOnly w")
        case True
        then have "opSstore E k pc ?w2 ?sc = fail ErrWriteProtection pc ?w2 ?sc"
          using f2 by (simp add: opSstore_def follows_def)
        then show ?thesis using eq k2 f2 g3 by (simp add: finish_def fail_def step_res_def ends_def)
      next
        case no: False
        have "readOnly w1 = readOnly w" using calm_sel(2) [OF w1] .
        then have h: "opSstore E k pc ?w2 ?sc = ok pc ?w3 ?sc3"
          using no by (simp add: opSstore_def st pop_append)
        have m: "mild (keccak E) (db w) (db w1)" using w1 by (simp add: calm_def)
        have "world_ok clr (keccak E) (db w)" using w by (simp add: evm_ok_def)
        note t = world_ok_store [OF this m rf r(2)]
        have "evm_ok clr E ?w3" using t(1) calm_ok(1) [OF w w1] by (simp add: evm_ok_def writes_def)
        moreover have "after E w ?w3" using t(2) no f2 by (simp add: after_def follows_def writes_def)
        moreover have "frame_ok E ?sc3" using sc by (simp add: frame_ok_def con_ok_def)
        moreover have "pot ?w3 (Gas (Con ?sc3)) \<le> pot w (Gas (Con sc))"
          using t(3) r(1) u by (simp add: pot_def writes_def)
        moreover have "length (Stk ?sc3) \<le> StackLimit" using l by (simp add: st)
        ultimately have "goes_on clr E w sc ?w3 ?sc3" using g3 by (simp add: goes_on_def)
        then show ?thesis using eq h by (simp add: finish_def ok_def step_res_def)
      qed
    qed
  qed
qed

section \<open>Calls\<close>

lemma gas_fine_mono: "gas_fine clr E n mm Q g \<Longrightarrow> n \<le> n' \<Longrightarrow> gas_fine clr E n' mm Q g"
  unfolding gas_fine_def using order_trans by blast

lemma mem_ready_max:
  assumes "mem_ready (Some (mem_max i j k l)) st m" and "mem_wf m" and "Back st i = Some off" and "Back st j = Some len"
    and "Back st k = Some off'" and "Back st l = Some len'"
  shows "mem_covers m (Uint64 off) (Uint64 len)" "mem_covers m (Uint64 off') (Uint64 len')"
proof -
  obtain s where s: "mem_max i j k l st = Some (s, False)" "unat s \<le> length (store m)"
    using assms(1) by (auto simp: mem_ready_def)
  obtain x ox y oy where xy: "calcMemSize64 off len = (x, ox)" "calcMemSize64 off' len' = (y, oy)" by fastforce
  have "\<not> ox \<and> \<not> oy \<and> s = (if x > y then x else y)"
    using s(1) assms(3-6) xy by (auto simp: mem_max_def mem_at_def split: if_splits)
  then have "calcMemSize64 off len = (x, False)" "calcMemSize64 off' len' = (y, False)"
    "unat x \<le> length (store m)" "unat y \<le> length (store m)"
    using xy s(2) by (auto simp: word_less_nat_alt split: if_splits)
  then show "mem_covers m (Uint64 off) (Uint64 len)" "mem_covers m (Uint64 off') (Uint64 len')"
    using covers_window(1) [OF _ _ assms(2)] by blast+
qed

text \<open>The gas of the frame and of the call it makes add up to no more than what the frame had, with a margin.\<close>

lemma step_res_after_call:
  assumes r: "ready clr E op n 1 w sc w' sc' cost" and c: "call_res clr E w' gas r"
    and gas: "unat gas + 24 \<le> unat (constantGas op) + cost"
    and st: "length st + n = length (Stk sc)" and cov: "mem_covers (Mem sc') (Uint64 ro) (Uint64 rs)"
  shows "step_res clr E w sc (finish (do { r \<leftarrow> r; after_call r ro rs pc (sc'\<lparr>Stk := st\<rparr>) }))"
proof -
  obtain ret gas' err w2 where res: "r = Some (ret, gas', err, w2)" and w2: "evm_ok clr E w2" "after E w' w2"
    and ret: "small ret" and g': "gas' \<le> gas" and p: "pot w2 gas' \<le> pot w' gas + 24000"
    using c unfolding call_res_def by blast
  have ok: "evm_ok clr E w'" "calm E w w'" "frame_ok E sc'" "n \<le> length (Stk sc)" "length (Stk sc) + 1 \<le> StackLimit + n"
    and u: "unat (Gas (Con sc')) + unat (constantGas op) + cost = unat (Gas (Con sc))" using r by (simp_all add: ready_def)
  define c2 where "c2 = RefundGas (Con sc') gas'"
  have room: "unat (Gas (Con sc')) + unat gas' < 2 ^ 64"
    using u gas g' unat_u64_lt [of "Gas (Con sc)"] by (simp add: word_le_nat_alt del: unat_u64_lt)
  have g2: "unat (Gas c2) = unat (Gas (Con sc')) + unat gas'" using room by (simp add: c2_def RefundGas_def u64_simps)
  obtain m where m: "(if err = None \<or> err = Some ErrExecutionReverted then mem_Set (Mem sc') (Uint64 ro) (Uint64 rs) ret else Some (Mem sc')) = Some m"
    "mem_wf m" using mem_Set_Some [OF cov frame_okD(1) [OF ok(3)], of ret] frame_okD(1) [OF ok(3)]
    by (cases "err = None \<or> err = Some ErrExecutionReverted") auto
  let ?w3 = "w2\<lparr>returnData := ret\<rparr>" and ?sc3 = "sc'\<lparr>Stk := st @ [flag (err = None)], Mem := m, Con := c2\<rparr>"
  have eq: "finish (do { r \<leftarrow> r; after_call r ro rs pc (sc'\<lparr>Stk := st\<rparr>) }) = Some (Inl (pc + 1, ?w3, ?sc3))"
    using m(1) by (cases sc') (auto simp: res after_call_def stack_simps finish_def stop_with_def c2_def split: if_splits)
  have "evm_ok clr E ?w3" using w2(1) ret by (simp add: evm_ok_def)
  moreover have "after E w ?w3" using after_trans [OF calm_after [OF ok(2)] w2(2)] by (simp add: after_def follows_def)
  moreover have "con_ok (keccak E) c2" using ok(3) by (simp add: c2_def frame_ok_def con_ok_def RefundGas_def)
  moreover have "Gas c2 < Gas (Con sc)" using g2 u gas g' by (simp add: word_less_nat_alt word_le_nat_alt)
  moreover have "pot ?w3 (Gas c2) \<le> pot w (Gas (Con sc))"
    using p g2 u gas calm_sel(6) [OF ok(2)] by (simp add: pot_def)
  ultimately have "goes_on clr E w sc ?w3 ?sc3" using ok(4,5) st m(2) by (simp add: goes_on_def frame_ok_def)
  then show ?thesis unfolding eq by (simp add: step_res_def)
qed

lemma step_res_protected:
  assumes "ready clr E op n q w sc w' sc' cost"
  shows "step_res clr E w sc (finish (fail ErrWriteProtection pc w' (sc'\<lparr>Stk := st\<rparr>)))"
proof -
  have "evm_ok clr E w'" "calm E w w'" "unat (Gas (Con sc')) + unat (constantGas op) + cost = unat (Gas (Con sc))"
    using assms by (simp_all add: ready_def)
  then show ?thesis
    by (simp add: finish_def fail_def step_res_def ends_def evm_ok_weak after_follows [OF calm_after] word_le_nat_alt)
qed

lemma roomy_call:
  assumes "ready clr E op n q w sc w' sc' cost" and "roomy w (Gas (Con sc))" and "unat gas + 24 \<le> unat (Gas (Con sc))"
  shows "roomy w' gas"
  using assms calm_sel(6) [of E w w'] by (simp add: roomy_def pot_def ready_def)

lemma GetPtr_Some: "mem_covers m off sz \<Longrightarrow> mem_wf m \<Longrightarrow> \<exists>b. mem_GetPtr m off sz = Some b \<and> small b"
  using mem_GetCopy_Some by (simp add: mem_GetPtr_GetCopy)

lemma stipend:
  assumes "pays_transfer st w' cost" and "Back st 2 = Some v" and "cost < 2 ^ 64"
  shows "unat (if v \<noteq> 0 then callGasTemp w' + CallStipend else callGasTemp w') \<le> cost"
proof (cases "v = 0")
  case False
  then have "unat (callGasTemp w') + 9000 \<le> cost" using assms(1,2) by (simp add: pays_transfer_def transfers_def)
  moreover from this have "unat (callGasTemp w' + 2300) = unat (callGasTemp w') + 2300" using assms(3) by (simp add: u64_simps)
  ultimately show ?thesis using False by simp
qed (use assms(1) in \<open>simp add: pays_transfer_def\<close>)

text \<open>
  The shape of the calls that carry a value (\<open>ro\<close> tells when write protection refuses them), and of
  those that do not. \<open>kall\<close> is the EVM's call operation.
\<close>

lemma op_good_call7:
  assumes e: "entry op 7 1" "memorySize op = Some (mem_max 5 6 3 4)" and d: "dynamicGas op = Some g"
    and g: "gas_fine clr E 3 True pays_transfer g" and c: "24 \<le> unat (constantGas op)"
    and x: "\<And>k pc w sc st ol o' il i v a z args. Stk sc = st @ [ol, o', il, i, v, a, z] \<Longrightarrow>
      mem_GetPtr (Mem sc) (Uint64 i) (Uint64 il) = Some args \<Longrightarrow>
      execute op E k pc w sc = (if ro w v then fail ErrWriteProtection pc w (sc\<lparr>Stk := st\<rparr>)
        else do { r \<leftarrow> kall k w sc a args (if v \<noteq> 0 then callGasTemp w + CallStipend else callGasTemp w) v;
                  after_call r o' ol pc (sc\<lparr>Stk := st\<rparr>) })"
    and kall: "\<And>k w sc a args gas v. calls_ok clr E (depth w) k \<Longrightarrow> evm_ok clr E w \<Longrightarrow> roomy w gas \<Longrightarrow> small args \<Longrightarrow>
      \<not> ro w v \<Longrightarrow> call_res clr E w gas (kall k w sc a args gas v)"
  shows "op_good clr E op"
proof (rule op_goodI)
  fix k w sc and pc :: u64
  assume w: "evm_ok clr E w" and sc: "frame_ok E sc" and room: "roomy w (Gas (Con sc))" and k: "calls_ok clr E (depth w) k"
  show "step_res clr E w sc (exec_op E k op pc w sc)"
  proof (rule step_res_dyn [OF w sc e(1) d gas_fine_mono [OF g]])
    fix w' sc' cost
    assume r: "ready clr E op 7 1 w sc w' sc' cost" and q: "pays_transfer (Stk sc) w' cost"
    have ok: "evm_ok clr E w'" "calm E w w'" "frame_ok E sc'" "Stk sc' = Stk sc" "7 \<le> length (Stk sc)"
      and m: "mem_ready (Some (mem_max 5 6 3 4)) (Stk sc') (Mem sc')"
      and u: "unat (Gas (Con sc')) + unat (constantGas op) + cost = unat (Gas (Con sc))"
      using r e(2) by (auto simp: ready_def)
    obtain st z a v i il o' ol where st: "Stk sc' = st @ [ol, o', il, i, v, a, z]" using stack7 [of "Stk sc'"] ok(4,5) by auto
    have cov: "mem_covers (Mem sc') (Uint64 o') (Uint64 ol)" "mem_covers (Mem sc') (Uint64 i) (Uint64 il)"
      using mem_ready_max [OF m frame_okD(1) [OF ok(3)], of o' ol i il] by (simp_all add: st Back_append)
    obtain args where args: "mem_GetPtr (Mem sc') (Uint64 i) (Uint64 il) = Some args" "small args"
      using GetPtr_Some [OF cov(2) frame_okD(1) [OF ok(3)]] by blast
    let ?gas = "if v \<noteq> 0 then callGasTemp w' + CallStipend else callGasTemp w'"
    have "cost < 2 ^ 64" using u unat_u64_lt [of "Gas (Con sc)"] by (simp del: unat_u64_lt)
    moreover have "Back (Stk sc) 2 = Some v" by (simp add: ok(4) [symmetric] st Back_append)
    ultimately have gas: "unat ?gas \<le> cost" using stipend [OF q] by blast
    have k': "calls_ok clr E (depth w') k" using calm_sel(1) [OF ok(2)] k by simp
    have len: "length st + 7 = length (Stk sc)" by (simp add: ok(4) [symmetric] st)
    have rm: "roomy w' ?gas" by (rule roomy_call [OF r room]) (use gas u c in linarith)
    show "step_res clr E w sc (finish (execute op E k pc w' sc'))"
    proof (cases "ro w' v")
      case True
      then show ?thesis using step_res_protected [OF r] by (simp add: x [OF st args(1)])
    next
      case False
      have "step_res clr E w sc (finish (do { r \<leftarrow> kall k w' sc' a args ?gas v; after_call r o' ol pc (sc'\<lparr>Stk := st\<rparr>) }))"
        by (rule step_res_after_call [OF r kall [OF k' ok(1) rm args(2) False]])
          (use gas c len cov(1) in linarith | fact len cov(1))+
      then show ?thesis using False by (simp only: x [OF st args(1)] if_False)
    qed
  qed simp_all
qed

lemma op_good_call6:
  assumes e: "entry op 6 1" "memorySize op = Some (mem_max 4 5 2 3)" and d: "dynamicGas op = Some g"
    and g: "gas_fine clr E 2 True pays_call g" and c: "24 \<le> unat (constantGas op)"
    and x: "\<And>k pc w sc st ol o' il i a z args. Stk sc = st @ [ol, o', il, i, a, z] \<Longrightarrow>
      mem_GetPtr (Mem sc) (Uint64 i) (Uint64 il) = Some args \<Longrightarrow>
      execute op E k pc w sc = do { r \<leftarrow> kall k w sc a args (callGasTemp w); after_call r o' ol pc (sc\<lparr>Stk := st\<rparr>) }"
    and kall: "\<And>k w sc a args gas. calls_ok clr E (depth w) k \<Longrightarrow> evm_ok clr E w \<Longrightarrow> roomy w gas \<Longrightarrow> small args \<Longrightarrow>
      call_res clr E w gas (kall k w sc a args gas)"
  shows "op_good clr E op"
proof (rule op_goodI)
  fix k w sc and pc :: u64
  assume w: "evm_ok clr E w" and sc: "frame_ok E sc" and room: "roomy w (Gas (Con sc))" and k: "calls_ok clr E (depth w) k"
  show "step_res clr E w sc (exec_op E k op pc w sc)"
  proof (rule step_res_dyn [OF w sc e(1) d gas_fine_mono [OF g]])
    fix w' sc' cost
    assume r: "ready clr E op 6 1 w sc w' sc' cost" and q: "pays_call (Stk sc) w' cost"
    have ok: "evm_ok clr E w'" "calm E w w'" "frame_ok E sc'" "Stk sc' = Stk sc" "6 \<le> length (Stk sc)"
      and m: "mem_ready (Some (mem_max 4 5 2 3)) (Stk sc') (Mem sc')"
      and u: "unat (Gas (Con sc')) + unat (constantGas op) + cost = unat (Gas (Con sc))"
      using r e(2) by (auto simp: ready_def)
    obtain st z a i il o' ol where st: "Stk sc' = st @ [ol, o', il, i, a, z]" using stack6 [of "Stk sc'"] ok(4,5) by auto
    have cov: "mem_covers (Mem sc') (Uint64 o') (Uint64 ol)" "mem_covers (Mem sc') (Uint64 i) (Uint64 il)"
      using mem_ready_max [OF m frame_okD(1) [OF ok(3)], of o' ol i il] by (simp_all add: st Back_append)
    obtain args where args: "mem_GetPtr (Mem sc') (Uint64 i) (Uint64 il) = Some args" "small args"
      using GetPtr_Some [OF cov(2) frame_okD(1) [OF ok(3)]] by blast
    have gas: "unat (callGasTemp w') \<le> cost" using q by (simp add: pays_call_def)
    have k': "calls_ok clr E (depth w') k" using calm_sel(1) [OF ok(2)] k by simp
    have len: "length st + 6 = length (Stk sc)" by (simp add: ok(4) [symmetric] st)
    have rm: "roomy w' (callGasTemp w')" by (rule roomy_call [OF r room]) (use gas u c in linarith)
    show "step_res clr E w sc (finish (execute op E k pc w' sc'))"
      unfolding x [OF st args(1)]
      by (rule step_res_after_call [OF r kall [OF k' ok(1) rm args(2)]])
        (use gas c len cov(1) in linarith | fact len cov(1))+
  qed simp_all
qed

lemma op_good_call:
  assumes "entry op 7 1" "memorySize op = Some memoryCall" "dynamicGas op = Some g" "gas_fine clr E 3 True pays_transfer g"
    "execute op = opCall" "24 \<le> unat (constantGas op)"
  shows "op_good clr E op"
proof (rule op_good_call7 [OF assms(1) _ assms(3,4,6), where ro = "\<lambda>w v. readOnly w \<and> v \<noteq> 0"
      and kall = "\<lambda>k w sc a args gas v. kCall k w (caddress (Con sc)) (Bytes20 a) args gas v"])
  show "call_res clr E w gas (kCall k w (caddress (Con sc)) (Bytes20 a) args gas v)"
    if "calls_ok clr E (depth w) k" "evm_ok clr E w" "roomy w gas" "small args" "\<not> (readOnly w \<and> v \<noteq> 0)"
    for k w sc a args gas v using that unfolding calls_ok_def by blast
qed (simp_all add: assms(2,5) memoryCall_def opCall_def pop_append Let_def)

lemma op_good_callcode:
  assumes "entry op 7 1" "memorySize op = Some memoryCall" "dynamicGas op = Some g" "gas_fine clr E 3 True pays_transfer g"
    "execute op = opCallCode" "24 \<le> unat (constantGas op)"
  shows "op_good clr E op"
proof (rule op_good_call7 [OF assms(1) _ assms(3,4,6), where ro = "\<lambda>w v. False"
      and kall = "\<lambda>k w sc a args gas v. kCallCode k w (caddress (Con sc)) (Bytes20 a) args gas v"])
  show "call_res clr E w gas (kCallCode k w (caddress (Con sc)) (Bytes20 a) args gas v)"
    if "calls_ok clr E (depth w) k" "evm_ok clr E w" "roomy w gas" "small args" "\<not> False"
    for k w sc a args gas v using that unfolding calls_ok_def by blast
qed (simp_all add: assms(2,5) memoryCall_def opCallCode_def pop_append Let_def)

lemma op_good_delegatecall:
  assumes "entry op 6 1" "memorySize op = Some memoryDelegateCall" "dynamicGas op = Some g" "gas_fine clr E 2 True pays_call g"
    "execute op = opDelegateCall" "24 \<le> unat (constantGas op)"
  shows "op_good clr E op"
proof (rule op_good_call6 [OF assms(1) _ assms(3,4,6), where
      kall = "\<lambda>k w sc a args gas. kDelegateCall k w (ccaller (Con sc)) (caddress (Con sc)) (Bytes20 a) args gas (cvalue (Con sc))"])
  show "call_res clr E w gas (kDelegateCall k w (ccaller (Con sc)) (caddress (Con sc)) (Bytes20 a) args gas (cvalue (Con sc)))"
    if "calls_ok clr E (depth w) k" "evm_ok clr E w" "roomy w gas" "small args" for k w sc a args gas
    using that unfolding calls_ok_def by blast
qed (simp_all add: assms(2,5) memoryDelegateCall_def opDelegateCall_def pop_append Let_def)

lemma op_good_staticcall:
  assumes "entry op 6 1" "memorySize op = Some memoryStaticCall" "dynamicGas op = Some g" "gas_fine clr E 2 True pays_call g"
    "execute op = opStaticCall" "24 \<le> unat (constantGas op)"
  shows "op_good clr E op"
proof (rule op_good_call6 [OF assms(1) _ assms(3,4,6), where
      kall = "\<lambda>k w sc a args gas. kStaticCall k w (caddress (Con sc)) (Bytes20 a) args gas"])
  show "call_res clr E w gas (kStaticCall k w (caddress (Con sc)) (Bytes20 a) args gas)"
    if "calls_ok clr E (depth w) k" "evm_ok clr E w" "roomy w gas" "small args" for k w sc a args gas
    using that unfolding calls_ok_def by blast
qed (simp_all add: assms(2,5) memoryStaticCall_def opStaticCall_def pop_append Let_def)

section \<open>Creations\<close>

lemma UseGas_Some: "gas \<le> Gas c \<Longrightarrow> UseGas c gas = (True, c\<lparr>Gas := Gas c - gas\<rparr>)"
  by (simp add: UseGas_def)

lemma step_res_after_create:
  assumes r: "ready clr E op n 1 w sc w' sc' cost" and c: "create_res clr E w' gas r"
    and gas: "gas \<le> Gas (Con sc')" and con: "24 \<le> unat (constantGas op)" and st: "length st + n = length (Stk sc)"
  shows "step_res clr E w sc (finish (do { r \<leftarrow> r; let (res, addr, returnGas, suberr, w) = r;
     after_create (sv addr suberr) r pc (sc'\<lparr>Stk := st, Con := (Con sc')\<lparr>Gas := Gas (Con sc') - gas\<rparr>\<rparr>) }))"
proof -
  obtain ret addr gas' err w2 where res: "r = Some (ret, addr, gas', err, w2)" and w2: "evm_ok clr E w2" "after E w' w2"
    and ret: "small ret" and g': "gas' \<le> gas" and p: "pot w2 gas' \<le> pot w' gas + 24000"
    using c unfolding create_res_def by blast
  have ok: "evm_ok clr E w'" "calm E w w'" "frame_ok E sc'" "n \<le> length (Stk sc)" "length (Stk sc) + 1 \<le> StackLimit + n"
    and u: "unat (Gas (Con sc')) + unat (constantGas op) + cost = unat (Gas (Con sc))" using r by (simp_all add: ready_def)
  define c2 where "c2 = RefundGas ((Con sc')\<lparr>Gas := Gas (Con sc') - gas\<rparr>) gas'"
  have rest: "unat (Gas (Con sc') - gas) = unat (Gas (Con sc')) - unat gas" using gas by (simp add: unat_sub)
  have "unat (Gas (Con sc') - gas) + unat gas' < 2 ^ 64"
    using rest gas g' unat_u64_lt [of "Gas (Con sc')"] by (simp add: word_le_nat_alt del: unat_u64_lt)
  then have g2: "unat (Gas c2) = unat (Gas (Con sc')) - unat gas + unat gas'"
    using rest by (simp add: c2_def RefundGas_def u64_simps)
  define data where "data = (if err = Some ErrExecutionReverted then ret else [])"
  let ?w3 = "w2\<lparr>returnData := data\<rparr>" and ?sc3 = "sc'\<lparr>Stk := st @ [sv addr err], Con := c2\<rparr>"
  have eq: "finish (do { r \<leftarrow> r; let (res, addr, returnGas, suberr, w) = r;
     after_create (sv addr suberr) r pc (sc'\<lparr>Stk := st, Con := (Con sc')\<lparr>Gas := Gas (Con sc') - gas\<rparr>\<rparr>) }) = Some (Inl (pc + 1, ?w3, ?sc3))"
    by (cases sc') (simp add: res after_create_def stack_simps finish_def stop_with_def ok_def c2_def data_def)
  have "evm_ok clr E ?w3" using w2(1) ret by (simp add: evm_ok_def data_def small_def)
  moreover have "after E w ?w3" using after_trans [OF calm_after [OF ok(2)] w2(2)] by (simp add: after_def follows_def)
  moreover have "con_ok (keccak E) c2" using ok(3) by (simp add: c2_def frame_ok_def con_ok_def RefundGas_def)
  moreover have le: "unat gas \<le> unat (Gas (Con sc'))" "unat gas' \<le> unat gas" using gas g' by (simp_all add: word_le_nat_alt)
  moreover have "Gas c2 < Gas (Con sc)" using g2 u con le by (simp add: word_less_nat_alt)
  moreover have "pot ?w3 (Gas c2) \<le> pot w (Gas (Con sc))"
    using p g2 u con le calm_sel(6) [OF ok(2)] by (simp add: pot_def)
  ultimately have "goes_on clr E w sc ?w3 ?sc3" using ok(3,4,5) st by (simp add: goes_on_def frame_ok_def)
  then show ?thesis unfolding eq by (simp add: step_res_def)
qed

text \<open>The gas a creation passes on is at most what the frame has.\<close>

lemma create_gas_le: "(gas :: u64) - gas div 64 \<le> gas"
proof -
  have "gas div 64 \<le> gas" by (simp add: word_le_nat_alt unat_div)
  then show ?thesis by (simp add: word_le_nat_alt unat_sub)
qed

lemma op_good_creation:
  assumes e: "entry op n 1" "memorySize op = Some (mem_at 1 2)" and n: "3 \<le> n" and d: "dynamicGas op = Some g"
    and g: "gas_fine clr E 3 True any_cost g" and c: "24 \<le> unat (constantGas op)"
    and x: "\<And>k pc w sc input off sz. n \<le> length (Stk sc) \<Longrightarrow> Back (Stk sc) 1 = Some off \<Longrightarrow> Back (Stk sc) 2 = Some sz \<Longrightarrow>
      mem_GetCopy (Mem sc) (Uint64 off) (Uint64 sz) = Some input \<Longrightarrow> \<not> readOnly w \<Longrightarrow>
      execute op E k pc w sc = do { r \<leftarrow> kreate k w sc input (share (Gas (Con sc)));
         let (res, addr, returnGas, suberr, w) = r;
         after_create (sv addr suberr) r pc (sc\<lparr>Stk := take (length (Stk sc) - n) (Stk sc),
           Con := (Con sc)\<lparr>Gas := Gas (Con sc) - share (Gas (Con sc))\<rparr>\<rparr>) }"
    and ro: "\<And>k pc w sc. readOnly w \<Longrightarrow> execute op E k pc w sc = fail ErrWriteProtection pc w sc"
    and share: "\<And>g. share g \<le> g"
    and kreate: "\<And>k w sc input gas. calls_ok clr E (depth w) k \<Longrightarrow> evm_ok clr E w \<Longrightarrow> roomy w gas \<Longrightarrow> small input \<Longrightarrow>
      \<not> readOnly w \<Longrightarrow> create_res clr E w gas (kreate k w sc input gas)"
  shows "op_good clr E op"
proof (rule op_goodI)
  fix k w sc and pc :: u64
  assume w: "evm_ok clr E w" and sc: "frame_ok E sc" and room: "roomy w (Gas (Con sc))" and k: "calls_ok clr E (depth w) k"
  show "step_res clr E w sc (exec_op E k op pc w sc)"
  proof (rule step_res_dyn [OF w sc e(1) d gas_fine_mono [OF g n]])
    fix w' sc' cost
    assume r: "ready clr E op n 1 w sc w' sc' cost"
    have ok: "evm_ok clr E w'" "calm E w w'" "frame_ok E sc'" "Stk sc' = Stk sc" "n \<le> length (Stk sc)"
      and m: "mem_ready (Some (mem_at 1 2)) (Stk sc') (Mem sc')"
      and u: "unat (Gas (Con sc')) + unat (constantGas op) + cost = unat (Gas (Con sc))"
      using r e(2) by (auto simp: ready_def)
    obtain off sz where b: "Back (Stk sc') 1 = Some off" "Back (Stk sc') 2 = Some sz"
      using Back_ex [of 1 "Stk sc'"] Back_ex [of 2 "Stk sc'"] ok(4,5) n by auto
    have "mem_covers (Mem sc') (Uint64 off) (Uint64 sz)" by (rule mem_ready_at(1) [OF m frame_okD(1) [OF ok(3)] b])
    then obtain input where i: "mem_GetCopy (Mem sc') (Uint64 off) (Uint64 sz) = Some input" "small input"
      using mem_GetCopy_Some [OF _ frame_okD(1) [OF ok(3)]] by blast
    let ?gas = "share (Gas (Con sc'))"
    have k': "calls_ok clr E (depth w') k" using calm_sel(1) [OF ok(2)] k by simp
    have rm: "roomy w' ?gas"
      by (rule roomy_call [OF r room]) (use share [of "Gas (Con sc')"] u c in \<open>simp add: word_le_nat_alt\<close>)
    show "step_res clr E w sc (finish (execute op E k pc w' sc'))"
    proof (cases "readOnly w'")
      case True
      then show ?thesis using step_res_protected [OF r, of pc "Stk sc'"] by (simp add: ro)
    next
      case False
      have n': "n \<le> length (Stk sc')" using ok(4,5) by simp
      show ?thesis unfolding x [OF n' b i(1) False]
        by (rule step_res_after_create [OF r kreate [OF k' ok(1) rm i(2) False] share c]) (use ok(4,5) in simp)
    qed
  qed simp_all
qed

lemma op_good_create:
  assumes e: "entry op 3 1" "memorySize op = Some memoryCreate" and d: "dynamicGas op = Some g" "gas_fine clr E 3 True any_cost g"
    and x: "execute op = opCreate" and c: "24 \<le> unat (constantGas op)"
  shows "op_good clr E op"
proof (rule op_good_creation [OF e(1) _ _ d c, where
      share = "\<lambda>gas. if IsEIP150 (chainRules E) then gas - gas div 64 else gas"
      and kreate = "\<lambda>k w sc input gas. kCreate k w (caddress (Con sc)) input gas (the (Back (Stk sc) 0))"
      and sv = "\<lambda>addr suberr. if IsHomestead (chainRules E) \<and> suberr = Some ErrCodeStoreOutOfGas then 0
           else if suberr \<noteq> None \<and> suberr \<noteq> Some ErrCodeStoreOutOfGas then 0
           else FromAddress addr"], goal_cases)
  case (3 k pc w sc input off sz)
  obtain st' z o' l where st: "Stk sc = st' @ [l, o', z]" using stack3 [OF 3(1)] by blast
  have "o' = off" "l = sz" using 3(2,3) st by (simp_all add: Back_append)
  moreover have "(if IsEIP150 (chainRules E) then Gas (Con sc) - Gas (Con sc) div 64 else Gas (Con sc)) \<le> Gas (Con sc)"
    by (simp add: create_gas_le)
  ultimately show ?case using 3(4,5)
    by (simp add: x opCreate_def st pop_append UseGas_Some Back_append split_def Let_def del: div_by_Suc_0 cong: if_cong)
next
  case (4 k pc w sc)
  then show ?case by (simp add: x opCreate_def)
next
  case (6 k w sc input gas)
  then show ?case unfolding calls_ok_def by blast
qed (simp_all add: e(2) memoryCreate_def create_gas_le)

lemma op_good_create2:
  assumes e: "entry op 4 1" "memorySize op = Some memoryCreate2" and d: "dynamicGas op = Some g" "gas_fine clr E 3 True any_cost g"
    and x: "execute op = opCreate2" and c: "24 \<le> unat (constantGas op)"
  shows "op_good clr E op"
proof (rule op_good_creation [OF e(1) _ _ d c, where share = "\<lambda>gas. gas - gas div 64"
      and kreate = "\<lambda>k w sc input gas. kCreate2 k w (caddress (Con sc)) input gas (the (Back (Stk sc) 0)) (the (Back (Stk sc) 3))"
      and sv = "\<lambda>addr suberr. if suberr \<noteq> None then 0 else FromAddress addr"], goal_cases)
  case (3 k pc w sc input off sz)
  obtain st' z o' l y where st: "Stk sc = st' @ [y, l, o', z]" using stack4 [OF 3(1)] by blast
  have "o' = off" "l = sz" using 3(2,3) st by (simp_all add: Back_append)
  moreover have "Gas (Con sc) - Gas (Con sc) div 64 \<le> Gas (Con sc)" by (rule create_gas_le)
  ultimately show ?case using 3(4,5)
    by (simp add: x opCreate2_def st pop_append UseGas_Some Back_append split_def Let_def cong: if_cong)
next
  case (4 k pc w sc)
  then show ?case by (simp add: x opCreate2_def)
next
  case (6 k w sc input gas)
  then show ?case unfolding calls_ok_def by blast
qed (simp_all add: e(2) memoryCreate2_def create_gas_le)

section \<open>Past the end of the code\<close>

lemma step_res_stop:
  assumes w: "evm_ok clr E w" and sc: "frame_ok E sc" and e: "entry op 0 0" "dynamicGas op = None" and x: "execute op = opStop"
  shows "step_res clr E w sc (exec_op E k op pc w sc)"
proof (rule step_res_plain [OF w sc e])
  fix sc'
  assume "ready clr E op 0 0 w sc w sc' 0"
  then have "unat (Gas (Con sc')) + unat (constantGas op) = unat (Gas (Con sc))" by (simp add: ready_def)
  then show "step_res clr E w sc (finish (execute op E k pc w sc'))" using w
    by (simp add: x opStop_def finish_def fail_def step_res_def ends_def evm_ok_weak follows_refl after_refl small_def
      word_le_nat_alt pot_def)
qed

end
