(* ===== verification/VM_Tables.thy ===== *)
theory VM_Tables
  imports VM_StepProofs
begin

text \<open>
  The instruction sets of the forks, entry by entry (\<open>jump_table.go\<close>, \<open>eips.go\<close>): all of them pass
  validation, and every operation of a fork before Verkle keeps the promises of a step.
\<close>

section \<open>Tables that pass validation\<close>

text \<open>Every entry is there, and an operation that asks for memory has a gas function.\<close>

definition op_sound :: "operation \<Rightarrow> bool" where
  "op_sound op \<longleftrightarrow> (memorySize op \<noteq> None \<longrightarrow> dynamicGas op \<noteq> None)"

definition complete :: "JumpTable \<Rightarrow> bool" where
  "complete jt \<longleftrightarrow> (\<forall>b. \<exists>op. jt b = Some op \<and> op_sound op)"

lemma complete_upd [simp]: "complete jt \<Longrightarrow> op_sound op \<Longrightarrow> complete (jt(b \<mapsto> op))"
  by (simp add: complete_def)

lemma op_sound_defs [simp]:
  "op_sound (plain_op f g mn mx)" "op_sound (dyn_op f g d mn mx)" "op_sound (mem_op f g d mn mx ms)" "op_sound undefined_op"
  "op_sound eof_undefined" "op_sound op \<Longrightarrow> op_sound (set_gas g op)" "op_sound (set_dyn d op)"
  by (simp_all add: op_sound_def operation_defs eof_undefined_def set_gas_def set_dyn_def)

lemma byte_of_nat: "\<exists>i < 256. (b :: byte) = of_nat i"
  by (rule exI [of _ "unat b"]) (use unsigned_less [of b] in simp)

lemma validate_complete: "validate jt = Some jt \<longleftrightarrow> complete jt" "validate jt = None \<longleftrightarrow> \<not> complete jt"
proof -
  let ?good = "\<lambda>b. case jt b of None \<Rightarrow> False | Some op \<Rightarrow> \<not> (memorySize op \<noteq> None \<and> dynamicGas op = None)"
  have "?good b \<longleftrightarrow> (\<exists>op. jt b = Some op \<and> op_sound op)" for b by (cases "jt b") (auto simp: op_sound_def)
  then have "list_all (\<lambda>i. ?good (of_nat i)) [0..<256] \<longleftrightarrow> (\<forall>i < 256. \<exists>op. jt (of_nat i) = Some op \<and> op_sound op)"
    by (auto simp: list_all_iff)
  also have "\<dots> \<longleftrightarrow> complete jt" unfolding complete_def using byte_of_nat by metis
  finally have "list_all (\<lambda>i. ?good (of_nat i)) [0..<256] \<longleftrightarrow> complete jt" .
  then show "validate jt = Some jt \<longleftrightarrow> complete jt" "validate jt = None \<longleftrightarrow> \<not> complete jt"
    by (simp_all add: validate_def)
qed

lemma validate_Some [simp]: "complete jt \<Longrightarrow> validate jt = Some jt"
  by (simp add: validate_complete)

lemma complete_set_all: "complete jt \<Longrightarrow> \<forall>(b, op) \<in> set es. op_sound op \<Longrightarrow> complete (jt_set_all es jt)"
  unfolding jt_set_all_def by (induction es arbitrary: jt) auto

section \<open>Normal forms\<close>

lemma set_op [simp]:
  "set_gas g (plain_op f g0 mn mx) = plain_op f g mn mx"
  "set_gas g (dyn_op f g0 d mn mx) = dyn_op f g d mn mx"
  "set_gas g (mem_op f g0 d mn mx ms) = mem_op f g d mn mx ms"
  "set_dyn d (plain_op f g mn mx) = dyn_op f g d mn mx"
  "set_dyn d (dyn_op f g d0 mn mx) = dyn_op f g d mn mx"
  "set_dyn d (mem_op f g d0 mn mx ms) = mem_op f g d mn mx ms"
  by (simp_all add: set_gas_def set_dyn_def operation_defs)

lemma jt_upd_Some [simp]: "jt b = Some op \<Longrightarrow> jt_upd b f jt = Some (jt(b \<mapsto> f op))"
  by (simp add: jt_upd_def)

definition frontier_tbl :: JumpTable where
  "frontier_tbl b = Some (case map_of frontier_entries b of None \<Rightarrow> undefined_op | Some op \<Rightarrow> op)"

lemmas frontier_defs = frontier_entries_def frontier_arith_def frontier_logic_def frontier_closure_def frontier_block_def
  frontier_flow_def frontier_push_low_def frontier_push_high_def frontier_dup_def frontier_swap_def frontier_log_def frontier_system_def

lemma frontier_sound: "(b, op) \<in> set frontier_entries \<Longrightarrow> op_sound op"
  by (auto simp: frontier_defs)

lemma complete_frontier [simp]: "complete frontier_tbl"
  unfolding complete_def frontier_tbl_def using frontier_sound by (auto split: option.split dest!: map_of_SomeD)

lemma frontier_table: "newFrontierInstructionSet = Some frontier_tbl"
proof -
  have "(\<lambda>b. case map_of frontier_entries b of None \<Rightarrow> Some undefined_op | Some op \<Rightarrow> Some op) = frontier_tbl"
    by (rule ext) (simp add: frontier_tbl_def split: option.split)
  then show ?thesis by (simp add: newFrontierInstructionSet_def Let_def)
qed

text \<open>The entries that later forks change.\<close>

lemma frontier_lookup:
  "frontier_tbl SLOAD = Some (plain_op opSload SloadGasFrontier (minStack 1 1) (maxStack 1 1))"
  "frontier_tbl BALANCE = Some (plain_op opBalance BalanceGasFrontier (minStack 1 1) (maxStack 1 1))"
  "frontier_tbl EXTCODESIZE = Some (plain_op opExtCodeSize ExtcodeSizeGasFrontier (minStack 1 1) (maxStack 1 1))"
  "frontier_tbl EXTCODECOPY = Some (mem_op opExtCodeCopy ExtcodeCopyBaseFrontier gasExtCodeCopy (minStack 4 0) (maxStack 4 0) memoryExtCodeCopy)"
  "frontier_tbl EXP = Some (dyn_op opExp 0 gasExpFrontier (minStack 2 1) (maxStack 2 1))"
  "frontier_tbl SSTORE = Some (dyn_op opSstore 0 gasSStore (minStack 2 0) (maxStack 2 0))"
  "frontier_tbl CALL = Some (mem_op opCall CallGasFrontier gasCall (minStack 7 1) (maxStack 7 1) memoryCall)"
  "frontier_tbl CALLCODE = Some (mem_op opCallCode CallGasFrontier gasCallCode (minStack 7 1) (maxStack 7 1) memoryCall)"
  "frontier_tbl CREATE = Some (mem_op opCreate CreateGas gasCreate (minStack 3 1) (maxStack 3 1) memoryCreate)"
  "frontier_tbl SELFDESTRUCT = Some (dyn_op opSelfdestruct 0 gasSelfdestruct (minStack 1 0) (maxStack 1 0))"
  "frontier_tbl STOP = Some (plain_op opStop 0 (minStack 0 0) (maxStack 0 0))"
  by (simp_all add: frontier_tbl_def frontier_defs)

definition homestead_tbl :: JumpTable where
  "homestead_tbl = frontier_tbl(DELEGATECALL \<mapsto> mem_op opDelegateCall CallGasFrontier gasDelegateCall (minStack 6 1) (maxStack 6 1) memoryDelegateCall)"

definition tangerine_tbl :: JumpTable where
  "tangerine_tbl = homestead_tbl(
     BALANCE \<mapsto> plain_op opBalance BalanceGasEIP150 (minStack 1 1) (maxStack 1 1),
     EXTCODESIZE \<mapsto> plain_op opExtCodeSize ExtcodeSizeGasEIP150 (minStack 1 1) (maxStack 1 1),
     SLOAD \<mapsto> plain_op opSload SloadGasEIP150 (minStack 1 1) (maxStack 1 1),
     EXTCODECOPY \<mapsto> mem_op opExtCodeCopy ExtcodeCopyBaseEIP150 gasExtCodeCopy (minStack 4 0) (maxStack 4 0) memoryExtCodeCopy,
     CALL \<mapsto> mem_op opCall CallGasEIP150 gasCall (minStack 7 1) (maxStack 7 1) memoryCall,
     CALLCODE \<mapsto> mem_op opCallCode CallGasEIP150 gasCallCode (minStack 7 1) (maxStack 7 1) memoryCall,
     DELEGATECALL \<mapsto> mem_op opDelegateCall CallGasEIP150 gasDelegateCall (minStack 6 1) (maxStack 6 1) memoryDelegateCall)"

definition spurious_tbl :: JumpTable where
  "spurious_tbl = tangerine_tbl(EXP \<mapsto> dyn_op opExp 0 gasExpEIP158 (minStack 2 1) (maxStack 2 1))"

definition byzantium_tbl :: JumpTable where
  "byzantium_tbl = spurious_tbl(
     STATICCALL \<mapsto> mem_op opStaticCall CallGasEIP150 gasStaticCall (minStack 6 1) (maxStack 6 1) memoryStaticCall,
     RETURNDATASIZE \<mapsto> plain_op opReturnDataSize GasQuickStep (minStack 0 1) (maxStack 0 1),
     RETURNDATACOPY \<mapsto> mem_op opReturnDataCopy GasFastestStep gasReturnDataCopy (minStack 3 0) (maxStack 3 0) memoryReturnDataCopy,
     REVERT \<mapsto> mem_op opRevert 0 gasRevert (minStack 2 0) (maxStack 2 0) memoryRevert)"

definition constantinople_tbl :: JumpTable where
  "constantinople_tbl = byzantium_tbl(
     SHL \<mapsto> plain_op opSHL GasFastestStep (minStack 2 1) (maxStack 2 1),
     SHR \<mapsto> plain_op opSHR GasFastestStep (minStack 2 1) (maxStack 2 1),
     SAR \<mapsto> plain_op opSAR GasFastestStep (minStack 2 1) (maxStack 2 1),
     EXTCODEHASH \<mapsto> plain_op opExtCodeHash ExtcodeHashGasConstantinople (minStack 1 1) (maxStack 1 1),
     CREATE2 \<mapsto> mem_op opCreate2 Create2Gas gasCreate2 (minStack 4 1) (maxStack 4 1) memoryCreate2)"

definition istanbul_tbl :: JumpTable where
  "istanbul_tbl = constantinople_tbl(
     CHAINID \<mapsto> plain_op opChainID GasQuickStep (minStack 0 1) (maxStack 0 1),
     BALANCE \<mapsto> plain_op opBalance BalanceGasEIP1884 (minStack 1 1) (maxStack 1 1),
     EXTCODEHASH \<mapsto> plain_op opExtCodeHash ExtcodeHashGasEIP1884 (minStack 1 1) (maxStack 1 1),
     SELFBALANCE \<mapsto> plain_op opSelfBalance GasFastStep (minStack 0 1) (maxStack 0 1),
     SLOAD \<mapsto> plain_op opSload SloadGasEIP2200 (minStack 1 1) (maxStack 1 1),
     SSTORE \<mapsto> dyn_op opSstore 0 gasSStoreEIP2200 (minStack 2 0) (maxStack 2 0))"

lemmas early_tbl_defs = homestead_tbl_def tangerine_tbl_def spurious_tbl_def byzantium_tbl_def constantinople_tbl_def istanbul_tbl_def

lemma complete_early [simp]:
  "complete homestead_tbl" "complete tangerine_tbl" "complete spurious_tbl" "complete byzantium_tbl"
  "complete constantinople_tbl" "complete istanbul_tbl"
  by (simp_all add: early_tbl_defs)

lemma homestead_table: "newHomesteadInstructionSet = Some homestead_tbl"
  by (simp add: newHomesteadInstructionSet_def frontier_table homestead_tbl_def)

lemma tangerine_table: "newTangerineWhistleInstructionSet = Some tangerine_tbl"
  by (simp add: newTangerineWhistleInstructionSet_def homestead_table homestead_tbl_def tangerine_tbl_def frontier_lookup)

lemma spurious_table: "newSpuriousDragonInstructionSet = Some spurious_tbl"
  by (simp add: newSpuriousDragonInstructionSet_def tangerine_table early_tbl_defs frontier_lookup)

lemma byzantium_table: "newByzantiumInstructionSet = Some byzantium_tbl"
  by (simp add: newByzantiumInstructionSet_def spurious_table byzantium_tbl_def)

lemma constantinople_table: "newConstantinopleInstructionSet = Some constantinople_tbl"
  by (simp add: newConstantinopleInstructionSet_def byzantium_table constantinople_tbl_def)

lemma istanbul_table: "newIstanbulInstructionSet = Some istanbul_tbl"
  by (simp add: newIstanbulInstructionSet_def constantinople_table enable1344_def enable1884_def enable2200_def early_tbl_defs frontier_lookup fun_upd_twist)

definition berlin_tbl :: JumpTable where
  "berlin_tbl = istanbul_tbl(
     SSTORE \<mapsto> dyn_op opSstore 0 gasSStoreEIP2929 (minStack 2 0) (maxStack 2 0),
     SLOAD \<mapsto> dyn_op opSload 0 gasSLoadEIP2929 (minStack 1 1) (maxStack 1 1),
     EXTCODECOPY \<mapsto> mem_op opExtCodeCopy WarmStorageReadCostEIP2929 gasExtCodeCopyEIP2929 (minStack 4 0) (maxStack 4 0) memoryExtCodeCopy,
     EXTCODESIZE \<mapsto> dyn_op opExtCodeSize WarmStorageReadCostEIP2929 gasEip2929AccountCheck (minStack 1 1) (maxStack 1 1),
     EXTCODEHASH \<mapsto> dyn_op opExtCodeHash WarmStorageReadCostEIP2929 gasEip2929AccountCheck (minStack 1 1) (maxStack 1 1),
     BALANCE \<mapsto> dyn_op opBalance WarmStorageReadCostEIP2929 gasEip2929AccountCheck (minStack 1 1) (maxStack 1 1),
     CALL \<mapsto> mem_op opCall WarmStorageReadCostEIP2929 gasCallEIP2929 (minStack 7 1) (maxStack 7 1) memoryCall,
     CALLCODE \<mapsto> mem_op opCallCode WarmStorageReadCostEIP2929 gasCallCodeEIP2929 (minStack 7 1) (maxStack 7 1) memoryCall,
     STATICCALL \<mapsto> mem_op opStaticCall WarmStorageReadCostEIP2929 gasStaticCallEIP2929 (minStack 6 1) (maxStack 6 1) memoryStaticCall,
     DELEGATECALL \<mapsto> mem_op opDelegateCall WarmStorageReadCostEIP2929 gasDelegateCallEIP2929 (minStack 6 1) (maxStack 6 1) memoryDelegateCall,
     SELFDESTRUCT \<mapsto> dyn_op opSelfdestruct SelfdestructGasEIP150 gasSelfdestructEIP2929 (minStack 1 0) (maxStack 1 0))"

definition london_tbl :: JumpTable where
  "london_tbl = berlin_tbl(
     SSTORE \<mapsto> dyn_op opSstore 0 gasSStoreEIP3529 (minStack 2 0) (maxStack 2 0),
     SELFDESTRUCT \<mapsto> dyn_op opSelfdestruct SelfdestructGasEIP150 gasSelfdestructEIP3529 (minStack 1 0) (maxStack 1 0),
     BASEFEE \<mapsto> plain_op opBaseFee GasQuickStep (minStack 0 1) (maxStack 0 1))"

definition merge_tbl :: JumpTable where
  "merge_tbl = london_tbl(PREVRANDAO \<mapsto> plain_op opRandom GasQuickStep (minStack 0 1) (maxStack 0 1))"

definition shanghai_tbl :: JumpTable where
  "shanghai_tbl = merge_tbl(
     PUSH0 \<mapsto> plain_op opPush0 GasQuickStep (minStack 0 1) (maxStack 0 1),
     CREATE \<mapsto> mem_op opCreate CreateGas gasCreateEip3860 (minStack 3 1) (maxStack 3 1) memoryCreate,
     CREATE2 \<mapsto> mem_op opCreate2 Create2Gas gasCreate2Eip3860 (minStack 4 1) (maxStack 4 1) memoryCreate2)"

definition cancun_tbl :: JumpTable where
  "cancun_tbl = shanghai_tbl(
     BLOBHASH \<mapsto> plain_op opBlobHash GasFastestStep (minStack 1 1) (maxStack 1 1),
     BLOBBASEFEE \<mapsto> plain_op opBlobBaseFee GasQuickStep (minStack 0 1) (maxStack 0 1),
     TLOAD \<mapsto> plain_op opTload WarmStorageReadCostEIP2929 (minStack 1 1) (maxStack 1 1),
     TSTORE \<mapsto> plain_op opTstore WarmStorageReadCostEIP2929 (minStack 2 0) (maxStack 2 0),
     MCOPY \<mapsto> mem_op opMcopy GasFastestStep gasMcopy (minStack 3 0) (maxStack 3 0) memoryMcopy,
     SELFDESTRUCT \<mapsto> dyn_op opSelfdestruct6780 SelfdestructGasEIP150 gasSelfdestructEIP3529 (minStack 1 0) (maxStack 1 0))"

definition prague_tbl :: JumpTable where
  "prague_tbl = cancun_tbl(
     CALL \<mapsto> mem_op opCall WarmStorageReadCostEIP2929 gasCallEIP7702 (minStack 7 1) (maxStack 7 1) memoryCall,
     CALLCODE \<mapsto> mem_op opCallCode WarmStorageReadCostEIP2929 gasCallCodeEIP7702 (minStack 7 1) (maxStack 7 1) memoryCall,
     STATICCALL \<mapsto> mem_op opStaticCall WarmStorageReadCostEIP2929 gasStaticCallEIP7702 (minStack 6 1) (maxStack 6 1) memoryStaticCall,
     DELEGATECALL \<mapsto> mem_op opDelegateCall WarmStorageReadCostEIP2929 gasDelegateCallEIP7702 (minStack 6 1) (maxStack 6 1) memoryDelegateCall)"

lemmas late_tbl_defs = berlin_tbl_def london_tbl_def merge_tbl_def shanghai_tbl_def cancun_tbl_def prague_tbl_def

lemma complete_late [simp]:
  "complete berlin_tbl" "complete london_tbl" "complete merge_tbl" "complete shanghai_tbl" "complete cancun_tbl" "complete prague_tbl"
  by (simp_all add: late_tbl_defs)

lemma istanbul_lookup:
  "istanbul_tbl EXTCODECOPY = Some (mem_op opExtCodeCopy ExtcodeCopyBaseEIP150 gasExtCodeCopy (minStack 4 0) (maxStack 4 0) memoryExtCodeCopy)"
  "istanbul_tbl EXTCODESIZE = Some (plain_op opExtCodeSize ExtcodeSizeGasEIP150 (minStack 1 1) (maxStack 1 1))"
  "istanbul_tbl EXTCODEHASH = Some (plain_op opExtCodeHash ExtcodeHashGasEIP1884 (minStack 1 1) (maxStack 1 1))"
  "istanbul_tbl BALANCE = Some (plain_op opBalance BalanceGasEIP1884 (minStack 1 1) (maxStack 1 1))"
  "istanbul_tbl SLOAD = Some (plain_op opSload SloadGasEIP2200 (minStack 1 1) (maxStack 1 1))"
  "istanbul_tbl SSTORE = Some (dyn_op opSstore 0 gasSStoreEIP2200 (minStack 2 0) (maxStack 2 0))"
  "istanbul_tbl CALL = Some (mem_op opCall CallGasEIP150 gasCall (minStack 7 1) (maxStack 7 1) memoryCall)"
  "istanbul_tbl CALLCODE = Some (mem_op opCallCode CallGasEIP150 gasCallCode (minStack 7 1) (maxStack 7 1) memoryCall)"
  "istanbul_tbl STATICCALL = Some (mem_op opStaticCall CallGasEIP150 gasStaticCall (minStack 6 1) (maxStack 6 1) memoryStaticCall)"
  "istanbul_tbl DELEGATECALL = Some (mem_op opDelegateCall CallGasEIP150 gasDelegateCall (minStack 6 1) (maxStack 6 1) memoryDelegateCall)"
  "istanbul_tbl CREATE = Some (mem_op opCreate CreateGas gasCreate (minStack 3 1) (maxStack 3 1) memoryCreate)"
  "istanbul_tbl CREATE2 = Some (mem_op opCreate2 Create2Gas gasCreate2 (minStack 4 1) (maxStack 4 1) memoryCreate2)"
  "istanbul_tbl SELFDESTRUCT = Some (dyn_op opSelfdestruct 0 gasSelfdestruct (minStack 1 0) (maxStack 1 0))"
  "istanbul_tbl STOP = Some (plain_op opStop 0 (minStack 0 0) (maxStack 0 0))"
  by (simp_all add: early_tbl_defs frontier_lookup)

lemma berlin_table: "newBerlinInstructionSet = Some berlin_tbl"
  by (simp add: newBerlinInstructionSet_def istanbul_table enable2929_def berlin_tbl_def istanbul_lookup)

lemma london_table: "newLondonInstructionSet = Some london_tbl"
  by (simp add: newLondonInstructionSet_def berlin_table enable3529_def enable3198_def london_tbl_def berlin_tbl_def)

lemma merge_table: "newMergeInstructionSet = Some merge_tbl"
  by (simp add: newMergeInstructionSet_def london_table merge_tbl_def)

lemma shanghai_table: "newShanghaiInstructionSet = Some shanghai_tbl"
  by (simp add: newShanghaiInstructionSet_def merge_table enable3855_def enable3860_def shanghai_tbl_def merge_tbl_def london_tbl_def berlin_tbl_def istanbul_lookup)

lemma cancun_table: "newCancunInstructionSet = Some cancun_tbl"
  by (simp add: newCancunInstructionSet_def shanghai_table enable4844_def enable7516_def enable1153_def enable5656_def enable6780_def cancun_tbl_def)

lemma prague_table: "newPragueInstructionSet = Some prague_tbl"
  by (simp add: newPragueInstructionSet_def cancun_table enable7702_def late_tbl_defs)

lemma verkle_table: "\<exists>jt. newVerkleInstructionSet = Some jt \<and> complete jt"
proof -
  have "complete (jt_set_all (verkle_entries @ verkle_pushes) shanghai_tbl)"
    by (rule complete_set_all) (auto simp: verkle_entries_def verkle_pushes_def)
  then show ?thesis by (simp add: newVerkleInstructionSet_def shanghai_table enable4762_def)
qed

lemma eof_table: "\<exists>jt. newEOFInstructionSetForTesting = Some jt \<and> complete jt"
proof -
  have "complete (jt_set_all (map (\<lambda>b. (b, eof_undefined)) eof_deprecated) prague_tbl)"
    by (rule complete_set_all) auto
  then have "complete (jt_set_all eof_entries (jt_set_all (map (\<lambda>b. (b, eof_undefined)) eof_deprecated) prague_tbl))"
    by (rule complete_set_all) (auto simp: eof_entries_def)
  then show ?thesis by (simp add: newEOFInstructionSetForTesting_def prague_table enableEOF_def)
qed

lemmas fork_tables = frontier_table homestead_table tangerine_table spurious_table byzantium_table constantinople_table
  istanbul_table berlin_table london_table merge_table shanghai_table cancun_table prague_table

section \<open>Goodness of the three kinds of entries\<close>

lemma good_plain:
  assumes "exec_fine clr E n q stops None f" and "mn = int n" and "mx = int StackLimit + int n - int q" and "stops \<or> g \<noteq> 0"
  shows "op_good clr E (plain_op f g mn mx)"
  by (rule op_good_plain [where n = n and q = q and stops = stops]) (use assms in \<open>simp_all add: plain_op_def entry_def\<close>)

lemma good_dyn:
  assumes "exec_fine clr E n q stops None f" and "gas_fine clr E n False Q d" and "mn = int n" and "mx = int StackLimit + int n - int q"
    and "stops \<or> g \<noteq> 0 \<or> Q = some_cost"
  shows "op_good clr E (dyn_op f g d mn mx)"
  by (rule op_good_dyn [where n = n and q = q and stops = stops and Q = Q and mm = False])
    (use assms in \<open>simp_all add: dyn_op_def entry_def\<close>)

text \<open>A memory size function that finds its arguments on the stack.\<close>

definition asks :: "nat \<Rightarrow> memorySizeFunc \<Rightarrow> bool" where
  "asks n ms \<longleftrightarrow> (\<forall>st. n \<le> length st \<longrightarrow> ms st \<noteq> None)"

lemma entry_mem:
  "mn = int n \<Longrightarrow> mx = int StackLimit + int n - int q \<Longrightarrow> asks n ms \<Longrightarrow> entry (mem_op f g d mn mx ms) n q"
  by (auto simp: entry_def mem_op_def asks_def)

lemma good_mem:
  assumes "exec_fine clr E n q stops (Some ms) f" and "gas_fine clr E n' True Q d" and "n' \<le> n" and "mn = int n"
    and "mx = int StackLimit + int n - int q" and "asks n ms"
    and "stops \<or> g \<noteq> 0 \<or> Q = some_cost"
  shows "op_good clr E (mem_op f g d mn mx ms)"
  by (rule op_good_dyn [OF entry_mem [OF assms(4,5,6)], where stops = stops and Q = Q and mm = True])
    (use assms gas_fine_mono [OF assms(2,3)] in \<open>simp_all add: mem_op_def\<close>)

section \<open>The handlers of the tables\<close>

text \<open>The block and transaction fields that instructions of a fork read are there.\<close>

definition frontier_env :: "env \<Rightarrow> bool" where
  "frontier_env E \<longleftrightarrow> hash_sized (keccak E) \<and> \<not> IsEIP4762 (chainRules E) \<and> GasPrice E \<noteq> None \<and> Difficulty E \<noteq> None"

lemma exec_alu:
  "exec_fine clr E 2 1 False None opAdd" "exec_fine clr E 2 1 False None opSub" "exec_fine clr E 2 1 False None opMul"
  "exec_fine clr E 2 1 False None opDiv" "exec_fine clr E 2 1 False None opSdiv" "exec_fine clr E 2 1 False None opMod"
  "exec_fine clr E 2 1 False None opSmod" "exec_fine clr E 2 1 False None opExp" "exec_fine clr E 2 1 False None opSignExtend"
  "exec_fine clr E 1 1 False None opNot" "exec_fine clr E 2 1 False None opLt" "exec_fine clr E 2 1 False None opGt"
  "exec_fine clr E 2 1 False None opSlt" "exec_fine clr E 2 1 False None opSgt" "exec_fine clr E 2 1 False None opEq"
  "exec_fine clr E 1 1 False None opIszero" "exec_fine clr E 2 1 False None opAnd" "exec_fine clr E 2 1 False None opOr"
  "exec_fine clr E 2 1 False None opXor" "exec_fine clr E 2 1 False None opByte" "exec_fine clr E 3 1 False None opAddmod"
  "exec_fine clr E 3 1 False None opMulmod" "exec_fine clr E 2 1 False None opSHL" "exec_fine clr E 2 1 False None opSHR"
  "exec_fine clr E 2 1 False None opSAR" "exec_fine clr E 1 1 False None opBlockhash" "exec_fine clr E 1 1 False None opBlobHash"
  by (simp_all only: op_defs exec_unop exec_binop exec_ternop)

lemma exec_pushes:
  "exec_fine clr E 0 1 False None opAddress" "exec_fine clr E 0 1 False None opOrigin" "exec_fine clr E 0 1 False None opCaller"
  "exec_fine clr E 0 1 False None opCallValue" "exec_fine clr E 0 1 False None opCallDataSize"
  "exec_fine clr E 0 1 False None opReturnDataSize" "exec_fine clr E 0 1 False None opCodeSize"
  "exec_fine clr E 0 1 False None opCoinbase" "exec_fine clr E 0 1 False None opTimestamp" "exec_fine clr E 0 1 False None opNumber"
  "exec_fine clr E 0 1 False None opGasLimit" "exec_fine clr E 0 1 False None opPc" "exec_fine clr E 0 1 False None opMsize"
  "exec_fine clr E 0 1 False None opGas" "exec_fine clr E 0 1 False None opPush0"
  by (simp_all only: op_defs, rule_tac [!] exec_pushop, simp_all add: FromBig_def)

lemma exec_fields:
  "GasPrice E \<noteq> None \<Longrightarrow> exec_fine clr E 0 1 False None opGasprice"
  "Difficulty E \<noteq> None \<Longrightarrow> exec_fine clr E 0 1 False None opDifficulty"
  "Random E \<noteq> None \<Longrightarrow> exec_fine clr E 0 1 False None opRandom"
  "ChainID E \<noteq> None \<Longrightarrow> exec_fine clr E 0 1 False None opChainID"
  "BaseFee E \<noteq> None \<Longrightarrow> exec_fine clr E 0 1 False None opBaseFee"
  "BlobBaseFee E \<noteq> None \<Longrightarrow> exec_fine clr E 0 1 False None opBlobBaseFee"
  by (simp_all only: op_defs, rule_tac [!] exec_pushop, auto simp: FromBig_def)

lemma exec_Stop: "exec_fine clr E 0 0 True None opStop"
  by (rule exec_fineI) (simp add: opStop_def exec_res_fail_same)

lemmas exec_fines = exec_alu exec_pushes exec_Stop exec_Balance exec_Sload exec_ExtCodeSize exec_ExtCodeHash exec_Tload exec_SelfBalance
  exec_CallDataLoad exec_Pop exec_Jumpdest exec_Push1 exec_Push2 exec_makePush exec_Tstore exec_Undefined exec_Swap exec_Dup

lemma asks_at: "i < n \<Longrightarrow> j < n \<Longrightarrow> asks n (mem_at i j)"
  by (auto simp: asks_def mem_at_def Back_def)

lemma mem_max_Some:
  assumes "mem_at i j st \<noteq> None" and "mem_at k l st \<noteq> None"
  shows "mem_max i j k l st \<noteq> None"
proof -
  obtain x o1 y o2 where "mem_at i j st = Some (x, o1)" "mem_at k l st = Some (y, o2)" using assms by fastforce
  then show ?thesis by (auto simp: mem_max_def)
qed

lemma asks_max: "i < n \<Longrightarrow> j < n \<Longrightarrow> k < n \<Longrightarrow> l < n \<Longrightarrow> asks n (mem_max i j k l)"
  using asks_at [of i n j] asks_at [of k n l] mem_max_Some unfolding asks_def by blast

lemma asks_sizes:
  "asks 2 memoryKeccak256" "asks 3 memoryCallDataCopy" "asks 3 memoryReturnDataCopy" "asks 3 memoryCodeCopy" "asks 4 memoryExtCodeCopy"
  "asks 3 memoryCreate" "asks 4 memoryCreate2" "asks 7 memoryCall" "asks 6 memoryDelegateCall" "asks 6 memoryStaticCall"
  "asks 2 memoryReturn" "asks 2 memoryRevert" "asks (2 + n) memoryLog"
  by (simp_all add: memoryKeccak256_def memoryCallDataCopy_def memoryReturnDataCopy_def memoryCodeCopy_def memoryExtCodeCopy_def
    memoryCreate_def memoryCreate2_def memoryCall_def memoryDelegateCall_def memoryStaticCall_def memoryReturn_def memoryRevert_def
    memoryLog_def asks_at asks_max)

lemma asks_words: "asks 1 memoryMLoad" "asks 2 memoryMStore" "asks 2 memoryMStore8" "asks 3 memoryMcopy"
  by (auto simp: asks_def memoryMLoad_def memoryMStore_def memoryMStore8_def memoryMcopy_def Back_def)

lemma gas_memory:
  "gas_fine clr E 2 True any_cost gasKeccak256" "gas_fine clr E 3 True any_cost gasCreate2"
  "gas_fine clr E 3 True any_cost gasCallDataCopy" "gas_fine clr E 3 True any_cost gasCodeCopy"
  "gas_fine clr E 3 True any_cost gasMcopy" "gas_fine clr E 3 True any_cost gasReturnDataCopy"
  "gas_fine clr E 4 True any_cost gasExtCodeCopy" "gas_fine clr E 0 True any_cost gasReturn"
  "gas_fine clr E 0 True any_cost gasRevert" "gas_fine clr E 0 True any_cost gasMLoad"
  "gas_fine clr E 0 True any_cost gasMStore" "gas_fine clr E 0 True any_cost gasMStore8"
  "gas_fine clr E 3 True any_cost gasCreate" "gas_fine clr E 3 True any_cost gasCreateEip3860"
  "gas_fine clr E 3 True any_cost gasCreate2Eip3860"
  using gas_fine_mono [OF gas_pureMemory, of 3]
  by (simp_all add: gasKeccak256_def gasCreate2_def gasCallDataCopy_def gasCodeCopy_def gasMcopy_def gasReturnDataCopy_def
    gasExtCodeCopy_def gasReturn_def gasRevert_def gasMLoad_def gasMStore_def gasMStore8_def gasCreate_def gasCreateEip3860_def
    gasCreate2Eip3860_def gas_keccak_words gas_memoryCopier gas_pureMemory gas_initcode)

lemmas mem_execs = exec_Keccak256 exec_CallDataCopy exec_CodeCopy exec_ReturnDataCopy exec_Mcopy exec_ExtCodeCopy exec_Mload
  exec_Mstore exec_Mstore8 exec_Return exec_Revert

lemma good_memory_ops:
  assumes "g \<noteq> 0"
  shows "op_good clr E (mem_op opKeccak256 g gasKeccak256 (minStack 2 1) (maxStack 2 1) memoryKeccak256)"
    "op_good clr E (mem_op opCallDataCopy g gasCallDataCopy (minStack 3 0) (maxStack 3 0) memoryCallDataCopy)"
    "op_good clr E (mem_op opCodeCopy g gasCodeCopy (minStack 3 0) (maxStack 3 0) memoryCodeCopy)"
    "op_good clr E (mem_op opReturnDataCopy g gasReturnDataCopy (minStack 3 0) (maxStack 3 0) memoryReturnDataCopy)"
    "op_good clr E (mem_op opMcopy g gasMcopy (minStack 3 0) (maxStack 3 0) memoryMcopy)"
    "op_good clr E (mem_op opExtCodeCopy g gasExtCodeCopy (minStack 4 0) (maxStack 4 0) memoryExtCodeCopy)"
    "op_good clr E (mem_op opExtCodeCopy g gasExtCodeCopyEIP2929 (minStack 4 0) (maxStack 4 0) memoryExtCodeCopy)"
    "op_good clr E (mem_op opMload g gasMLoad (minStack 1 1) (maxStack 1 1) memoryMLoad)"
    "op_good clr E (mem_op opMstore g gasMStore (minStack 2 0) (maxStack 2 0) memoryMStore)"
    "op_good clr E (mem_op opMstore8 g gasMStore8 (minStack 2 0) (maxStack 2 0) memoryMStore8)"
  by (rule good_mem, rule mem_execs, rule gas_memory gas_ExtCodeCopyEIP2929, simp, simp add: stack_bound_defs,
      simp add: stack_bound_defs, rule asks_sizes asks_words, simp add: assms)+

lemma good_returns:
  "op_good clr E (mem_op opReturn 0 gasReturn (minStack 2 0) (maxStack 2 0) memoryReturn)"
  "op_good clr E (mem_op opRevert 0 gasRevert (minStack 2 0) (maxStack 2 0) memoryRevert)"
  by (rule good_mem, rule mem_execs, rule gas_memory, simp, simp add: stack_bound_defs,
      simp add: stack_bound_defs, rule asks_sizes, simp)+

lemma good_log:
  assumes "mn = int (2 + n)" and "mx = int StackLimit + int (2 + n)"
  shows "op_good clr E (mem_op (makeLog n) 0 (makeGasLog n') mn mx memoryLog)"
  by (rule good_mem [OF exec_Log gas_log _ _ _ asks_sizes(13)]) (simp_all add: assms)

lemma good_system:
  assumes "\<not> IsEIP4762 (chainRules E)" and "24 \<le> unat g"
  shows "op_good clr E (mem_op opCreate g gasCreate (minStack 3 1) (maxStack 3 1) memoryCreate)"
    "op_good clr E (mem_op opCreate g gasCreateEip3860 (minStack 3 1) (maxStack 3 1) memoryCreate)"
    "op_good clr E (mem_op opCreate2 g gasCreate2 (minStack 4 1) (maxStack 4 1) memoryCreate2)"
    "op_good clr E (mem_op opCreate2 g gasCreate2Eip3860 (minStack 4 1) (maxStack 4 1) memoryCreate2)"
  by (rule op_good_create op_good_create2, rule entry_mem, simp add: stack_bound_defs, simp add: stack_bound_defs, rule asks_sizes,
      simp add: mem_op_def, simp add: mem_op_def, rule gas_memory, simp add: mem_op_def, simp add: mem_op_def assms)+

lemma gas_calls:
  assumes "\<not> IsEIP4762 (chainRules E)"
  shows "gas_fine clr E 3 True pays_transfer gasCall" "gas_fine clr E 3 True pays_transfer gasCallEIP2929"
    "gas_fine clr E 3 True pays_transfer gasCallEIP7702" "gas_fine clr E 3 True pays_transfer gasCallCode"
    "gas_fine clr E 3 True pays_transfer gasCallCodeEIP2929" "gas_fine clr E 3 True pays_transfer gasCallCodeEIP7702"
  unfolding gasCallEIP2929_def gasCallEIP7702_def gasCallCodeEIP2929_def gasCallCodeEIP7702_def
  by (simp_all add: gas_Call gas_CallCode gas_CallVariantEIP2929 gas_CallVariantEIP7702 cost_mono_pays assms)

lemma gas_delegates:
  "gas_fine clr E 2 True pays_call gasDelegateCall" "gas_fine clr E 2 True pays_call gasDelegateCallEIP2929"
  "gas_fine clr E 2 True pays_call gasDelegateCallEIP7702" "gas_fine clr E 2 True pays_call gasStaticCall"
  "gas_fine clr E 2 True pays_call gasStaticCallEIP2929" "gas_fine clr E 2 True pays_call gasStaticCallEIP7702"
  unfolding gasDelegateCallEIP2929_def gasDelegateCallEIP7702_def gasStaticCallEIP2929_def gasStaticCallEIP7702_def
  by (simp_all add: gas_fine_mono [OF gas_DelegateCall(1)] gas_fine_mono [OF gas_DelegateCall(2)] gas_CallVariantEIP2929
      gas_CallVariantEIP7702 cost_mono_pays)

lemma good_calls:
  assumes e: "\<not> IsEIP4762 (chainRules E)" and g: "24 \<le> unat g"
  shows "op_good clr E (mem_op opCall g gasCall (minStack 7 1) (maxStack 7 1) memoryCall)"
    "op_good clr E (mem_op opCall g gasCallEIP2929 (minStack 7 1) (maxStack 7 1) memoryCall)"
    "op_good clr E (mem_op opCall g gasCallEIP7702 (minStack 7 1) (maxStack 7 1) memoryCall)"
    "op_good clr E (mem_op opCallCode g gasCallCode (minStack 7 1) (maxStack 7 1) memoryCall)"
    "op_good clr E (mem_op opCallCode g gasCallCodeEIP2929 (minStack 7 1) (maxStack 7 1) memoryCall)"
    "op_good clr E (mem_op opCallCode g gasCallCodeEIP7702 (minStack 7 1) (maxStack 7 1) memoryCall)"
  by (rule op_good_call op_good_callcode, rule entry_mem, simp add: stack_bound_defs, simp add: stack_bound_defs, rule asks_sizes,
      simp add: mem_op_def, simp add: mem_op_def, rule gas_calls [OF e], simp add: mem_op_def, simp add: mem_op_def g)+

lemma good_delegates:
  assumes "24 \<le> unat g"
  shows "op_good clr E (mem_op opDelegateCall g gasDelegateCall (minStack 6 1) (maxStack 6 1) memoryDelegateCall)"
    "op_good clr E (mem_op opDelegateCall g gasDelegateCallEIP2929 (minStack 6 1) (maxStack 6 1) memoryDelegateCall)"
    "op_good clr E (mem_op opDelegateCall g gasDelegateCallEIP7702 (minStack 6 1) (maxStack 6 1) memoryDelegateCall)"
    "op_good clr E (mem_op opStaticCall g gasStaticCall (minStack 6 1) (maxStack 6 1) memoryStaticCall)"
    "op_good clr E (mem_op opStaticCall g gasStaticCallEIP2929 (minStack 6 1) (maxStack 6 1) memoryStaticCall)"
    "op_good clr E (mem_op opStaticCall g gasStaticCallEIP7702 (minStack 6 1) (maxStack 6 1) memoryStaticCall)"
  by (rule op_good_delegatecall op_good_staticcall, rule entry_mem, simp add: stack_bound_defs, simp add: stack_bound_defs, rule asks_sizes,
      simp add: mem_op_def, simp add: mem_op_def, rule gas_delegates, simp add: mem_op_def, simp add: mem_op_def assms)+

lemma entry_dyn: "mn = int n \<Longrightarrow> mx = int StackLimit + int n - int q \<Longrightarrow> entry (dyn_op f g d mn mx) n q"
  by (simp add: entry_def dyn_op_def)

lemma good_sstore:
  "sstore_fine clr E d \<Longrightarrow> op_good clr E (dyn_op opSstore g d (minStack 2 0) (maxStack 2 0))"
  by (rule op_good_sstore, rule entry_dyn) (simp_all add: dyn_op_def stack_bound_defs)

lemma good_selfdestruct:
  assumes "sd_fine clr E d"
  shows "op_good clr E (dyn_op opSelfdestruct g d (minStack 1 0) (maxStack 1 0))"
    "op_good clr E (dyn_op opSelfdestruct6780 g d (minStack 1 0) (maxStack 1 0))"
  by (rule op_good_selfdestruct, rule entry_dyn, simp add: stack_bound_defs, simp add: stack_bound_defs, simp add: dyn_op_def,
      simp add: dyn_op_def, rule assms, simp only: dyn_op_def operation.simps, rule exec_Selfdestruct exec_Selfdestruct6780,
      simp add: dyn_op_def opSelfdestruct_def opSelfdestruct6780_def)+

lemma sd_gases: "sd_fine clr E gasSelfdestruct" "sd_fine clr E gasSelfdestructEIP2929" "sd_fine clr E gasSelfdestructEIP3529"
  by (simp_all add: gasSelfdestructEIP2929_def gasSelfdestructEIP3529_def sd_Frontier sd_2929)

lemma sstore_gases:
  "sstore_fine 15000 E gasSStore" "sstore_fine 15000 E gasSStoreEIP2200" "sstore_fine 15000 E gasSStoreEIP2929"
  "sstore_fine 4800 E gasSStoreEIP3529"
  using sstore_2929 [of SstoreClearsScheduleRefundEIP2200 E] sstore_2929 [of SstoreClearsScheduleRefundEIP3529 E]
  by (simp_all add: gasSStoreEIP2929_def gasSStoreEIP3529_def sstore_Frontier sstore_2200)

lemma good_exp:
  "op_good clr E (dyn_op opExp 0 gasExpFrontier (minStack 2 1) (maxStack 2 1))"
  "op_good clr E (dyn_op opExp 0 gasExpEIP158 (minStack 2 1) (maxStack 2 1))"
  unfolding gasExpFrontier_def gasExpEIP158_def
  by (rule good_dyn, rule exec_fines, rule gas_exp, simp add: stack_bound_defs, simp add: stack_bound_defs, simp)+

lemma good_2929:
  assumes "g \<noteq> 0"
  shows "op_good clr E (dyn_op opBalance g gasEip2929AccountCheck (minStack 1 1) (maxStack 1 1))"
    "op_good clr E (dyn_op opExtCodeSize g gasEip2929AccountCheck (minStack 1 1) (maxStack 1 1))"
    "op_good clr E (dyn_op opExtCodeHash g gasEip2929AccountCheck (minStack 1 1) (maxStack 1 1))"
  by (rule good_dyn, rule exec_fines, rule gas_AccountCheck, simp add: stack_bound_defs, simp add: stack_bound_defs,
      simp add: assms)+

lemma good_sload_2929: "op_good clr E (dyn_op opSload 0 gasSLoadEIP2929 (minStack 1 1) (maxStack 1 1))"
  by (rule good_dyn [OF exec_Sload gas_SLoadEIP2929]) (simp_all add: stack_bound_defs)

section \<open>Good tables\<close>

definition good_but :: "nat \<Rightarrow> env \<Rightarrow> byte set \<Rightarrow> JumpTable \<Rightarrow> bool" where
  "good_but clr E S jt \<longleftrightarrow> (\<forall>b. b \<notin> S \<longrightarrow> (\<exists>op. jt b = Some op \<and> op_good clr E op))"

lemma good_but_upd: "op_good clr E op \<Longrightarrow> good_but clr E S jt \<Longrightarrow> good_but clr E (S - {b}) (jt(b \<mapsto> op))"
  by (auto simp: good_but_def)

lemma good_entries:
  assumes "frontier_env E"
  shows "\<forall>(b, op) \<in> set frontier_entries. b \<noteq> SSTORE \<longrightarrow> op_good clr E op"
proof -
  have e: "hash_sized (keccak E)" "\<not> IsEIP4762 (chainRules E)" "GasPrice E \<noteq> None" "Difficulty E \<noteq> None"
    using assms by (simp_all add: frontier_env_def)
  show ?thesis
    unfolding frontier_defs append.simps
    by (simp only: list.set ball_simps prod.case simp_thms, intro conjI TrueI impI)
      (rule good_exp good_returns good_selfdestruct(1) [OF sd_gases(1)]
       | (rule good_memory_ops good_system(1) [OF e(2)] good_calls [OF e(2)], simp)
       | (rule good_log, simp add: stack_bound_defs, simp add: stack_bound_defs)
       | (rule good_plain, rule exec_Jump [OF e(1)] exec_Jumpi [OF e(1)] exec_fields(1) [OF e(3)] exec_fields(2) [OF e(4)] exec_makePush exec_alu exec_pushes
            exec_Stop exec_Balance exec_Sload exec_ExtCodeSize exec_CallDataLoad exec_Pop exec_Jumpdest exec_Push1 exec_Push2 exec_Undefined,
          simp add: stack_bound_defs, simp add: stack_bound_defs, simp)
       | (rule good_plain, rule exec_Dup, simp, simp add: stack_bound_defs, simp add: stack_bound_defs, simp)
       | (rule good_plain, rule exec_Swap, simp add: stack_bound_defs, simp add: stack_bound_defs, simp)
       | simp)+
qed

lemma good_undefined: "op_good clr E undefined_op"
  by (rule op_good_plain [where n = 0 and q = 0 and stops = True])
    (simp_all add: undefined_op_def entry_def exec_Undefined stack_bound_defs)

lemma good_frontier:
  assumes "frontier_env E"
  shows "good_but clr E {SSTORE} frontier_tbl"
  unfolding good_but_def frontier_tbl_def using good_entries [OF assms] good_undefined
  by (auto split: option.split dest!: map_of_SomeD)

text \<open>The rules for the entries that forks add or replace.\<close>

lemma good_added:
  "op_good clr E (plain_op opReturnDataSize GasQuickStep (minStack 0 1) (maxStack 0 1))"
  "op_good clr E (plain_op opSHL GasFastestStep (minStack 2 1) (maxStack 2 1))"
  "op_good clr E (plain_op opSHR GasFastestStep (minStack 2 1) (maxStack 2 1))"
  "op_good clr E (plain_op opSAR GasFastestStep (minStack 2 1) (maxStack 2 1))"
  "op_good clr E (plain_op opSelfBalance GasFastStep (minStack 0 1) (maxStack 0 1))"
  "op_good clr E (plain_op opPush0 GasQuickStep (minStack 0 1) (maxStack 0 1))"
  "op_good clr E (plain_op opBlobHash GasFastestStep (minStack 1 1) (maxStack 1 1))"
  "op_good clr E (plain_op opTload WarmStorageReadCostEIP2929 (minStack 1 1) (maxStack 1 1))"
  "op_good clr E (plain_op opTstore WarmStorageReadCostEIP2929 (minStack 2 0) (maxStack 2 0))"
  "g \<noteq> 0 \<Longrightarrow> op_good clr E (plain_op opBalance g (minStack 1 1) (maxStack 1 1))"
  "g \<noteq> 0 \<Longrightarrow> op_good clr E (plain_op opExtCodeSize g (minStack 1 1) (maxStack 1 1))"
  "g \<noteq> 0 \<Longrightarrow> op_good clr E (plain_op opExtCodeHash g (minStack 1 1) (maxStack 1 1))"
  "g \<noteq> 0 \<Longrightarrow> op_good clr E (plain_op opSload g (minStack 1 1) (maxStack 1 1))"
  by (rule good_plain, rule exec_fines, simp add: stack_bound_defs, simp add: stack_bound_defs, simp)+

lemma good_fields:
  "ChainID E \<noteq> None \<Longrightarrow> op_good clr E (plain_op opChainID GasQuickStep (minStack 0 1) (maxStack 0 1))"
  "BaseFee E \<noteq> None \<Longrightarrow> op_good clr E (plain_op opBaseFee GasQuickStep (minStack 0 1) (maxStack 0 1))"
  "Random E \<noteq> None \<Longrightarrow> op_good clr E (plain_op opRandom GasQuickStep (minStack 0 1) (maxStack 0 1))"
  "BlobBaseFee E \<noteq> None \<Longrightarrow> op_good clr E (plain_op opBlobBaseFee GasQuickStep (minStack 0 1) (maxStack 0 1))"
  by (rule good_plain, erule exec_fields, simp add: stack_bound_defs, simp add: stack_bound_defs, simp)+

lemma good_but_mono: "good_but clr E S jt \<Longrightarrow> S \<subseteq> T \<Longrightarrow> good_but clr E T jt"
  by (auto simp: good_but_def)

lemma good_but_keep: "op_good clr E op \<Longrightarrow> good_but clr E S jt \<Longrightarrow> good_but clr E S (jt(b \<mapsto> op))"
  by (rule good_but_mono [OF good_but_upd]) auto

lemma good_until_istanbul:
  assumes "frontier_env E"
  shows "good_but clr E {SSTORE} homestead_tbl" "good_but clr E {SSTORE} tangerine_tbl" "good_but clr E {SSTORE} spurious_tbl"
    "good_but clr E {SSTORE} byzantium_tbl" "good_but clr E {SSTORE} constantinople_tbl"
proof -
  have e: "\<not> IsEIP4762 (chainRules E)" using assms by (simp add: frontier_env_def)
  note rules = good_but_keep good_frontier [OF assms] good_calls [OF e] good_delegates good_added good_exp good_returns good_memory_ops good_system [OF e]
  show h: "good_but clr E {SSTORE} homestead_tbl" unfolding homestead_tbl_def by (intro rules) simp_all
  show t: "good_but clr E {SSTORE} tangerine_tbl" unfolding tangerine_tbl_def by (intro rules h) simp_all
  show s: "good_but clr E {SSTORE} spurious_tbl" unfolding spurious_tbl_def by (intro rules t)
  show b: "good_but clr E {SSTORE} byzantium_tbl" unfolding byzantium_tbl_def by (intro rules s) simp_all
  show "good_but clr E {SSTORE} constantinople_tbl" unfolding constantinople_tbl_def by (intro rules b) simp_all
qed

section \<open>The instruction set of a block\<close>

text \<open>The forks that come with later ones in the selection of the table.\<close>

definition since_cancun :: "Rules \<Rightarrow> bool" where
  "since_cancun r \<longleftrightarrow> IsCancun r \<or> IsPrague r"

definition since_merge :: "Rules \<Rightarrow> bool" where
  "since_merge r \<longleftrightarrow> IsMerge r \<or> IsShanghai r \<or> since_cancun r"

definition since_london :: "Rules \<Rightarrow> bool" where
  "since_london r \<longleftrightarrow> IsLondon r \<or> since_merge r"

definition since_istanbul :: "Rules \<Rightarrow> bool" where
  "since_istanbul r \<longleftrightarrow> IsIstanbul r \<or> IsBerlin r \<or> since_london r"

text \<open>
  What an execution environment has: the chain is not a Verkle one, code hashes tell the lengths of
  codes apart, and the fields that the instructions of the fork read are set.
\<close>

definition env_ok :: "env \<Rightarrow> bool" where
  "env_ok E \<longleftrightarrow> frontier_env E \<and> \<not> IsVerkle (chainRules E)
     \<and> (since_istanbul (chainRules E) \<longrightarrow> ChainID E \<noteq> None) \<and> (since_london (chainRules E) \<longrightarrow> BaseFee E \<noteq> None)
     \<and> (since_merge (chainRules E) \<longrightarrow> Random E \<noteq> None) \<and> (since_cancun (chainRules E) \<longrightarrow> BlobBaseFee E \<noteq> None)"

text \<open>The refund for a cleared slot.\<close>

definition clears :: "Rules \<Rightarrow> nat" where
  "clears r = (if since_london r then 4800 else 15000)"

lemma good_but_sstore: "good_but clr E {SSTORE} jt \<Longrightarrow> good_but clr E {SSTORE} (jt(SSTORE \<mapsto> op))"
  by (auto simp: good_but_def)

lemma good_istanbul:
  assumes "frontier_env E" and "ChainID E \<noteq> None"
  shows "good_but clr E {SSTORE} istanbul_tbl"
  unfolding istanbul_tbl_def
  by (intro good_but_sstore good_but_keep good_until_istanbul [OF assms(1)] good_added good_fields assms(2)) simp_all

lemma good_berlin:
  assumes "frontier_env E" and "ChainID E \<noteq> None"
  shows "good_but clr E {SSTORE} berlin_tbl"
proof -
  have e: "\<not> IsEIP4762 (chainRules E)" using assms by (simp add: frontier_env_def)
  show ?thesis unfolding berlin_tbl_def
    by (intro good_but_sstore good_but_keep good_istanbul [OF assms] good_2929 good_sload_2929 good_memory_ops good_calls [OF e] good_delegates
        good_selfdestruct sd_gases) simp_all
qed

lemma good_london:
  assumes "frontier_env E" and "ChainID E \<noteq> None" and "BaseFee E \<noteq> None"
  shows "good_but clr E {SSTORE} london_tbl"
  unfolding london_tbl_def
  by (intro good_but_sstore good_but_keep good_berlin [OF assms(1,2)] good_fields assms(3) good_selfdestruct sd_gases)

lemma good_since_merge:
  assumes "frontier_env E" and "ChainID E \<noteq> None" and "BaseFee E \<noteq> None" and "Random E \<noteq> None"
  shows "good_but clr E {SSTORE} merge_tbl" "good_but clr E {SSTORE} shanghai_tbl"
    "BlobBaseFee E \<noteq> None \<Longrightarrow> good_but clr E {SSTORE} cancun_tbl" "BlobBaseFee E \<noteq> None \<Longrightarrow> good_but clr E {SSTORE} prague_tbl"
proof -
  have e: "\<not> IsEIP4762 (chainRules E)" using assms by (simp add: frontier_env_def)
  note rules = good_but_keep good_added good_fields good_calls [OF e] good_delegates good_system [OF e] good_memory_ops good_selfdestruct sd_gases
  show m: "good_but clr E {SSTORE} merge_tbl" unfolding merge_tbl_def by (intro rules good_london assms)
  show s: "good_but clr E {SSTORE} shanghai_tbl" unfolding shanghai_tbl_def by (intro rules m) simp_all
  show c: "good_but clr E {SSTORE} cancun_tbl" if "BlobBaseFee E \<noteq> None" unfolding cancun_tbl_def by (intro rules s that) simp_all
  show "good_but clr E {SSTORE} prague_tbl" if "BlobBaseFee E \<noteq> None" unfolding prague_tbl_def by (intro rules c [OF that]) simp_all
qed

text \<open>The entry of \<open>SSTORE\<close>, and that of \<open>STOP\<close>, on which a frame falls when it runs past its code.\<close>

lemma sstore_entry:
  "homestead_tbl SSTORE = frontier_tbl SSTORE" "tangerine_tbl SSTORE = frontier_tbl SSTORE" "spurious_tbl SSTORE = frontier_tbl SSTORE"
  "byzantium_tbl SSTORE = frontier_tbl SSTORE" "constantinople_tbl SSTORE = frontier_tbl SSTORE"
  "berlin_tbl SSTORE = Some (dyn_op opSstore 0 gasSStoreEIP2929 (minStack 2 0) (maxStack 2 0))"
  "london_tbl SSTORE = Some (dyn_op opSstore 0 gasSStoreEIP3529 (minStack 2 0) (maxStack 2 0))"
  "merge_tbl SSTORE = london_tbl SSTORE" "shanghai_tbl SSTORE = london_tbl SSTORE" "cancun_tbl SSTORE = london_tbl SSTORE"
  "prague_tbl SSTORE = london_tbl SSTORE"
  by (simp_all add: early_tbl_defs late_tbl_defs)

lemma stop_entry:
  "homestead_tbl STOP = frontier_tbl STOP" "tangerine_tbl STOP = frontier_tbl STOP" "spurious_tbl STOP = frontier_tbl STOP"
  "byzantium_tbl STOP = frontier_tbl STOP" "constantinople_tbl STOP = frontier_tbl STOP" "istanbul_tbl STOP = frontier_tbl STOP"
  "berlin_tbl STOP = frontier_tbl STOP" "london_tbl STOP = frontier_tbl STOP" "merge_tbl STOP = frontier_tbl STOP"
  "shanghai_tbl STOP = frontier_tbl STOP" "cancun_tbl STOP = frontier_tbl STOP" "prague_tbl STOP = frontier_tbl STOP"
  by (simp_all add: early_tbl_defs late_tbl_defs)

definition table_good :: "nat \<Rightarrow> env \<Rightarrow> JumpTable \<Rightarrow> bool" where
  "table_good clr E jt \<longleftrightarrow> (\<forall>b. \<exists>op. jt b = Some op \<and> op_good clr E op)
     \<and> jt STOP = Some (plain_op opStop 0 (minStack 0 0) (maxStack 0 0))"

lemma table_goodI:
  assumes "good_but clr E {SSTORE} jt" and "jt SSTORE = Some (dyn_op opSstore 0 g (minStack 2 0) (maxStack 2 0))"
    and "sstore_fine clr E g" and "jt STOP = frontier_tbl STOP"
  shows "table_good clr E jt"
  using assms(1,4) good_sstore [OF assms(3)] assms(2)
  unfolding table_good_def good_but_def frontier_lookup(11) by (metis singletonD)

theorem selected_table_good:
  assumes "env_ok E"
  shows "\<exists>jt. select_table (chainRules E) = Some jt \<and> table_good (clears (chainRules E)) E jt"
proof -
  have e: "frontier_env E" "\<not> IsVerkle (chainRules E)" using assms by (simp_all add: env_ok_def)
  have f: "since_istanbul (chainRules E) \<Longrightarrow> ChainID E \<noteq> None" "since_london (chainRules E) \<Longrightarrow> BaseFee E \<noteq> None"
    "since_merge (chainRules E) \<Longrightarrow> Random E \<noteq> None" "since_cancun (chainRules E) \<Longrightarrow> BlobBaseFee E \<noteq> None"
    using assms by (simp_all add: env_ok_def)
  note since = since_istanbul_def since_london_def since_merge_def since_cancun_def
  show ?thesis
  proof (cases "since_london (chainRules E)")
    case True
    have i: "ChainID E \<noteq> None" using f(1) True by (simp add: since_istanbul_def)
    note tables = table_goodI [OF _ _ sstore_gases(4)]
    have l: "table_good 4800 E london_tbl" by (rule tables [OF good_london [OF e(1) i f(2) [OF True]]]) (simp_all add: sstore_entry stop_entry)
    have r: "table_good 4800 E merge_tbl" "table_good 4800 E shanghai_tbl" if "since_merge (chainRules E)"
      by (rule tables [OF good_since_merge(1) [OF e(1) i f(2) [OF True] f(3) [OF that]]], simp_all add: sstore_entry stop_entry)
        (rule tables [OF good_since_merge(2) [OF e(1) i f(2) [OF True] f(3) [OF that]]], simp_all add: sstore_entry stop_entry)
    have c: "table_good 4800 E cancun_tbl" "table_good 4800 E prague_tbl" if "since_cancun (chainRules E)"
    proof -
      have m: "since_merge (chainRules E)" using that by (simp add: since_merge_def)
      note g = good_since_merge(3,4) [OF e(1) i f(2) [OF True] f(3) [OF m] f(4) [OF that]]
      show "table_good 4800 E cancun_tbl" by (rule tables [OF g(1)]) (simp_all add: sstore_entry stop_entry)
      show "table_good 4800 E prague_tbl" by (rule tables [OF g(2)]) (simp_all add: sstore_entry stop_entry)
    qed
    show ?thesis using True l r c e(2) by (auto simp: select_table_def fork_tables clears_def since)
  next
    case False
    note tables = table_goodI [OF _ _ sstore_gases(1)]
    have u: "table_good 15000 E frontier_tbl" "table_good 15000 E homestead_tbl" "table_good 15000 E tangerine_tbl"
      "table_good 15000 E spurious_tbl" "table_good 15000 E byzantium_tbl" "table_good 15000 E constantinople_tbl"
      by (rule tables, rule good_frontier [OF e(1)] good_until_istanbul [OF e(1)], simp add: sstore_entry frontier_lookup, simp add: stop_entry)+
    have i: "table_good 15000 E istanbul_tbl" "table_good 15000 E berlin_tbl" if "since_istanbul (chainRules E)"
      by (rule table_goodI [OF good_istanbul [OF e(1) f(1) [OF that]] _ sstore_gases(2)], simp add: istanbul_lookup, simp add: stop_entry)
        (rule table_goodI [OF good_berlin [OF e(1) f(1) [OF that]] _ sstore_gases(3)], simp add: sstore_entry, simp add: stop_entry)
    show ?thesis using False u i e(2) by (auto simp: select_table_def fork_tables clears_def since)
  qed
qed

end
