(* ===== verification/VM_RunProofs.thy ===== *)
theory VM_RunProofs
  imports VM_Tables
begin

text \<open>
  The interpreter loop and the frames it runs: a frame ends, within the bound on its iterations, and
  what it leaves behind. The promises of the call operations of the EVM (\<open>calls_ok\<close>) are proved by
  induction on the number of nested frames.
\<close>

section \<open>One iteration\<close>

lemma run_step_good:
  assumes jt: "table_good clr E jt" and e: "\<not> IsEIP4762 (chainRules E)"
    and w: "evm_ok clr E w" and sc: "frame_ok E sc" and l: "length (Stk sc) \<le> StackLimit"
    and room: "roomy w (Gas (Con sc))" and k: "calls_ok clr E (depth w) k"
  shows "step_res clr E w sc (run_step E jt k pc w sc)"
proof (cases "unat pc < length (Code (Con sc))")
  case True
  obtain op where op: "jt (GetOp (Con sc) pc) = Some op" "op_good clr E op" using jt by (auto simp: table_good_def)
  then have "step_res clr E w sc (exec_op E k op pc w sc)"
    using w sc l room True k by (auto simp: op_good_def)
  then show ?thesis by (simp add: run_step_def charge_chunk_def e op(1))
next
  case False
  have "GetOp (Con sc) pc = STOP"
    using False frame_okD(2) [OF sc] by (simp add: GetOp_def word_less_nat_alt small_def unat_u64_of_nat)
  moreover have "step_res clr E w sc (exec_op E k (plain_op opStop 0 (minStack 0 0) (maxStack 0 0)) pc w sc)"
    by (rule step_res_stop [OF w sc]) (simp_all add: entry_def plain_op_def stack_bound_defs)
  moreover have "jt STOP = Some (plain_op opStop 0 (minStack 0 0) (maxStack 0 0))" using jt by (simp add: table_good_def)
  ultimately show ?thesis by (simp add: run_step_def charge_chunk_def e)
qed

section \<open>The loop\<close>

lemma goes_on_ends:
  assumes "goes_on clr E w sc w1 sc1" and "ends clr E w1 sc1 res err w' sc'"
  shows "ends clr E w sc res err w' sc'"
  using assms follows_trans [OF after_follows, of E w w1 w'] after_trans [of E w w1 w']
  by (auto simp: goes_on_def ends_def)

text \<open>Every iteration that goes on has used gas, so that one iteration more than there is gas is enough.\<close>

lemma run_loop_ends:
  assumes jt: "table_good clr E jt" and e: "\<not> IsEIP4762 (chainRules E)"
  shows "evm_ok clr E w \<Longrightarrow> frame_ok E sc \<Longrightarrow> length (Stk sc) \<le> StackLimit \<Longrightarrow> roomy w (Gas (Con sc)) \<Longrightarrow>
    calls_ok clr E (depth w) k \<Longrightarrow> unat (Gas (Con sc)) < n \<Longrightarrow>
    \<exists>res err w' sc'. run_loop n E jt k pc w sc = Some (res, err, w', sc') \<and> ends clr E w sc res err w' sc'"
proof (induction n arbitrary: pc w sc)
  case (Suc n)
  have "step_res clr E w sc (run_step E jt k pc w sc)"
    using run_step_good [OF jt e Suc.prems(1-5)] .
  then obtain x where x: "run_step E jt k pc w sc = Some x" and post: "case x of Inl (pc', w', sc') \<Rightarrow> goes_on clr E w sc w' sc'
    | Inr (res, err, w', sc') \<Rightarrow> ends clr E w sc res err w' sc'" unfolding step_res_def by blast
  show ?case
  proof (cases x)
    case (Inl a)
    then obtain pc1 w1 sc1 where a: "x = Inl (pc1, w1, sc1)" by (cases a) auto
    then have g: "goes_on clr E w sc w1 sc1" using post by simp
    then have "evm_ok clr E w1" "frame_ok E sc1" "length (Stk sc1) \<le> StackLimit" "depth w1 = depth w"
      "roomy w1 (Gas (Con sc1))" "unat (Gas (Con sc1)) < n"
      using Suc.prems(4,6) by (auto simp: goes_on_def after_def follows_def roomy_def word_less_nat_alt)
    then obtain res err w' sc' where r: "run_loop n E jt k pc1 w1 sc1 = Some (res, err, w', sc')" "ends clr E w1 sc1 res err w' sc'"
      using Suc.IH [of w1 sc1 pc1] Suc.prems(5) by auto
    then show ?thesis using goes_on_ends [OF g r(2)] by (simp add: x a)
  next
    case (Inr b)
    then show ?thesis using post x by (cases b) auto
  qed
qed simp

section \<open>A frame\<close>

text \<open>What \<open>Run\<close> promises. \<open>quiet_frame\<close> is the read-only flag the frame runs under.\<close>

definition run_res :: "nat \<Rightarrow> env \<Rightarrow> bool \<Rightarrow> evm \<Rightarrow> Contract \<Rightarrow> (bytes \<times> vmerr option \<times> evm \<times> Contract) option \<Rightarrow> bool" where
  "run_res clr E quiet_frame w c r \<longleftrightarrow> (\<exists>ret err w' c'. r = Some (ret, err, w', c') \<and> evm_weak E w' \<and> follows E w w' \<and> small ret
     \<and> Gas c' \<le> Gas c \<and> err \<noteq> Some ErrCodeStoreOutOfGas
     \<and> (err = None \<longrightarrow> evm_ok clr E w' \<and> (quiet_frame \<longrightarrow> frozen (view (db w)) (view (db w'))) \<and> pot w' (Gas c') \<le> pot w (Gas c) + 24000))"

lemma Run_good:
  assumes jt: "table_good clr E jt" and e: "\<not> IsEIP4762 (chainRules E)" and w: "evm_ok clr E w"
    and c: "Code c \<noteq> [] \<Longrightarrow> con_ok (keccak E) (c\<lparr>Input := input\<rparr>)" and room: "roomy w (Gas c)" and k: "calls_ok clr E (depth w + 1) k"
  shows "run_res clr E (readOnly w \<or> ro) w c (Run E jt k w c input ro)"
proof -
  define w1 where "w1 = w\<lparr>depth := depth w + 1, readOnly := readOnly w \<or> ro, returnData := []\<rparr>"
  have w1: "evm_ok clr E w1" using w by (simp add: w1_def evm_ok_def)
  have restored: "follows E w (w'\<lparr>depth := depth w' - 1, readOnly := if ro \<and> \<not> readOnly w then False else readOnly w'\<rparr>)"
    if "follows E w1 w'" for w' using that by (auto simp: follows_def w1_def)
  show ?thesis
  proof (cases "Code c = []")
    case True
    then have r: "Run E jt k w c input ro =
      Some ([], None, w1\<lparr>depth := depth w1 - 1, readOnly := if ro \<and> \<not> readOnly w then False else readOnly w1\<rparr>, c)"
      by (auto simp: Run_def Let_def w1_def)
    show ?thesis unfolding r run_res_def using restored [OF follows_refl [OF w1]] w
      by (auto simp: w1_def evm_ok_def evm_weak_def world_ok_def pot_def)
  next
    case False
    let ?sc = "\<lparr>Mem = NewMemory, Stk = [], Con = c\<lparr>Input := input\<rparr>\<rparr>"
    have "frame_ok E ?sc" using c [OF False] by (simp add: frame_ok_def mem_wf_New)
    moreover have "roomy w1 (Gas c)" using room by (simp add: w1_def roomy_def pot_def)
    moreover have "calls_ok clr E (depth w1) k" using k by (simp add: w1_def)
    ultimately obtain res err w' sc' where r: "run_loop (unat (Gas c) + 1) E jt k 0 w1 ?sc = Some (res, err, w', sc')"
      and post: "ends clr E w1 ?sc res err w' sc'"
      using run_loop_ends [OF jt e w1, of ?sc k "unat (Gas c) + 1" 0] by auto
    let ?w = "w'\<lparr>depth := depth w' - 1, readOnly := if ro \<and> \<not> readOnly w then False else readOnly w'\<rparr>"
    have run: "Run E jt k w c input ro = Some (res, if err = Some errStopToken then None else err, ?w, Con sc')"
      using False r by (auto simp: Run_def Let_def w1_def simp del: run_loop.simps)
    have f: "follows E w ?w" using restored post by (simp add: ends_def)
    show ?thesis unfolding run run_res_def using post f
      by (auto simp: ends_def w1_def evm_ok_def evm_weak_def pot_def after_def)
  qed
qed

section \<open>Preparing a frame\<close>

text \<open>A soft change that is a frozen one in a static frame.\<close>

definition softly :: "env \<Rightarrow> bool \<Rightarrow> evm \<Rightarrow> evm \<Rightarrow> bool" where
  "softly E q w w' \<longleftrightarrow> soft E w w' \<and> (q \<longrightarrow> frozen (view (db w)) (view (db w')))"

lemma softly_trans: "softly E q w w' \<Longrightarrow> softly E q w' w'' \<Longrightarrow> softly E q w w''"
  unfolding softly_def using soft_trans frozen_trans by blast

lemma softly_still: "evm_ok clr E w \<Longrightarrow> still E w w' \<Longrightarrow> softly E q w w'"
  by (simp add: softly_def soft_still still_view)

lemma softly_ok: "evm_ok clr E w \<Longrightarrow> softly E q w w' \<Longrightarrow> evm_ok clr E w'"
  unfolding softly_def using soft_ok by blast

lemma softly_sel:
  assumes "softly E q w w'"
  shows "follows E w w'" "refund (db w') = refund (db w)" "depth w' = depth w" "readOnly w' = readOnly w"
    "q \<Longrightarrow> frozen (view (db w)) (view (db w'))"
  using assms soft_follows [of E w w'] soft_refund [of E w w'] by (auto simp: softly_def follows_def)

lemma softly_refl: "evm_ok clr E w \<Longrightarrow> softly E q w w"
  by (rule softly_still) simp_all

lemma softly_frozen_db:
  "evolves (keccak E) (db w) s \<Longrightarrow> view s = view (db w) \<Longrightarrow> softly E q w (w\<lparr>db := s\<rparr>)"
  unfolding softly_def soft_def using refund_view [of s "db w"] by (auto intro!: exI [of _ s])

lemma snapshot_softly:
  assumes "evm_ok clr E w" and "snapshot w = (i, w1)"
  shows "softly E q w w1" "Snapshot (db w) = (i, db w1)"
proof -
  obtain s where s: "Snapshot (db w) = (i, s)" "w1 = w\<lparr>db := s\<rparr>"
    using assms(2) by (auto simp: snapshot_def Let_def split: prod.splits)
  then show "Snapshot (db w) = (i, db w1)" by simp
  show "softly E q w w1" using evolves_Snapshot [OF evm_ok_sinv [OF assms(1)] s(1)] s(2) by (simp add: softly_frozen_db)
qed

lemma frozen_fresh: "vAccounts v a = None \<Longrightarrow> frozen v (v_set a (Some (fresh_view v a)) v)"
  using frozen_ensure [of v a] by (simp add: v_ensure_def)

lemma softly_CreateAccount:
  assumes "evm_ok clr E w" and "vAccounts (view (db w)) a = None"
  shows "softly E q w (writes (\<lambda>s. CreateAccount s a) w)"
  unfolding softly_def using CreateAccount_spec [OF evm_ok_sinv [OF assms(1)] assms(2)] assms(2)
  by (intro conjI impI soft_writes refund_view) (simp_all add: tame_fresh frozen_fresh vRefund_upd writes_def)

lemma Transfer_writes:
  "writes (\<lambda>s. Transfer s x y v) w = writes (\<lambda>s. snd (AddBalance s y v)) (writes (\<lambda>s. snd (SubBalance s x v)) w)"
  by (simp add: writes_def Transfer_def)

lemma softly_AddBalance:
  assumes "evm_ok clr E w" and "q \<Longrightarrow> x = 0"
  shows "softly E q w (writes (\<lambda>s. snd (AddBalance s a x)) w)" "softly E q w (writes (\<lambda>s. snd (SubBalance s a x)) w)"
  unfolding softly_def using soft_AddBalance [OF assms(1)] soft_SubBalance [OF assms(1)] assms(2)
    AddBalance_spec(2) [OF evm_ok_sinv [OF assms(1)], of a x] SubBalance_spec(2) [OF evm_ok_sinv [OF assms(1)], of a x]
  by (cases q; simp add: writes_def v_add_balance_0 frozen_ensure)+

lemma softly_Transfer:
  assumes "evm_ok clr E w" and "q \<Longrightarrow> v = 0"
  shows "softly E q w (writes (\<lambda>s. Transfer s x y v) w)"
  unfolding Transfer_writes
  using softly_trans softly_AddBalance(2) [OF assms] softly_AddBalance(1) [OF softly_ok [OF assms(1) softly_AddBalance(2) [OF assms]] assms(2)]
  by blast

section \<open>Which code a call runs\<close>

definition code_target :: "env \<Rightarrow> sview \<Rightarrow> address \<Rightarrow> address" where
  "code_target E v a = (if IsPrague (chainRules E) then case ParseDelegation (vCodeAt v a) of Some t \<Rightarrow> t | None \<Rightarrow> a else a)"

lemma resolveCode_spec:
  assumes "evm_ok clr E w"
  shows "\<exists>w'. resolveCode E w a = (vCodeAt (view (db w)) (code_target E (view (db w)) a), w') \<and> still E w w'"
proof -
  let ?v = "view (db w)"
  obtain w1 where r: "reads (\<lambda>s. GetCode s a) w = (vCodeAt ?v a, w1)" "still E w w1" using reads_GetCode [OF assms] by blast
  have "\<exists>w2. reads (\<lambda>s. GetCode s t) w1 = (vCodeAt ?v t, w2) \<and> still E w w2" for t
    using reads_GetCode [OF still_ok [OF assms r(2)], of t] still_trans [OF r(2)] still_view [OF r(2)] by auto
  then show ?thesis using r by (auto simp: resolveCode_def code_target_def split: option.splits)
qed

lemma resolveCodeHash_spec:
  assumes "evm_ok clr E w"
  shows "\<exists>w'. resolveCodeHash E w a = (vCodeHashAt (view (db w)) (code_target E (view (db w)) a), w') \<and> still E w w'"
proof -
  let ?v = "view (db w)"
  obtain w1 where r: "reads (\<lambda>s. GetCode s a) w = (vCodeAt ?v a, w1)" "still E w w1" using reads_GetCode [OF assms] by blast
  have "\<exists>w2. reads (\<lambda>s. GetCodeHash s t) w1 = (vCodeHashAt ?v t, w2) \<and> still E w w2" for t
    using reads_GetCodeHash [OF still_ok [OF assms r(2)], of t] still_trans [OF r(2)] still_view [OF r(2)] by auto
  then show ?thesis using r reads_GetCodeHash [OF assms, of a]
    by (auto simp: resolveCodeHash_def code_target_def split: option.splits)
qed

lemma vCodeAt_hash:
  assumes "sdb_ok H s" and "vCodeAt (view s) a \<noteq> []"
  shows "H (vCodeAt (view s) a) = vCodeHashAt (view s) a"
proof -
  obtain obj where o: "peek_obj s a = Some obj" using assms(2) by (cases "peek_obj s a") (auto simp: vget_defs)
  have "obj_ok H a obj" "reader_ok H (reader s)" using peek_obj_ok [OF assms(1) o] assms(1) by (auto simp: sdb_ok_def)
  then show ?thesis using assms(2) o
    by (auto simp: vget_defs obj_view_def code_of_def obj_ok_def reader_ok_def split: if_splits)
qed

section \<open>The bracket around a call\<close>

text \<open>What is known of a call between its snapshot (state \<open>w1\<close>) and its end.\<close>

definition body_res :: "nat \<Rightarrow> env \<Rightarrow> bool \<Rightarrow> evm \<Rightarrow> evm \<Rightarrow> u64 \<Rightarrow> callres \<Rightarrow> bool" where
  "body_res clr E q w w1 gas out \<longleftrightarrow> (\<exists>ret gas' err w2. out = Some (ret, gas', err, w2) \<and> evm_weak E w2 \<and> follows E w1 w2
     \<and> small ret \<and> gas' \<le> gas
     \<and> (err = None \<longrightarrow> evm_ok clr E w2 \<and> (q \<longrightarrow> frozen (view (db w)) (view (db w2))) \<and> pot w2 gas' \<le> pot w gas + 24000))"

text \<open>The result of a call that leaves the world frozen when \<open>q\<close> holds.\<close>

definition static_res :: "nat \<Rightarrow> env \<Rightarrow> bool \<Rightarrow> evm \<Rightarrow> u64 \<Rightarrow> callres \<Rightarrow> bool" where
  "static_res clr E q w gas r \<longleftrightarrow> call_res clr E w gas r
     \<and> (q \<longrightarrow> (\<forall>ret gas' err w'. r = Some (ret, gas', err, w') \<longrightarrow> frozen (view (db w)) (view (db w'))))"

lemma static_resI:
  assumes "r = Some (ret, gas', err, w')" and "evm_ok clr E w'" and "follows E w w'" and "small ret" and "gas' \<le> gas"
    and "pot w' gas' \<le> pot w gas + 24000" and "err \<noteq> None \<Longrightarrow> view (db w') = view (db w)"
    and "q \<Longrightarrow> frozen (view (db w)) (view (db w'))" and "readOnly w \<Longrightarrow> q"
  shows "static_res clr E q w gas r"
  using assms by (auto simp: static_res_def call_res_def after_def)

lemma static_res_still:
  assumes "evm_ok clr E w" and "still E w w'" and "readOnly w \<Longrightarrow> q"
  shows "static_res clr E q w gas (Some ([], gas, err, w'))"
  using softly_still [OF assms(1,2), of True] softly_ok [OF assms(1) softly_still [OF assms(1,2), of True]] assms(3) still_view [OF assms(2)]
  by (intro static_resI [where w' = w' and ret = "[]" and gas' = gas and err = err]) (auto simp: softly_sel pot_def)

lemma settle_good:
  assumes w: "evm_ok clr E w" and s: "snapshot w = (i, w1)" and b: "body_res clr E q w w1 gas out" and q: "readOnly w \<Longrightarrow> q"
  shows "static_res clr E q w gas (do { out \<leftarrow> out; settle E i out })"
proof -
  obtain ret gas' err w2 where o: "out = Some (ret, gas', err, w2)" "evm_weak E w2" "follows E w1 w2" "small ret" "gas' \<le> gas"
    and ok: "err = None \<Longrightarrow> evm_ok clr E w2" "err = None \<Longrightarrow> q \<Longrightarrow> frozen (view (db w)) (view (db w2))"
      "err = None \<Longrightarrow> pot w2 gas' \<le> pot w gas + 24000"
    using b unfolding body_res_def by blast
  note s1 = snapshot_softly [OF w s]
  have f: "follows E w w2" using follows_trans [OF softly_sel(1) [OF s1(1)] o(3)] .
  show ?thesis
  proof (cases err)
    case None
    show ?thesis by (rule static_resI [where w' = w2 and ret = ret and gas' = gas' and err = None])
      (use o ok None f q in \<open>simp_all add: settle_def\<close>)
  next
    case (Some e)
    have "evolves (keccak E) (db w1) (db w2)" using o(3) by (simp add: follows_def)
    then obtain r where r: "RevertToSnapshot (keccak E) (db w2) i = Some r" "view r = view (db w)" "evolves (keccak E) (db w) r"
      using sdb.rollback_snap [OF evm_ok_sinv [OF w] s1(2)] by blast
    let ?w = "w2\<lparr>db := r\<rparr>"
    have "evm_ok clr E ?w" using world_ok_restored [OF _ r(3,2)] w o(2) by (simp add: evm_ok_def evm_weak_def)
    moreover have "follows E w ?w" using f r(3) by (simp add: follows_def)
    moreover have "refund r = refund (db w)" using refund_view [of r "db w"] r(2) by simp
    ultimately show ?thesis using o Some q r
      by (intro static_resI [where w' = ?w and ret = ret and gas' = "if e \<noteq> ErrExecutionReverted then 0 else gas'" and err = "Some e"])
        (auto simp: settle_def rollback_def pot_def word_le_nat_alt)
  qed
qed

section \<open>The bodies of calls\<close>

definition runs_ok :: "nat \<Rightarrow> env \<Rightarrow> nat \<Rightarrow> runner \<Rightarrow> bool" where
  "runs_ok clr E d R \<longleftrightarrow> (\<forall>w c input ro. evm_ok clr E w \<and> depth w = d \<and> (Code c \<noteq> [] \<longrightarrow> con_ok (keccak E) (c\<lparr>Input := input\<rparr>))
     \<and> roomy w (Gas c) \<longrightarrow> run_res clr E (readOnly w \<or> ro) w c (R w c input ro))"

text \<open>Precompiled contracts return data of bounded length.\<close>

definition precompiles_ok :: "env \<Rightarrow> bool" where
  "precompiles_ok E \<longleftrightarrow> (\<forall>a p input. precompiles E a = Some p \<and> small input \<longrightarrow> small (fst (pRun p input)))"

lemma body_precompile:
  assumes w: "evm_ok clr E w" and p: "precompiles_ok E" "precompiles E a = Some p" and i: "small input"
    and w1: "softly E q w w1" and w2: "softly E q w1 w2" and g: "gas1 \<le> gas"
  shows "body_res clr E q w w1 gas (run_precompile p input gas1 w2)"
proof -
  note s = softly_trans [OF w1 w2]
  have ok: "evm_ok clr E w2" using softly_ok [OF w s] .
  have "small (fst (pRun p input))" using p i unfolding precompiles_ok_def by blast
  moreover have "gas1 - RequiredGas p input \<le> gas" if "\<not> gas1 < RequiredGas p input"
    using that g by (simp add: word_le_nat_alt unat_sub not_less)
  ultimately show ?thesis
    using ok evm_ok_weak [OF ok] softly_sel [OF w2] softly_sel(2,5) [OF s]
    by (auto simp: body_res_def run_precompile_def RunPrecompiledContract_def Let_def pot_def word_le_nat_alt split: prod.split)
qed

lemma body_run:
  assumes w: "evm_ok clr E w" and R: "runs_ok clr E (depth w) R" and w1: "softly E q w w1" and w2: "softly E q w1 w2"
    and c: "Code c \<noteq> [] \<Longrightarrow> con_ok (keccak E) (c\<lparr>Input := input\<rparr>)" and g: "Gas c \<le> gas" and room: "roomy w gas"
    and q: "q \<Longrightarrow> readOnly w \<or> ro"
  shows "body_res clr E q w w1 gas (run_contract R w2 c input ro)"
proof -
  note s = softly_trans [OF w1 w2]
  have ok: "evm_ok clr E w2" using softly_ok [OF w s] .
  have p: "pot w2 (Gas c) \<le> pot w gas" using g softly_sel(2) [OF s] by (simp add: pot_def word_le_nat_alt)
  then have "roomy w2 (Gas c)" using room by (simp add: roomy_def)
  then have "run_res clr E (readOnly w2 \<or> ro) w2 c (R w2 c input ro)"
    using R ok c softly_sel(3) [OF s] unfolding runs_ok_def by blast
  then obtain ret err w' c' where r: "R w2 c input ro = Some (ret, err, w', c')" "evm_weak E w'" "follows E w2 w'" "small ret"
      "Gas c' \<le> Gas c" and post: "err = None \<Longrightarrow> evm_ok clr E w'"
      "err = None \<Longrightarrow> readOnly w2 \<or> ro \<Longrightarrow> frozen (view (db w2)) (view (db w'))" "err = None \<Longrightarrow> pot w' (Gas c') \<le> pot w2 (Gas c) + 24000"
    unfolding run_res_def by blast
  have "frozen (view (db w)) (view (db w'))" if "err = None" q
    using frozen_trans [OF softly_sel(5) [OF s that(2)] post(2) [OF that(1)]] q [OF that(2)] softly_sel(4) [OF s] by simp
  then show ?thesis using r post p g follows_trans [OF softly_sel(1) [OF w2] r(3)]
    by (auto simp: body_res_def run_contract_def)
qed

lemma con_ok_call:
  assumes "evm_ok clr E w" and "small input" and "vCodeAt (view (db w)) t \<noteq> []" and "analysis c = None"
  shows "con_ok (keccak E) ((SetCallCode c (vCodeHashAt (view (db w)) t) (vCodeAt (view (db w)) t))\<lparr>Input := input\<rparr>)"
  using assms vCodeAt_small [OF assms(1)] vCodeAt_hash [OF sinvD(1) [OF evm_ok_sinv [OF assms(1)]] assms(3)]
  by (simp add: con_ok_def SetCallCode_def)

section \<open>The four calls\<close>

lemma reads_CanTransfer:
  assumes "evm_ok clr E w"
  shows "\<exists>w'. reads (\<lambda>s. CanTransfer s a v) w = (v \<le> vBal (view (db w)) a, w') \<and> still E w w'"
proof -
  obtain t where "GetBalance (db w) a = (vBal (view (db w)) a, t)" "quiet (keccak E) (db w) t" using GetBalance_spec by blast
  then show ?thesis by (intro reads_still) (simp add: CanTransfer_def)
qed

text \<open>A condition on the state at the start that reading does not change.\<close>

lemma static_res_from:
  assumes w: "evm_ok clr E w" and s: "still E w w'" and r: "static_res clr E q w' gas r"
  shows "static_res clr E q w gas r"
proof -
  have f: "follows E w w'" "refund (db w') = refund (db w)" using softly_sel [OF softly_still [OF w s, of False]] by simp_all
  have v: "view (db w') = view (db w)" "readOnly w' = readOnly w" using still_view [OF s] still_sel [OF s] by simp_all
  obtain ret gas' err w2 where o: "r = Some (ret, gas', err, w2)" "evm_ok clr E w2" "after E w' w2" "small ret" "gas' \<le> gas"
    "pot w2 gas' \<le> pot w' gas + 24000" "err \<noteq> None \<longrightarrow> view (db w2) = view (db w')"
    using r unfolding static_res_def call_res_def by blast
  have "after E w w2" using o(3) f(1) v follows_trans [OF f(1)] by (simp add: after_def)
  then show ?thesis using o r f(2) v unfolding static_res_def call_res_def by (auto simp: pot_def)
qed

lemma run_code_at_good:
  assumes w: "evm_ok clr E w" and s: "snapshot w = (i, w1)" and w2: "softly E q w1 w2" and R: "runs_ok clr E (depth w) R"
    and p: "precompiles_ok E" and input: "small input" and room: "roomy w gas" and c: "analysis c = None" "Gas c = gas"
    and q: "readOnly w \<Longrightarrow> q" "q \<Longrightarrow> readOnly w \<or> ro"
  shows "static_res clr E q w gas (run_code_at E R w2 i addr c input gas ro)"
proof -
  note w1 = snapshot_softly(1) [OF w s, of q]
  have ok2: "evm_ok clr E w2" using softly_ok [OF w softly_trans [OF w1 w2]] .
  let ?v = "view (db w2)" let ?t = "code_target E (view (db w2)) addr"
  obtain w3 where h: "resolveCodeHash E w2 addr = (vCodeHashAt ?v ?t, w3)" "still E w2 w3"
    using resolveCodeHash_spec [OF ok2] by blast
  have ok3: "evm_ok clr E w3" and v3: "view (db w3) = ?v" using still_ok [OF ok2 h(2)] still_view [OF h(2)] .
  obtain w4 where code: "resolveCode E w3 addr = (vCodeAt ?v ?t, w4)" "still E w3 w4"
    using resolveCode_spec [OF ok3, of addr] v3 by auto
  have ok4: "evm_ok clr E w4" and v4: "view (db w4) = ?v" using still_ok [OF ok3 code(2)] still_view [OF code(2)] v3 by simp_all
  have s4: "softly E q w1 w4" using softly_trans [OF w2 softly_still [OF ok2 still_trans [OF h(2) code(2)]]] .
  let ?c = "SetCallCode c (vCodeHashAt ?v ?t) (vCodeAt ?v ?t)"
  have con: "con_ok (keccak E) (?c\<lparr>Input := input\<rparr>)" if "Code ?c \<noteq> []"
    using con_ok_call [OF ok4 input, of ?t c] that c(1) v4 by (simp add: SetCallCode_def)
  have "body_res clr E q w w1 gas (case precompiles E addr of Some p \<Rightarrow> run_precompile p input gas w2
      | None \<Rightarrow> run_contract R w4 ?c input ro)"
  proof (cases "precompiles E addr")
    case None
    have g: "Gas ?c \<le> gas" using c(2) by (simp add: SetCallCode_def)
    show ?thesis using body_run [OF w R w1 s4 con g room q(2)] None by simp
  next
    case (Some p')
    then show ?thesis using body_precompile [OF w p Some input w1 w2 order_refl] by simp
  qed
  then have "static_res clr E q w gas (do { out \<leftarrow> (case precompiles E addr of Some p \<Rightarrow> run_precompile p input gas w2
      | None \<Rightarrow> run_contract R w4 ?c input ro); settle E i out })" by (rule settle_good [OF w s _ q(1)])
  then show ?thesis by (simp add: run_code_at_def h(1) code(1) cong: option.case_cong)
qed

lemma new_contract_sel [simp]: "analysis (NewContract a b v g) = None" "Gas (NewContract a b v g) = g" "CodeHash (NewContract a b v g) = 0"
  by (simp_all add: NewContract_def)

lemma CallCode_good:
  assumes w: "evm_ok clr E w" and R: "depth w \<le> CallCreateDepth \<Longrightarrow> runs_ok clr E (depth w) R" and p: "precompiles_ok E"
    and i: "small input" and room: "roomy w gas"
  shows "static_res clr E (readOnly w) w gas (CallCode E R w caller addr input gas val)"
proof (cases "depth w > CallCreateDepth")
  case True
  then show ?thesis using static_res_still [OF w still_refl] by (simp add: CallCode_def)
next
  case False
  obtain b w1 where can: "reads (\<lambda>s. CanTransfer s caller val) w = (b, w1)" "still E w w1" using reads_CanTransfer [OF w] by blast
  obtain j w2 where s: "snapshot w1 = (j, w2)" by fastforce
  note st = still_sel [OF can(2)] and ok1 = still_ok [OF w can(2)]
  have room1: "roomy w1 gas" using room softly_sel(2) [OF softly_still [OF w can(2), of False]] by (simp add: roomy_def pot_def)
  have "static_res clr E (readOnly w) w1 gas (run_code_at E R w2 j addr (NewContract caller caller val gas) input gas False)"
    by (rule run_code_at_good [OF ok1 s softly_refl]) (use R False st p i room1 softly_ok [OF ok1 snapshot_softly(1) [OF ok1 s]] in auto)
  then have "static_res clr E (readOnly w) w gas (run_code_at E R w2 j addr (NewContract caller caller val gas) input gas False)"
    by (rule static_res_from [OF w can(2)])
  then show ?thesis using False static_res_still [OF w can(2), of "readOnly w"] by (simp add: CallCode_def can(1) s)
qed

lemma DelegateCall_good:
  assumes w: "evm_ok clr E w" and R: "depth w \<le> CallCreateDepth \<Longrightarrow> runs_ok clr E (depth w) R" and p: "precompiles_ok E"
    and i: "small input" and room: "roomy w gas"
  shows "static_res clr E (readOnly w) w gas (DelegateCall E R w orig caller addr input gas val)"
proof (cases "depth w > CallCreateDepth")
  case True
  then show ?thesis using static_res_still [OF w still_refl] by (simp add: DelegateCall_def)
next
  case False
  obtain j w1 where s: "snapshot w = (j, w1)" by fastforce
  have "static_res clr E (readOnly w) w gas (run_code_at E R w1 j addr (NewContract orig caller val gas) input gas False)"
    by (rule run_code_at_good [OF w s softly_refl]) (use R False p i room softly_ok [OF w snapshot_softly(1) [OF w s]] in auto)
  then show ?thesis using False by (simp add: DelegateCall_def s)
qed

text \<open>A static call leaves the world frozen whatever frame it is made from.\<close>

lemma StaticCall_good:
  assumes w: "evm_ok clr E w" and R: "depth w \<le> CallCreateDepth \<Longrightarrow> runs_ok clr E (depth w) R" and p: "precompiles_ok E"
    and i: "small input" and room: "roomy w gas"
  shows "static_res clr E True w gas (StaticCall E R w caller addr input gas)"
proof (cases "depth w > CallCreateDepth")
  case True
  then show ?thesis using static_res_still [OF w still_refl] by (simp add: StaticCall_def)
next
  case False
  obtain j w1 where s: "snapshot w = (j, w1)" by fastforce
  note ok1 = softly_ok [OF w snapshot_softly(1) [OF w s]]
  have "static_res clr E True w gas (run_code_at E R (writes (\<lambda>s. snd (AddBalance s addr 0)) w1) j addr (NewContract caller addr 0 gas) input gas True)"
    by (rule run_code_at_good [OF w s softly_AddBalance(1) [OF ok1]]) (use R False p i room in auto)
  then show ?thesis using False by (simp add: StaticCall_def s)
qed

text \<open>The branch for an absent account, on a chain without EIP-4762.\<close>

lemma call_absent_eq:
  assumes "\<not> IsEIP4762 (chainRules E)"
  shows "call_absent E w snap caller addr gas val =
    Some (if \<not> isPrecompile E addr \<and> IsEIP158 (chainRules E) \<and> val = 0 then Inr ([], gas, None, w)
      else Inl (gas, writes (\<lambda>s. CreateAccount s addr) w))"
  using assms by (simp add: call_absent_def)

text \<open>The body of \<open>Call\<close> once the account exists.\<close>

definition call_body :: "env \<Rightarrow> runner \<Rightarrow> evm \<Rightarrow> address \<Rightarrow> address \<Rightarrow> bytes \<Rightarrow> u64 \<Rightarrow> u256 \<Rightarrow> callres" where
  "call_body E R w caller addr input gas val =
     (let w = writes (\<lambda>s. Transfer s caller addr val) w in
      case precompiles E addr of
        Some p \<Rightarrow> run_precompile p input gas w
      | None \<Rightarrow>
          let (code, w) = resolveCode E w addr in
          if length code = 0 then Some ([], gas, None, w)
          else
            let c = NewContract caller addr val gas;
                c = c\<lparr>IsSystemCall := isSystemCall caller\<rparr>;
                (h, w) = resolveCodeHash E w addr;
                c = SetCallCode c h code
            in run_contract R w c input False)"

lemma call_body_good:
  assumes w: "evm_ok clr E w" and w1: "softly E q w w1" and w2: "softly E q w1 w2" and R: "runs_ok clr E (depth w) R"
    and p: "precompiles_ok E" and input: "small input" and room: "roomy w gas" and q: "q \<Longrightarrow> readOnly w" "q \<Longrightarrow> val = 0"
  shows "body_res clr E q w w1 gas (call_body E R w2 caller addr input gas val)"
proof -
  define w3 where "w3 = writes (\<lambda>s. Transfer s caller addr val) w2"
  have ok2: "evm_ok clr E w2" using softly_ok [OF w softly_trans [OF w1 w2]] .
  have s3: "softly E q w1 w3" using softly_trans [OF w2 softly_Transfer [OF ok2 q(2)]] by (simp add: w3_def)
  have ok3: "evm_ok clr E w3" using softly_ok [OF w softly_trans [OF w1 s3]] .
  let ?v = "view (db w3)" let ?t = "code_target E (view (db w3)) addr"
  obtain w4 where code: "resolveCode E w3 addr = (vCodeAt ?v ?t, w4)" "still E w3 w4" using resolveCode_spec [OF ok3] by blast
  have ok4: "evm_ok clr E w4" and v4: "view (db w4) = ?v" using still_ok [OF ok3 code(2)] still_view [OF code(2)] .
  obtain w5 where h: "resolveCodeHash E w4 addr = (vCodeHashAt ?v ?t, w5)" "still E w4 w5"
    using resolveCodeHash_spec [OF ok4, of addr] v4 by auto
  have ok5: "evm_ok clr E w5" and v5: "view (db w5) = ?v" using still_ok [OF ok4 h(2)] still_view [OF h(2)] v4 by simp_all
  have s4: "softly E q w1 w4" using softly_trans [OF s3 softly_still [OF ok3 code(2)]] .
  have s5: "softly E q w1 w5" using softly_trans [OF s4 softly_still [OF ok4 h(2)]] .
  let ?c = "SetCallCode ((NewContract caller addr val gas)\<lparr>IsSystemCall := isSystemCall caller\<rparr>) (vCodeHashAt ?v ?t) (vCodeAt ?v ?t)"
  show ?thesis
  proof (cases "precompiles E addr")
    case (Some p')
    then show ?thesis using body_precompile [OF w p Some input w1 s3 order_refl] by (simp add: call_body_def flip: w3_def)
  next
    case None
    have eq: "call_body E R w2 caller addr input gas val =
      (if vCodeAt ?v ?t = [] then Some ([], gas, None, w4) else run_contract R w5 ?c input False)"
      using None by (simp add: call_body_def code(1) h(1) flip: w3_def)
    have "con_ok (keccak E) (?c\<lparr>Input := input\<rparr>)" if "vCodeAt ?v ?t \<noteq> []"
      using con_ok_call [OF ok5 input, of ?t] that v5 by simp
    then have "body_res clr E q w w1 gas (run_contract R w5 ?c input False)" if "vCodeAt ?v ?t \<noteq> []"
      using that q(1) by (intro body_run [OF w R w1 s5 _ _ room]) (auto simp: SetCallCode_def)
    moreover have "body_res clr E q w w1 gas (Some ([], gas, None, w4))"
      using evm_ok_weak [OF ok4] ok4 softly_sel [OF softly_trans [OF w1 s4]] softly_sel(1) [OF s4] by (simp add: body_res_def pot_def)
    ultimately show ?thesis by (simp add: eq)
  qed
qed

lemma Call_eq:
  assumes "\<not> IsEIP4762 (chainRules E)" and "(if val \<noteq> 0 then reads (\<lambda>s. CanTransfer s caller val) w else (True, w)) = (b, w1)"
    and "snapshot w1 = (j, w2)" and "reads (\<lambda>s. Exist s addr) w2 = (ex, w3)"
  shows "Call E R w caller addr input gas val =
    (if depth w > CallCreateDepth then Some ([], gas, Some ErrDepth, w)
     else if \<not> b then Some ([], gas, Some ErrInsufficientBalance, w1)
     else if \<not> ex \<and> \<not> isPrecompile E addr \<and> IsEIP158 (chainRules E) \<and> val = 0 then Some ([], gas, None, w3)
     else do { out \<leftarrow> call_body E R (if ex then w3 else writes (\<lambda>s. CreateAccount s addr) w3) caller addr input gas val; settle E j out })"
  by (simp add: Call_def assms(2,3,4) call_absent_eq [OF assms(1)] call_body_def Let_def)

lemma Call_good:
  assumes w: "evm_ok clr E w" and R: "depth w \<le> CallCreateDepth \<Longrightarrow> runs_ok clr E (depth w) R" and p: "precompiles_ok E"
    and i: "small input" and room: "roomy w gas" and e: "\<not> IsEIP4762 (chainRules E)" and v: "readOnly w \<Longrightarrow> val = 0"
  shows "static_res clr E (readOnly w) w gas (Call E R w caller addr input gas val)"
proof (cases "depth w > CallCreateDepth")
  case True
  then show ?thesis using static_res_still [OF w still_refl] by (simp add: Call_def)
next
  case False
  obtain b w1 where can: "(if val \<noteq> 0 then reads (\<lambda>s. CanTransfer s caller val) w else (True, w)) = (b, w1)" "still E w w1"
    using reads_CanTransfer [OF w, of caller val] by (cases "val = 0") auto
  obtain j w2 where s: "snapshot w1 = (j, w2)" by fastforce
  note st = still_sel [OF can(2)] and ok1 = still_ok [OF w can(2)]
  note s2 = snapshot_softly(1) [OF ok1 s]
  obtain w3 where ex: "reads (\<lambda>s. Exist s addr) w2 = (vAccounts (view (db w2)) addr \<noteq> None, w3)" "still E w2 w3"
    using reads_Exist [OF softly_ok [OF ok1 s2]] by blast
  have ok3: "evm_ok clr E w3" using still_ok [OF softly_ok [OF ok1 s2] ex(2)] .
  let ?q = "readOnly w" let ?absent = "vAccounts (view (db w2)) addr = None"
  have s3: "softly E ?q w2 w3" using softly_still [OF softly_ok [OF ok1 s2] ex(2)] .
  have c: "softly E ?q w2 (writes (\<lambda>s. CreateAccount s addr) w3)" if ?absent
    using softly_trans [OF s3 softly_CreateAccount [OF ok3]] that still_view [OF ex(2)] by simp
  have room1: "roomy w1 gas" using room softly_sel(2) [OF softly_still [OF w can(2), of False]] by (simp add: roomy_def pot_def)
  have body: "static_res clr E ?q w1 gas (do { out \<leftarrow> call_body E R x caller addr input gas val; settle E j out })" if "softly E ?q w2 x" for x
    by (rule settle_good [OF ok1 s call_body_good [OF ok1 s2 that]]) (use R False st p i room1 v in auto)
  have none: "static_res clr E ?q w1 gas (Some ([], gas, None, w3))"
    by (rule static_resI [where w' = w3])
      (use ok3 softly_sel [OF softly_trans [OF s2 s3]] st in \<open>auto simp: pot_def\<close>)
  have "static_res clr E ?q w1 gas (Call E R w caller addr input gas val)" if b
  proof -
    show ?thesis unfolding Call_eq [OF e can(1) s ex(1)] using False that none body [OF c] body [OF s3] by auto
  qed
  then have "static_res clr E ?q w gas (Call E R w caller addr input gas val)" if b using static_res_from [OF w can(2)] that by blast
  moreover have "Call E R w caller addr input gas val = Some ([], gas, Some ErrInsufficientBalance, w1)" if "\<not> b"
    using False that by (simp add: Call_def can(1))
  ultimately show ?thesis using static_res_still [OF w can(2), of ?q] by (cases b) simp_all
qed

section \<open>Contract creation\<close>

lemma cleared_upd_code: "cleared (v_upd a (\<lambda>w. w\<lparr>avCode := code, avData := (avData w)\<lparr>aCodeHash := h\<rparr>\<rparr>) v) = cleared v"
  by (auto simp: v_upd_def vget_defs cleared_def v_acct_def fresh_view_sel split: option.splits if_splits)

lemma world_ok_SetCode:
  assumes w: "world_ok clr H s" and l: "loaded s a" and c: "small code"
  shows "world_ok clr H (snd (SetCode H s a code))" "evolves H s (snd (SetCode H s a code))" "refund (snd (SetCode H s a code)) = refund s"
proof -
  let ?t = "snd (SetCode H s a code)"
  note spec = SetCode_spec [OF world_ok_sinv [OF w] l, of code]
  show e: "evolves H s ?t" using mutates_evolves [OF spec(1)] .
  show r: "refund ?t = refund s" using refund_view [of ?t s] by (simp add: spec(2) v_upd_def vRefund_upd)
  have "codes_small (view ?t)"
    using w c by (auto simp: world_ok_def codes_small_def spec(2) v_upd_def vget_defs split: option.splits if_splits)
  moreover have "zero_loaded ?t"
  proof -
    have "loaded ?t b" if "vCodeHashAt (view ?t) b = 0" for b
    proof (cases "b = a")
      case True
      then show ?thesis using evolves_loaded [OF e] l by blast
    next
      case False
      then have "vCodeHashAt (view s) b = 0" using that by (simp add: spec(2) v_upd_def vget_defs)
      then show ?thesis using w evolves_loaded [OF e] by (auto simp: world_ok_def zero_loaded_def)
    qed
    then show ?thesis by (simp add: zero_loaded_def)
  qed
  moreover have "refund_ok clr (view ?t)"
    using w by (simp add: world_ok_def refund_ok_def spec(2) cleared_upd_code) (simp add: v_upd_def)
  moreover have "storage_backed (reader ?t)" using w evolves_static(1) [OF e] by (simp add: world_ok_def)
  ultimately show "world_ok clr H ?t" using evolves_sinv [OF e] by (simp add: world_ok_def)
qed

definition init_res :: "nat \<Rightarrow> env \<Rightarrow> evm \<Rightarrow> Contract \<Rightarrow> (bytes \<times> vmerr option \<times> evm \<times> Contract) option \<Rightarrow> bool" where
  "init_res clr E w c r \<longleftrightarrow> (\<exists>ret err w' c'. r = Some (ret, err, w', c') \<and> evm_weak E w' \<and> follows E w w' \<and> small ret \<and> Gas c' \<le> Gas c
     \<and> (err = None \<or> err = Some ErrCodeStoreOutOfGas \<longrightarrow> evm_ok clr E w' \<and> pot w' (Gas c') \<le> pot w (Gas c) + 24000))"

lemma init_resI:
  "r = Some (ret, err, w', c') \<Longrightarrow> evm_weak E w' \<Longrightarrow> follows E w w' \<Longrightarrow> small ret \<Longrightarrow> Gas c' \<le> Gas c \<Longrightarrow>
   (err = None \<or> err = Some ErrCodeStoreOutOfGas \<longrightarrow> evm_ok clr E w' \<and> pot w' (Gas c') \<le> pot w (Gas c) + 24000) \<Longrightarrow> init_res clr E w c r"
  by (simp add: init_res_def)

lemma initNewContract_good:
  assumes w: "evm_ok clr E w" and R: "runs_ok clr E (depth w) R" and c: "con_ok (keccak E) (c\<lparr>Input := []\<rparr>)" and room: "roomy w (Gas c)"
    and l: "loaded (db w) address" and e: "\<not> IsEIP4762 (chainRules E)"
  shows "init_res clr E w c (initNewContract E R w c address)"
proof -
  have "run_res clr E (readOnly w \<or> False) w c (R w c [] False)" using R w c room unfolding runs_ok_def by blast
  then obtain ret err w' c' where r: "R w c [] False = Some (ret, err, w', c')" "evm_weak E w'" "follows E w w'" "small ret"
      "Gas c' \<le> Gas c" "err \<noteq> Some ErrCodeStoreOutOfGas" and post: "err = None \<Longrightarrow> evm_ok clr E w'"
      "err = None \<Longrightarrow> pot w' (Gas c') \<le> pot w (Gas c) + 24000"
    unfolding run_res_def by blast
  show ?thesis
  proof (cases "err = None \<and> \<not> (IsEIP158 (chainRules E) \<and> length ret > MaxCodeSize)
      \<and> \<not> (length ret \<ge> 1 \<and> ret ! 0 = 0xEF \<and> IsLondon (chainRules E))")
    case False
    then consider "err \<noteq> None" | "err = None" "IsEIP158 (chainRules E)" "length ret > MaxCodeSize"
      | "err = None" "\<not> (IsEIP158 (chainRules E) \<and> length ret > MaxCodeSize)" "length ret \<ge> 1 \<and> ret ! 0 = 0xEF \<and> IsLondon (chainRules E)"
      by metis
    then have "\<exists>err'. initNewContract E R w c address = Some (ret, err', w', c') \<and> err' \<noteq> None \<and> err' \<noteq> Some ErrCodeStoreOutOfGas"
      using r(1,6) by cases (auto simp: initNewContract_def)
    then obtain err' where "initNewContract E R w c address = Some (ret, err', w', c')" "err' \<noteq> None" "err' \<noteq> Some ErrCodeStoreOutOfGas"
      by blast
    then show ?thesis using r(2-5) by (intro init_resI [of _ ret err' w' c']) auto
  next
    case True
    obtain paid c2 where u: "UseGas c' (of_nat (length ret) * CreateDataGas) = (paid, c2)" by fastforce
    have g: "Gas c2 \<le> Gas c" using UseGas_spent [OF u] r(5) by (auto simp: spent_def)
    have p: "pot w' (Gas c2) \<le> pot w (Gas c) + 24000"
      using post(2) True UseGas_spent [OF u] by (auto simp: spent_def pot_def word_le_nat_alt)
    let ?w = "writes (\<lambda>s. snd (SetCode (keccak E) s address ret)) w'"
    have ok: "evm_ok clr E w'" using post True by blast
    have "loaded (db w') address" using l r(3) evolves_loaded by (auto simp: follows_def)
    note set = world_ok_SetCode [OF _ this r(4), of clr "keccak E"]
    have wd: "world_ok clr (keccak E) (db w')" using ok by (simp add: evm_ok_def)
    have okw: "evm_ok clr E ?w" using set(1) [OF wd] ok by (simp add: evm_ok_def writes_def)
    have f: "follows E w ?w" using r(3) evolves_trans set(2) [OF wd] by (auto simp: follows_def writes_def)
    have pw: "pot ?w (Gas c2) \<le> pot w (Gas c) + 24000" using p set(3) [OF wd] by (simp add: pot_def writes_def)
    have "initNewContract E R w c address = (if paid then Some (ret, None, ?w, c2) else Some (ret, Some ErrCodeStoreOutOfGas, w', c2))"
      using True r(1) e by (auto simp: initNewContract_def u)
    then show ?thesis
      using r(2-4) g p ok okw f pw evm_ok_weak [OF okw] by (auto intro!: init_resI [where E = E] split: if_splits)
  qed
qed

lemma soft_SetNonce: "evm_ok clr E w \<Longrightarrow> soft E w (writes (\<lambda>s. SetNonce s a n) w)"
  using SetNonce_spec [OF evm_ok_sinv, of clr E w a n]
  by (intro soft_writes refund_view) (simp_all add: tame_v_upd_data, simp_all add: v_upd_def)

lemma soft_AddAddress: "evm_ok clr E w \<Longrightarrow> soft E w (writes (\<lambda>s. AddAddressToAccessList s a) w)"
  using AddAddressToAccessList_spec [OF evm_ok_sinv, of clr E w a]
  by (intro soft_writes refund_view) simp_all

lemma soft_CreateContract:
  assumes "evm_ok clr E w" and "vAccounts (view (db w)) a \<noteq> None"
  shows "\<exists>s. CreateContract (db w) a = Some s \<and> soft E w (w\<lparr>db := s\<rparr>)"
proof -
  obtain x where x: "vAccounts (view (db w)) a = Some x" using assms(2) by blast
  obtain t where t: "CreateContract (db w) a = Some t" "mutates (keccak E) (db w) t"
    "view t = v_set a (Some (x\<lparr>avNewContract := True\<rparr>)) (view (db w))"
    using CreateContract_spec [OF evm_ok_sinv [OF assms(1)] x] by blast
  have "tame (view (db w)) (view t)" unfolding t(3) by (rule tame_set [OF x]) simp_all
  moreover have "refund t = refund (db w)" using refund_view [of t "db w"] t(3) by simp
  ultimately show ?thesis using t mutates_evolves unfolding soft_def by blast
qed

lemma soft_sel:
  assumes "soft E w w'"
  shows "depth w' = depth w" "loaded (db w) a \<Longrightarrow> loaded (db w') a" "roomy w gas \<Longrightarrow> roomy w' gas"
  using assms evolves_loaded by (auto simp: soft_def roomy_def pot_def)

lemma create_res_soft:
  assumes "evm_ok clr E w" and "soft E w w'" and "\<not> readOnly w" and "gas' \<le> gas"
  shows "create_res clr E w gas (Some ([], a, gas', err, w'))"
  using soft_ok [OF assms(1,2)] soft_after [OF assms(2,3)] soft_refund [OF assms(2)] assms(4)
  by (simp add: create_res_def pot_def word_le_nat_alt)

lemma create_res_from:
  assumes "evm_ok clr E w" and "soft E w w'" and "\<not> readOnly w" and "create_res clr E w' gas r"
  shows "create_res clr E w gas r"
proof -
  obtain ret addr gas' err w2 where "r = Some (ret, addr, gas', err, w2)" "evm_ok clr E w2" "after E w' w2" "small ret" "gas' \<le> gas"
    "pot w2 gas' \<le> pot w' gas + 24000" using assms(4) unfolding create_res_def by blast
  then show ?thesis using after_trans [OF soft_after [OF assms(2,3)]] soft_refund [OF assms(2)]
    by (auto simp: create_res_def pot_def)
qed

text \<open>The new account as it is when its init code starts.\<close>

lemma create_prepare:
  assumes w: "evm_ok clr E w" and s: "snapshot w = (i, w1)"
  shows "\<exists>ex w2 w3 w4. reads (\<lambda>s. Exist s a) w1 = (ex, w2) \<and> w3 = (if \<not> ex then writes (\<lambda>s. CreateAccount s a) w2 else w2)
    \<and> CreateContract (db w3) a = Some (db w4) \<and> w4 = w3\<lparr>db := db w4\<rparr> \<and> soft E w1 w4"
proof -
  have ok1: "evm_ok clr E w1" using softly_ok [OF w snapshot_softly(1) [OF w s]] .
  define ex where "ex \<longleftrightarrow> vAccounts (view (db w1)) a \<noteq> None"
  obtain w2 where x: "reads (\<lambda>s. Exist s a) w1 = (ex, w2)" "still E w1 w2" using reads_Exist [OF ok1, of a] unfolding ex_def by blast
  have ok2: "evm_ok clr E w2" and v2: "vAccounts (view (db w2)) a \<noteq> None \<longleftrightarrow> ex"
    using still_ok [OF ok1 x(2)] by (simp_all only: ex_def still_view [OF x(2)])
  define w3 where "w3 = (if \<not> ex then writes (\<lambda>s. CreateAccount s a) w2 else w2)"
  have "softly E False w2 w3" using softly_CreateAccount [OF ok2, of a] softly_refl [OF ok2] v2 by (auto simp: w3_def)
  then have s3: "soft E w1 w3" using soft_trans [OF soft_still [OF ok1 x(2)]] by (simp add: softly_def)
  have ok3: "evm_ok clr E w3" using soft_ok [OF ok1 s3] .
  have "vAccounts (view (db w3)) a \<noteq> None"
  proof (cases ex)
    case False
    then have "view (db w3) = v_set a (Some (fresh_view (view (db w2)) a)) (view (db w2))"
      using CreateAccount_spec(2) [OF evm_ok_sinv [OF ok2], of a] v2 by (simp add: w3_def writes_def)
    then show ?thesis by (simp add: v_set_def del: view_simps)
  qed (use v2 in \<open>simp add: w3_def\<close>)
  then obtain t where t: "CreateContract (db w3) a = Some t" "soft E w3 (w3\<lparr>db := t\<rparr>)"
    using soft_CreateContract [OF ok3] by blast
  then show ?thesis using x(1) soft_trans [OF s3 t(2)] unfolding w3_def [symmetric]
    by (intro exI [of _ ex] exI [of _ w2] exI [of _ w3] exI [of _ "w3\<lparr>db := t\<rparr>"]) (simp add: w3_def)
qed

lemma create_at_good:
  assumes w: "evm_ok clr E w" and ro: "\<not> readOnly w" and R: "runs_ok clr E (depth w) R" and code: "small code"
    and room: "roomy w gas" and l: "loaded (db w) address" and e: "\<not> IsEIP4762 (chainRules E)"
  shows "create_res clr E w gas (create_at E R w caller code gas val address)"
proof -
  obtain i w1 where s: "snapshot w = (i, w1)" by fastforce
  note s1 = snapshot_softly [OF w s] 
  have ok1: "evm_ok clr E w1" and soft1: "soft E w w1" using softly_ok [OF w s1(1)] s1(1) [of False] by (simp_all add: softly_def)
  obtain ex w2 w3 w4 where p: "reads (\<lambda>s. Exist s address) w1 = (ex, w2)" "w3 = (if \<not> ex then writes (\<lambda>s. CreateAccount s address) w2 else w2)"
      "CreateContract (db w3) address = Some (db w4)" "soft E w1 w4" "w4 = w3\<lparr>db := db w4\<rparr>"
    using create_prepare [OF w s, of address] by blast
  define w5 where "w5 = (if IsEIP158 (chainRules E) then writes (\<lambda>s. SetNonce s address 1) w4 else w4)"
  define w6 where "w6 = writes (\<lambda>s. Transfer s caller address val) w5"
  have ok4: "evm_ok clr E w4" using soft_ok [OF ok1 p(4)] .
  have s5: "soft E w4 w5" using soft_SetNonce [OF ok4] soft_still [OF ok4 still_refl] by (simp add: w5_def)
  have s6: "soft E w1 w6" using soft_trans [OF soft_trans [OF p(4) s5]] softly_Transfer [OF soft_ok [OF ok4 s5], of False] by (simp add: w6_def softly_def)
  note all = soft_trans [OF soft1 s6]
  have ok6: "evm_ok clr E w6" using soft_ok [OF ok1 s6] .
  let ?c = "(SetCallCode (NewContract caller address val gas) 0 code)\<lparr>IsDeployment := True\<rparr>"
  have "con_ok (keccak E) (?c\<lparr>Input := []\<rparr>)" using code by (simp add: con_ok_def SetCallCode_def)
  then have "init_res clr E w6 ?c (initNewContract E R w6 ?c address)"
    using R soft_sel(1) [OF all] room l by (intro initNewContract_good [OF ok6 _ _ _ soft_sel(2) [OF all] e]) (simp_all add: soft_sel(3) [OF all] SetCallCode_def)
  then obtain ret err w' c' where r: "initNewContract E R w6 ?c address = Some (ret, err, w', c')" "evm_weak E w'" "follows E w6 w'" "small ret"
      "Gas c' \<le> gas" and post: "err = None \<or> err = Some ErrCodeStoreOutOfGas \<Longrightarrow> evm_ok clr E w'"
      "err = None \<or> err = Some ErrCodeStoreOutOfGas \<Longrightarrow> pot w' (Gas c') \<le> pot w6 gas + 24000"
    unfolding init_res_def by (auto simp: SetCallCode_def)
  have f1: "follows E w1 w'" using follows_trans [OF soft_follows [OF s6] r(3)] .
  have f: "follows E w w'" using follows_trans [OF soft_follows [OF soft1] f1] .
  have eq: "create_at E R w caller code gas val address =
    (if err \<noteq> None \<and> (IsHomestead (chainRules E) \<or> err \<noteq> Some ErrCodeStoreOutOfGas) then do {
       w \<leftarrow> rollback E w' i;
       let c = (if err \<noteq> Some ErrExecutionReverted then snd (UseGas c' (Gas c')) else c');
       Some (ret, address, Gas c, err, w) }
     else Some (ret, address, Gas c', err, w'))"
    using e r(1) p(3)
    by (simp add: create_at_def s p(1) Let_def p(5) [symmetric] flip: p(2) w5_def w6_def split del: if_split cong: if_cong)
  show ?thesis
  proof (cases "err \<noteq> None \<and> (IsHomestead (chainRules E) \<or> err \<noteq> Some ErrCodeStoreOutOfGas)")
    case True
    obtain t where t: "RevertToSnapshot (keccak E) (db w') i = Some t" "view t = view (db w)" "evolves (keccak E) (db w) t"
      using sdb.rollback_snap [OF evm_ok_sinv [OF w] s1(2)] f1 by (auto simp: follows_def)
    have "evm_ok clr E (w'\<lparr>db := t\<rparr>)" using world_ok_restored [OF _ t(3,2)] w r(2) by (simp add: evm_ok_def evm_weak_def)
    moreover have "after E w (w'\<lparr>db := t\<rparr>)" using f t(3) ro by (simp add: after_def follows_def)
    moreover have "refund t = refund (db w)" using refund_view [of t "db w"] t(2) by simp
    moreover have "unat (Gas c') \<le> unat gas" using r(5) by (simp add: word_le_nat_alt)
    ultimately show ?thesis using True r(4,5) t(1) unfolding eq create_res_def rollback_def
      by (auto simp: pot_def UseGas_def)
  next
    case False
    then have "err = None \<or> err = Some ErrCodeStoreOutOfGas" by auto
    then show ?thesis using False f ro r(4,5) post soft_refund [OF all] unfolding eq create_res_def
      by (auto simp: after_def pot_def)
  qed
qed

text \<open>An address that does not collide has its code in the cache.\<close>

lemma collides_spec:
  assumes w: "evm_ok clr E w"
  shows "\<exists>b w'. collides w a = (b, w') \<and> still E w w' \<and> (\<not> b \<longrightarrow> loaded (db w') a)"
proof -
  let ?v = "view (db w)"
  obtain w1 where r1: "reads (\<lambda>s. GetCodeHash s a) w = (vCodeHashAt ?v a, w1)" "still E w w1" using reads_GetCodeHash [OF w] by blast
  obtain x w2 where r2: "reads (\<lambda>s. GetStorageRoot s a) w1 = (x, w2)" "still E w1 w2"
    using reads_GetStorageRoot [OF still_ok [OF w r1(2)]] by blast
  note s2 = still_trans [OF r1(2) r2(2)]
  obtain n w3 where r3: "reads (\<lambda>s. GetNonce s a) w2 = (n, w3)" "still E w2 w3" using reads_GetNonce [OF still_ok [OF w s2]] by blast
  note s3 = still_trans [OF s2 r3(2)]
  have "loaded (db w) a" if "vCodeHashAt ?v a = 0 \<or> vCodeHashAt ?v a = EmptyCodeHash"
    using w that by (auto simp: evm_ok_def world_ok_def zero_loaded_def loaded_def vCodeHashAt_def obj_view_def)
  then have "loaded (db w3) a" if "vCodeHashAt ?v a = 0 \<or> vCodeHashAt ?v a = EmptyCodeHash"
    using s3 that by (auto simp: still_def quiet_def)
  then show ?thesis using r1(1) r2(1) r3(1) s3 by (auto simp: collides_def Let_def)
qed

lemma create_good:
  assumes w: "evm_ok clr E w" and ro: "\<not> readOnly w" and R: "depth w \<le> CallCreateDepth \<Longrightarrow> runs_ok clr E (depth w) R" and code: "small code"
    and room: "roomy w gas" and e: "\<not> IsEIP4762 (chainRules E)"
  shows "create_res clr E w gas (create E R w caller code gas val address)"
proof (cases "depth w > CallCreateDepth")
  case True
  then show ?thesis using create_res_soft [OF w soft_still [OF w still_refl] ro order_refl] by (simp add: create_def)
next
  case False
  obtain b w1 where can: "reads (\<lambda>s. CanTransfer s caller val) w = (b, w1)" "still E w w1" using reads_CanTransfer [OF w] by blast
  obtain n w2 where nonce: "reads (\<lambda>s. GetNonce s caller) w1 = (n, w2)" "still E w1 w2"
    using reads_GetNonce [OF still_ok [OF w can(2)]] by blast
  have s2: "soft E w w2" using soft_still [OF w still_trans [OF can(2) nonce(2)]] .
  define w3 where "w3 = writes (\<lambda>s. SetNonce s caller (n + 1)) w2"
  have s3: "soft E w w3" using soft_trans [OF s2 soft_SetNonce [OF soft_ok [OF w s2]]] by (simp add: w3_def)
  define w4 where "w4 = (if IsEIP2929 (chainRules E) then writes (\<lambda>s. AddAddressToAccessList s address) w3 else w3)"
  have s4: "soft E w w4" using soft_trans [OF s3 soft_AddAddress [OF soft_ok [OF w s3]]] s3 by (simp add: w4_def)
  obtain c w5 where col: "collides w4 address = (c, w5)" "still E w4 w5" "\<not> c \<longrightarrow> loaded (db w5) address"
    using collides_spec [OF soft_ok [OF w s4]] by blast
  have s5: "soft E w w5" using soft_trans [OF s4 soft_still [OF soft_ok [OF w s4] col(2)]] .
  have "create_res clr E w5 gas (create_at E R w5 caller code gas val address)" if "\<not> c"
    by (rule create_at_good [OF soft_ok [OF w s5] _ _ code _ _ e])
      (use R False that col(3) room ro in \<open>simp_all add: soft_sel [OF s5] soft_readOnly [OF s5]\<close>)
  then have "create_res clr E w gas (create_at E R w5 caller code gas val address)" if "\<not> c"
    using create_res_from [OF w s5 ro] that by blast
  then show ?thesis
    using False e create_res_soft [OF w _ ro] soft_still [OF w can(2)] s2 s5
    by (simp add: create_def can(1) nonce(1) col(1) Let_def flip: w3_def w4_def)
qed

lemma Create_good:
  assumes w: "evm_ok clr E w" and ro: "\<not> readOnly w" and R: "depth w \<le> CallCreateDepth \<Longrightarrow> runs_ok clr E (depth w) R" and code: "small code"
    and room: "roomy w gas" and e: "\<not> IsEIP4762 (chainRules E)"
  shows "create_res clr E w gas (Create E R w caller code gas val)" "create_res clr E w gas (Create2 E R w caller code gas val salt)"
proof -
  obtain n w1 where n: "reads (\<lambda>s. GetNonce s caller) w = (n, w1)" "still E w w1" using reads_GetNonce [OF w] by blast
  note s = soft_still [OF w n(2)]
  have "create_res clr E w1 gas (create E R w1 caller code gas val (CreateAddress (keccak E) caller n))"
    by (rule create_good [OF soft_ok [OF w s] _ _ code _ e])
      (use R room ro in \<open>simp_all add: soft_sel [OF s] soft_readOnly [OF s]\<close>)
  then show "create_res clr E w gas (Create E R w caller code gas val)"
    using create_res_from [OF w s ro] by (simp add: Create_def n(1))
  show "create_res clr E w gas (Create2 E R w caller code gas val salt)"
    unfolding Create2_def by (rule create_good [OF w ro R code room e])
qed

section \<open>Tying the knot\<close>

lemma static_res_call: "static_res clr E q w gas r \<Longrightarrow> call_res clr E w gas r"
  by (simp add: static_res_def)

lemma calls_ok_step:
  assumes R: "d \<le> CallCreateDepth \<Longrightarrow> runs_ok clr E d R" and p: "precompiles_ok E" and e: "\<not> IsEIP4762 (chainRules E)"
  shows "calls_ok clr E d \<lparr>kCall = Call E R, kCallCode = CallCode E R, kDelegateCall = DelegateCall E R,
       kStaticCall = StaticCall E R, kCreate = Create E R, kCreate2 = Create2 E R\<rparr>"
  unfolding calls_ok_def
proof (intro allI impI, elim conjE, intro conjI allI impI, goal_cases)
  case (1 w gas input caller addr val)
  then show ?case using static_res_call [OF Call_good [OF 1(1) _ p 1(4,3) e]] R by simp
next
  case (2 w gas input caller addr val)
  then show ?case using static_res_call [OF CallCode_good [OF 2(1) _ p 2(4,3)]] R by simp
next
  case (3 w gas input orig caller addr val)
  then show ?case using static_res_call [OF DelegateCall_good [OF 3(1) _ p 3(4,3)]] R by simp
next
  case (4 w gas input caller addr)
  then show ?case using static_res_call [OF StaticCall_good [OF 4(1) _ p 4(4,3)]] R by simp
next
  case (5 w gas input caller val)
  then show ?case using Create_good(1) [OF 5(1) _ _ 5(4,3) e] R by simp
next
  case (6 w gas input caller val salt)
  then show ?case using Create_good(2) [OF 6(1) _ _ 6(4,3) e] R by simp
qed

text \<open>Every level of frames uses up one level of depth, so that \<open>CallCreateDepth + 2 - d\<close> levels are enough at depth \<open>d\<close>.\<close>

lemma calls_at_ok:
  assumes jt: "table_good clr E jt" and e: "\<not> IsEIP4762 (chainRules E)" and p: "precompiles_ok E"
  shows "1 \<le> n \<Longrightarrow> CallCreateDepth + 2 \<le> n + d \<Longrightarrow> calls_ok clr E d (calls_at n E jt)"
proof (induction n arbitrary: d)
  case (Suc n)
  have "runs_ok clr E d (Run E jt (calls_at n E jt))" if d: "d \<le> CallCreateDepth"
  proof -
    have "calls_ok clr E (d + 1) (calls_at n E jt)" using Suc.IH [of "d + 1"] Suc.prems d by simp
    then show ?thesis unfolding runs_ok_def using Run_good [OF jt e] by blast
  qed
  then show ?case using calls_ok_step [OF _ p e] by (simp add: Let_def)
qed simp

end
