(* ===== verification/State_Properties.thy ===== *)
theory State_Properties
  imports State_Ops
begin

text \<open>
  The promises of the state database to its clients: arbitrary sequences of its operations, run
  between a snapshot and a revert, leave no trace in the abstract world; and the journal implements
  snapshots that copy the whole world.
\<close>

section \<open>Programs over the database\<close>

datatype sop =
    OpLoad address
  | OpGetCode address
  | OpGetState address hash
  | OpAddBalance address u256
  | OpSubBalance address u256
  | OpSetBalance address u256
  | OpSetNonce address u64
  | OpSetCode address bytes
  | OpSetState address hash hash
  | OpSetTransient address hash hash
  | OpAddRefund u64
  | OpSubRefund u64
  | OpAddLog Log
  | OpAddPreimage hash bytes
  | OpSelfDestruct address
  | OpSelfDestruct6780 address
  | OpCreateAccount address
  | OpCreateContract address
  | OpWarmAddress address
  | OpWarmSlot address hash
  | OpSnapshot
  | OpRevert nat

fun run_op :: "(bytes \<Rightarrow> hash) \<Rightarrow> sop \<Rightarrow> StateDB \<Rightarrow> StateDB option" where
  "run_op H (OpLoad a) s = Some (snd (Exist s a))"
| "run_op H (OpGetCode a) s = Some (snd (GetCode s a))"
| "run_op H (OpGetState a k) s = Some (snd (GetState s a k))"
| "run_op H (OpAddBalance a x) s = Some (snd (AddBalance s a x))"
| "run_op H (OpSubBalance a x) s = Some (snd (SubBalance s a x))"
| "run_op H (OpSetBalance a x) s = Some (SetBalance s a x)"
| "run_op H (OpSetNonce a n) s = Some (SetNonce s a n)"
| "run_op H (OpSetCode a c) s = Some (snd (SetCode H s a c))"
| "run_op H (OpSetState a k v) s = Some (snd (SetState s a k v))"
| "run_op H (OpSetTransient a k v) s = Some (SetTransientState s a k v)"
| "run_op H (OpAddRefund g) s = Some (AddRefund s g)"
| "run_op H (OpSubRefund g) s = SubRefund s g"
| "run_op H (OpAddLog l) s = Some (AddLog s l)"
| "run_op H (OpAddPreimage h x) s = Some (AddPreimage s h x)"
| "run_op H (OpSelfDestruct a) s = Some (snd (SelfDestruct s a))"
| "run_op H (OpSelfDestruct6780 a) s = Some (snd (SelfDestruct6780 s a))"
| "run_op H (OpCreateAccount a) s = Some (CreateAccount s a)"
| "run_op H (OpCreateContract a) s = CreateContract s a"
| "run_op H (OpWarmAddress a) s = Some (AddAddressToAccessList s a)"
| "run_op H (OpWarmSlot a k) s = AddSlotToAccessList s a k"
| "run_op H OpSnapshot s = Some (snd (Snapshot s))"
| "run_op H (OpRevert i) s = RevertToSnapshot H s i"

text \<open>
  The conditions under which the callers in the repository use an operation: \<open>CreateAccount\<close> on an
  address that does not exist, \<open>CreateContract\<close> on one that does, \<open>SetCode\<close> on an account whose code
  has been read (or is empty), \<open>SubRefund\<close> within the counter, and \<open>RevertToSnapshot\<close> to a valid
  revision taken after \<open>base\<close>.
\<close>

fun op_allowed :: "nat \<Rightarrow> sop \<Rightarrow> StateDB \<Rightarrow> bool" where
  "op_allowed base (OpCreateAccount a) s = (\<not> fst (Exist s a))"
| "op_allowed base (OpCreateContract a) s = fst (Exist s a)"
| "op_allowed base (OpSetCode a c) s = loaded s a"
| "op_allowed base (OpSubRefund g) s = (g \<le> refund s)"
| "op_allowed base (OpRevert i) s = (base < i \<and> i \<in> rid ` set (validRevisions (sJournal s)))"
| "op_allowed base _ s = True"

fun run_ops :: "(bytes \<Rightarrow> hash) \<Rightarrow> sop list \<Rightarrow> StateDB \<Rightarrow> StateDB option" where
  "run_ops H [] s = Some s"
| "run_ops H (op # ops) s = Option.bind (run_op H op s) (run_ops H ops)"

fun ops_allowed :: "(bytes \<Rightarrow> hash) \<Rightarrow> nat \<Rightarrow> sop list \<Rightarrow> StateDB \<Rightarrow> bool" where
  "ops_allowed H base [] s = True"
| "ops_allowed H base (op # ops) s =
     (op_allowed base op s \<and> (case run_op H op s of None \<Rightarrow> True | Some t \<Rightarrow> ops_allowed H base ops t))"

lemma run_op_evolves:
  assumes inv: "sinv H s" and ok: "op_allowed base op s" and nr: "\<And>i. op \<noteq> OpRevert i"
  shows "\<exists>t. run_op H op s = Some t \<and> evolves H s t"
proof -
  note ok' = sinvD(1) [OF inv]
  note ev = mutates_evolves evolves_quiet [OF inv]
  show ?thesis
  proof (cases op)
    case (OpLoad a)
    then show ?thesis using Exist_spec [of s a H] by (auto intro: ev)
  next
    case (OpGetCode a)
    then show ?thesis using GetCode_spec [OF ok', of a] by (auto intro: ev)
  next
    case (OpGetState a k)
    then show ?thesis using GetState_spec [OF ok', of a k] by (auto intro: ev)
  next
    case (OpSetCode a c)
    then show ?thesis using SetCode_spec(1) [OF inv] ok by (auto intro: ev)
  next
    case (OpSubRefund g)
    then obtain t where "SubRefund s g = Some t"
      using ok by (auto simp: SubRefund_def Let_def journal_append_def not_less)
    then show ?thesis using OpSubRefund SubRefund_spec(1) [OF inv] by (auto intro: ev)
  next
    case (OpAddPreimage h x)
    then show ?thesis using AddPreimage_quiet [of H s h x] by (auto intro: ev)
  next
    case (OpSelfDestruct6780 a)
    then show ?thesis using SelfDestruct6780_spec [OF inv, of a] by (auto intro: ev)
  next
    case (OpCreateAccount a)
    then have "vAccounts (view s) a = None" using ok Exist_spec [of s a H] by auto
    then show ?thesis using OpCreateAccount CreateAccount_spec(1) [OF inv] by (auto intro: ev)
  next
    case (OpCreateContract a)
    then have "vAccounts (view s) a \<noteq> None" using ok Exist_spec [of s a H] by auto
    then obtain w where "vAccounts (view s) a = Some w" by blast
    from CreateContract_spec [OF inv this] OpCreateContract show ?thesis by (auto intro: ev)
  next
    case (OpWarmSlot a k)
    then show ?thesis using AddSlotToAccessList_spec [OF inv, of a k] by (auto intro: ev)
  next
    case OpSnapshot
    then show ?thesis using evolves_Snapshot [OF inv] by (metis prod.collapse run_op.simps(21))
  qed (use nr ev AddBalance_spec(1) [OF inv] SubBalance_spec(1) [OF inv] SetBalance_spec(1) [OF inv]
      SetNonce_spec(1) [OF inv] SetState_spec(1) [OF inv] SetTransientState_spec(1) [OF inv]
      AddRefund_spec(1) [OF inv] AddLog_spec [OF inv] SelfDestruct_spec(2) [OF inv]
      AddAddressToAccessList_spec(1) [OF inv] in auto)
qed

text \<open>Reverting to a snapshot taken after the base state still is an evolution of the base state.\<close>

lemma evolves_revert_inner:
  assumes base: "sinv H s" and ev: "evolves H s u" and i: "nextRevisionId (sJournal s) \<le> i"
    and v: "i \<in> rid ` set (validRevisions (sJournal u))"
  shows "\<exists>t. RevertToSnapshot H u i = Some t \<and> evolves H s t"
proof -
  let ?l = "length (entries (sJournal s))" and ?n = "length (validRevisions (sJournal s))"
  obtain es rs where u: "entries (sJournal u) = entries (sJournal s) @ es"
    "validRevisions (sJournal u) = validRevisions (sJournal s) @ rs"
    "\<forall>r \<in> set rs. nextRevisionId (sJournal s) \<le> rid r \<and> ?l \<le> journalIndex r"
    using ev unfolding evolves_def by blast
  have inv: "sinv H u" using evolves_sinv [OF ev] .
  obtain k where k: "k < length (validRevisions (sJournal u))" "rid (validRevisions (sJournal u) ! k) = i"
    using v by (auto simp: in_set_conv_nth)
  let ?r = "validRevisions (sJournal u) ! k"
  obtain t where t: "RevertToSnapshot H u i = Some t" "hist H u (journalIndex ?r) = Some (view t)"
    "entries (sJournal t) = take (journalIndex ?r) (entries (sJournal u))"
    "validRevisions (sJournal t) = take k (validRevisions (sJournal u))"
    "nextRevisionId (sJournal t) = nextRevisionId (sJournal u)"
    "sinv H t" "\<forall>b. loaded u b \<longrightarrow> loaded t b"
    using RevertToSnapshot_spec [OF inv k(1)] k(2) by auto
  have n: "?n \<le> k"
  proof (rule ccontr)
    assume "\<not> ?n \<le> k"
    then have "?r \<in> set (validRevisions (sJournal s))" by (simp add: u(2) nth_append)
    then show False using sinvD(4) [OF base] i k(2) by (auto simp: revs_ok_def)
  qed
  then have "?r \<in> set rs" using k(1) by (simp add: u(2) nth_append)
  then have l: "?l \<le> journalIndex ?r" using u(3) by blast
  have j: "journalIndex ?r \<le> length (entries (sJournal u))"
    using sinvD(4) [OF inv] k(1) by (simp add: revs_ok_def)
  have "hist H t x = hist H s x" if "x \<le> ?l" for x
    using hist_take [OF t(2,3) _ j, of x] that l ev by (simp add: evolves_def)
  moreover have "entries (sJournal t) = entries (sJournal s) @ take (journalIndex ?r - ?l) es"
    using l by (simp add: t(3) u(1))
  moreover have "validRevisions (sJournal t) = validRevisions (sJournal s) @ take (k - ?n) rs"
    using n by (simp add: t(4) u(2))
  moreover have "\<forall>r \<in> set (take (k - ?n) rs). nextRevisionId (sJournal s) \<le> rid r \<and> ?l \<le> journalIndex r"
    using u(3) by (auto dest: in_set_takeD)
  ultimately have "evolves H s t"
    using t(5,6,7) ev by (auto simp: evolves_def)
  with t(1) show ?thesis by blast
qed

lemma run_ops_evolves:
  assumes base: "sinv H s0" and ev: "evolves H s0 s" and i: "i < nextRevisionId (sJournal s0)"
    and ok: "ops_allowed H i ops s" and i': "nextRevisionId (sJournal s0) = Suc i"
  shows "\<exists>t. run_ops H ops s = Some t \<and> evolves H s0 t"
  using ev ok
proof (induction ops arbitrary: s)
  case (Cons op ops)
  have "\<exists>t. run_op H op s = Some t \<and> evolves H s0 t"
  proof (cases "\<exists>j. op = OpRevert j")
    case True
    then show ?thesis using evolves_revert_inner [OF base Cons.prems(1)] Cons.prems(2) i' by auto
  next
    case False
    then show ?thesis
      using run_op_evolves [OF evolves_sinv [OF Cons.prems(1)]] Cons.prems(2)
        evolves_trans [OF Cons.prems(1)] by fastforce
  qed
  then obtain t where "run_op H op s = Some t" "evolves H s0 t" by blast
  with Cons.IH [of t] Cons.prems(2) show ?case by simp
qed simp

section \<open>Properties\<close>


text \<open>A fresh database satisfies the invariant.\<close>

lemma sinv_New:
  assumes "hash_ok H" and "reader_ok H rd"
  shows "sinv H (NewWithReader rd)"
  using assms
  by (simp add: sinv_def sdb_ok_def hist_ok_def hist_def created_fresh_def revs_ok_def vwf_def
        NewWithReader_def newJournal_def)

definition empty_reader :: Reader where
  "empty_reader = \<lparr>rAccount = \<lambda>_. Inr None, rStorage = \<lambda>_ _. Inr 0,
     rCode = \<lambda>_ _. ([], None), rCodeSize = \<lambda>_ _. (0, None)\<rparr>"

lemma empty_reader_ok: "reader_ok H empty_reader"
  by (simp add: reader_ok_def empty_reader_def)


section \<open>Snapshots that copy\<close>

text \<open>
  The specification the journal implements: the current world, and a stack of saved copies of
  earlier worlds with their ids.
\<close>

record copies =
  cWorld :: sview
  cSaved :: "(nat \<times> sview) list"
  cNext :: nat

definition c_snapshot :: "copies \<Rightarrow> nat \<times> copies" where
  "c_snapshot c = (cNext c, c\<lparr>cSaved := cSaved c @ [(cNext c, cWorld c)], cNext := cNext c + 1\<rparr>)"

definition c_revert :: "nat \<Rightarrow> copies \<Rightarrow> copies option" where
  "c_revert i c = (case map_of (cSaved c) i of
     None \<Rightarrow> None
   | Some v \<Rightarrow> Some (c\<lparr>cWorld := v, cSaved := takeWhile (\<lambda>p. fst p \<noteq> i) (cSaved c)\<rparr>))"

definition saved :: "(bytes \<Rightarrow> hash) \<Rightarrow> StateDB \<Rightarrow> (nat \<times> sview) list" where
  "saved H s = map (\<lambda>r. (rid r, the (hist H s (journalIndex r)))) (validRevisions (sJournal s))"

definition abs_db :: "(bytes \<Rightarrow> hash) \<Rightarrow> StateDB \<Rightarrow> copies" where
  "abs_db H s = \<lparr>cWorld = view s, cSaved = saved H s, cNext = nextRevisionId (sJournal s)\<rparr>"

lemma saved_mutates:
  assumes "sinv H s" and "mutates H s t"
  shows "saved H t = saved H s"
  using assms unfolding saved_def
  by (intro map_cong) (auto simp: mutates_def evolves_def sinv_def revs_ok_def)

lemma abs_db_mutates:
  assumes "sinv H s" and "mutates H s t"
  shows "abs_db H t = (abs_db H s)\<lparr>cWorld := view t\<rparr>"
  using assms saved_mutates [OF assms] by (simp add: abs_db_def mutates_def)

lemma abs_db_Snapshot:
  assumes "sinv H s" and "Snapshot s = (i, t)"
  shows "c_snapshot (abs_db H s) = (i, abs_db H t)"
proof -
  have t: "t = s\<lparr>sJournal := (sJournal s)\<lparr>nextRevisionId := i + 1, validRevisions := validRevisions (sJournal s)
        @ [\<lparr>rid = i, journalIndex = length (entries (sJournal s))\<rparr>]\<rparr>\<rparr>"
    and i: "i = nextRevisionId (sJournal s)"
    using assms(2) by (auto simp: Snapshot_def j_snapshot_def Let_def)
  have v: "view t = view s" using evolves_Snapshot [OF assms] by simp
  then have h: "hist H t = hist H s" by (simp add: hist_def fun_eq_iff) (simp add: t)
  show ?thesis
    by (simp add: abs_db_def c_snapshot_def saved_def v h) (simp add: t i)
qed

lemma takeWhile_distinct_keys:
  "sorted_wrt (\<lambda>r r'. f r < (f r' :: nat)) rs \<Longrightarrow> k < length rs \<Longrightarrow>
     takeWhile (\<lambda>p. fst p \<noteq> f (rs ! k)) (map (\<lambda>r. (f r, g r)) rs) = take k (map (\<lambda>r. (f r, g r)) rs)"
proof (induction rs arbitrary: k)
  case (Cons r rs)
  then show ?case
  proof (cases k)
    case (Suc j)
    then have "f r \<noteq> f (rs ! j)" using Cons.prems by (auto dest: bspec [OF _ nth_mem])
    then show ?thesis using Cons Suc by simp
  qed simp
qed simp

lemma map_of_distinct_keys:
  "sorted_wrt (\<lambda>r r'. f r < (f r' :: nat)) rs \<Longrightarrow> k < length rs \<Longrightarrow>
     map_of (map (\<lambda>r. (f r, g r)) rs) (f (rs ! k)) = Some (g (rs ! k))"
proof (induction rs arbitrary: k)
  case (Cons r rs)
  then show ?case
  proof (cases k)
    case (Suc j)
    then have "f r \<noteq> f (rs ! j)" using Cons.prems by (auto dest: bspec [OF _ nth_mem])
    then show ?thesis using Cons Suc by simp
  qed simp
qed simp

lemma sort_Search_le: "a \<le> b \<Longrightarrow> sort_Search a b f \<le> b"
proof (induction a b f rule: sort_Search.induct)
  case (1 i j f)
  have "i < j \<Longrightarrow> i \<le> (i + j) div 2 \<and> (i + j) div 2 < j" by auto
  then show ?case
    using 1 by (subst sort_Search.simps) (auto simp: Let_def dest: le_less_trans intro: less_imp_le)
qed

lemma abs_db_RevertToSnapshot:
  assumes inv: "sinv H s"
  shows "map_option (abs_db H) (RevertToSnapshot H s i) = c_revert i (abs_db H s)"
proof (cases "i \<in> rid ` set (validRevisions (sJournal s))")
  case False
  let ?revs = "validRevisions (sJournal s)"
  have "rid (?revs ! k) \<noteq> i" if "k < length ?revs" for k using False that nth_mem by blast
  moreover have "sort_Search 0 (length ?revs) f \<le> length ?revs" for f by (simp add: sort_Search_le)
  ultimately have "RevertToSnapshot H s i = None"
    by (simp add: RevertToSnapshot_def Let_def) (metis le_neq_implies_less)
  moreover have "map_of (saved H s) i = None" using False by (force simp: map_of_eq_None_iff saved_def)
  ultimately show ?thesis by (simp add: c_revert_def abs_db_def)
next
  case True
  let ?revs = "validRevisions (sJournal s)"
  obtain k where k: "k < length ?revs" "rid (?revs ! k) = i" using True by (auto simp: in_set_conv_nth)
  obtain t where t: "RevertToSnapshot H s i = Some t" "hist H s (journalIndex (?revs ! k)) = Some (view t)"
    "entries (sJournal t) = take (journalIndex (?revs ! k)) (entries (sJournal s))"
    "validRevisions (sJournal t) = take k ?revs"
    "nextRevisionId (sJournal t) = nextRevisionId (sJournal s)" "sinv H t"
    using RevertToSnapshot_spec [OF inv k(1)] k(2) by auto
  have srt: "sorted_wrt (\<lambda>r r'. rid r < rid r' \<and> journalIndex r \<le> journalIndex r') ?revs"
    and bnd: "\<forall>r \<in> set ?revs. journalIndex r \<le> length (entries (sJournal s))"
    using sinvD(4) [OF inv] by (auto simp: revs_ok_def)
  have srt': "sorted_wrt (\<lambda>r r'. rid r < rid r') ?revs"
    using srt by (rule sorted_wrt_mono_rel [rotated]) simp
  have "hist H t (journalIndex r) = hist H s (journalIndex r)" if r: "r \<in> set (take k ?revs)" for r
  proof -
    obtain j where j: "j < k" "r = ?revs ! j" using r by (auto simp: in_set_conv_nth)
    then have "journalIndex r \<le> journalIndex (?revs ! k)"
      using sorted_wrt_nth_less [OF srt j(1) k(1)] by simp
    then show ?thesis using hist_take [OF t(2,3)] bnd k(1) by simp
  qed
  then have "saved H t = take k (saved H s)"
    unfolding saved_def t(4) take_map by (intro map_cong) simp_all
  moreover have "map_of (saved H s) i = Some (view t)"
    using map_of_distinct_keys [OF srt' k(1), of "\<lambda>r. the (hist H s (journalIndex r))"] t(2) by (simp add: saved_def k(2))
  moreover have "takeWhile (\<lambda>p. fst p \<noteq> i) (saved H s) = take k (saved H s)"
    using takeWhile_distinct_keys [OF srt' k(1), of "\<lambda>r. the (hist H s (journalIndex r))"] by (simp add: saved_def k(2))
  ultimately show ?thesis using t(1,5) by (simp add: c_revert_def abs_db_def)
qed

text \<open>
  Property C8. The journal refines snapshots by copying: \<open>Snapshot\<close> saves the current world under
  the next id, and \<open>RevertToSnapshot\<close> makes the saved world current again and drops it and all later
  copies, or panics exactly when no copy has that id.
\<close>

theorem journal_refines_copying:
  assumes "sinv H s"
  shows "c_snapshot (abs_db H s) = (fst (Snapshot s), abs_db H (snd (Snapshot s)))
    \<and> map_option (abs_db H) (RevertToSnapshot H s i) = c_revert i (abs_db H s)"
  using abs_db_Snapshot [OF assms, of "fst (Snapshot s)" "snd (Snapshot s)"] abs_db_RevertToSnapshot [OF assms]
  by simp_all

theorem journal_refines_copying_witness:
  "c_snapshot (abs_db (\<lambda>_. EmptyCodeHash) (NewWithReader empty_reader))
     = (0, abs_db (\<lambda>_. EmptyCodeHash) (snd (Snapshot (NewWithReader empty_reader))))
   \<and> RevertToSnapshot (\<lambda>_. EmptyCodeHash) (NewWithReader empty_reader) 7 = None"
proof -
  have inv: "sinv (\<lambda>_. EmptyCodeHash) (NewWithReader empty_reader)"
    by (rule sinv_New) (simp_all add: hash_ok_def empty_reader_ok)
  show ?thesis
    using journal_refines_copying [OF inv, of 7]
    by (simp add: Snapshot_def j_snapshot_def Let_def c_revert_def abs_db_def saved_def)
      (simp add: NewWithReader_def newJournal_def)
qed

end
