(* ===== verification/VM_Properties.thy ===== *)
theory VM_Properties
  imports VM_RunProofs State_Properties
begin

text \<open>
  What the EVM promises its callers: the call operations return, gas does not grow, failures restore
  the world, static calls leave it alone, and the interpreter's steps preserve its invariants.
\<close>

section \<open>The setting\<close>

text \<open>
  An environment of a chain without Verkle, its instruction set, an EVM in a consistent state and an
  amount of gas that is not astronomic: the gas, in units of a thousandth, fits into 64 bits beside the refund counter.
\<close>

definition vm_ready :: "env \<Rightarrow> JumpTable \<Rightarrow> evm \<Rightarrow> u64 \<Rightarrow> bool" where
  "vm_ready E jt w gas \<longleftrightarrow> env_ok E \<and> precompiles_ok E \<and> select_table (chainRules E) = Some jt
     \<and> evm_ok (clears (chainRules E)) E w \<and> roomy w gas"

lemma vm_ready_table:
  assumes "vm_ready E jt w gas"
  shows "table_good (clears (chainRules E)) E jt" "\<not> IsEIP4762 (chainRules E)" "precompiles_ok E"
    "evm_ok (clears (chainRules E)) E w" "roomy w gas"
  using assms selected_table_good [of E] by (auto simp: vm_ready_def env_ok_def frontier_env_def)

lemma evm_calls_ok:
  assumes "vm_ready E jt w gas"
  shows "calls_ok (clears (chainRules E)) E d (evm_calls E jt)"
  unfolding evm_calls_def using calls_at_ok [OF vm_ready_table(1-3) [OF assms]] by simp

text \<open>The runner behind the calls of the outermost level.\<close>

lemma evm_runs_ok:
  assumes "vm_ready E jt w gas" and "d \<le> CallCreateDepth"
  shows "runs_ok (clears (chainRules E)) E d (Run E jt (calls_at (CallCreateDepth + 1) E jt))"
proof -
  have "calls_ok (clears (chainRules E)) E (d + 1) (calls_at (CallCreateDepth + 1) E jt)"
    by (rule calls_at_ok [OF vm_ready_table(1-3) [OF assms(1)]]) simp_all
  then show ?thesis unfolding runs_ok_def using Run_good [OF vm_ready_table(1,2) [OF assms(1)]] by blast
qed

lemma evm_calls_unfold:
  "evm_calls E jt = (let R = Run E jt (calls_at (CallCreateDepth + 1) E jt) in
      \<lparr>kCall = Call E R, kCallCode = CallCode E R, kDelegateCall = DelegateCall E R,
       kStaticCall = StaticCall E R, kCreate = Create E R, kCreate2 = Create2 E R\<rparr>)"
  unfolding evm_calls_def using calls_at.simps(2) [of "CallCreateDepth + 1" E jt] by simp

section \<open>A concrete setting\<close>

text \<open>A hash that is the length of its argument, a chain with all forks before Verkle and an empty database.\<close>

definition demo_hash :: "bytes \<Rightarrow> hash" where
  "demo_hash b = EmptyCodeHash + of_nat (length b)"

definition demo_rules :: Rules where
  "demo_rules = \<lparr>rChainID = 1, IsHomestead = True, IsEIP150 = True, IsEIP155 = True, IsEIP158 = True, IsEIP2929 = True,
     IsEIP4762 = False, IsByzantium = True, IsConstantinople = True, IsPetersburg = True, IsIstanbul = True, IsBerlin = True,
     IsLondon = True, IsMerge = True, IsShanghai = True, IsCancun = True, IsPrague = True, IsOsaka = False, IsVerkle = False\<rparr>"

definition demo_lib :: lib where
  "demo_lib = \<lparr>keccak256 = demo_hash, u_Div = (\<lambda>x y. x div y), u_SDiv = (\<lambda>x y. of_int (sgn (sint x) * sgn (sint y) * (\<bar>sint x\<bar> div \<bar>sint y\<bar>))),
     u_Mod = (\<lambda>x y. if y = 0 then 0 else x mod y), u_SMod = (\<lambda>x y. if y = 0 then 0 else of_int (sgn (sint x) * (\<bar>sint x\<bar> mod \<bar>sint y\<bar>))),
     u_Exp = (\<lambda>x y. x ^ unat y), u_ExtendSign = (\<lambda>x y. x), u_Byte = (\<lambda>x y. x),
     u_AddMod = (\<lambda>x y z. if z = 0 then 0 else of_nat ((unat x + unat y) mod unat z)),
     u_MulMod = (\<lambda>x y z. if z = 0 then 0 else of_nat ((unat x * unat y) mod unat z)),
     u_SRsh = (\<lambda>x n. signed_drop_bit n x), u_BitLen = (\<lambda>x. length (dropWhile Not (rev (map (bit x) [0..<256]))))\<rparr>"

definition demo_env :: env where
  "demo_env = \<lparr>eLib = demo_lib, chainRules = demo_rules, ChainID = Some 1, precompiles = (\<lambda>_. None), EnablePreimageRecording = False,
     aborts = (\<lambda>_. False), GetHash = (\<lambda>_. 0), Coinbase = 0, GasLimit = 30000000, BlockNumber = 1, Time = 1, Difficulty = Some 0,
     BaseFee = Some 7, BlobBaseFee = Some 1, Random = Some 0, Origin = 1, GasPrice = Some 7, BlobHashes = []\<rparr>"

text \<open>One account, at address 1, that holds 100.\<close>

definition demo_reader :: Reader where
  "demo_reader = \<lparr>rAccount = (\<lambda>a. Inr (if a = 1 then Some (NewEmptyStateAccount\<lparr>Balance := 100\<rparr>) else None)),
     rStorage = (\<lambda>_ _. Inr 0), rCode = (\<lambda>_ _. ([], None)), rCodeSize = (\<lambda>_ _. (0, None))\<rparr>"

definition demo_evm :: evm where
  "demo_evm = \<lparr>db = NewWithReader demo_reader, depth = 0, readOnly = False, returnData = [], callGasTemp = 0,
     jumpDests = (\<lambda>_. None), accessEvents = None, loads = 0\<rparr>"

lemma demo_hash_sized: "hash_sized demo_hash"
proof -
  have "length x = length y" if "small x" "small y" "(of_nat (length x) :: hash) = of_nat (length y)" for x y
  proof -
    have "length x < 2 ^ 256" "length y < 2 ^ 256" using that(1,2) by (simp_all add: small_def)
    then show ?thesis using that(3) by (simp add: word_unat_eq_iff unat_of_nat)
  qed
  then show ?thesis by (auto simp: hash_sized_def demo_hash_def)
qed

lemma demo_env_ok: "env_ok demo_env" "precompiles_ok demo_env" "chainRules demo_env = demo_rules" "keccak demo_env = demo_hash"
  using demo_hash_sized
  by (simp_all add: env_ok_def frontier_env_def precompiles_ok_def demo_env_def demo_rules_def demo_lib_def)

lemma demo_view:
  "vAccounts (view (NewWithReader demo_reader)) a = (if a = 1 then Some \<lparr>avData = NewEmptyStateAccount\<lparr>Balance := 100\<rparr>, avCode = [],
     avState = (\<lambda>_. 0), avCommitted = (\<lambda>_. 0), avSelfDestructed = False, avNewContract = False\<rparr> else None)"
  by (auto simp: peek_obj_def base_obj_def NewWithReader_def demo_reader_def obj_view_def newObject_def code_of_def NewEmptyStateAccount_def
      committed_of_def fun_eq_iff)

lemma demo_world_ok: "world_ok clr demo_hash (NewWithReader demo_reader)"
proof -
  let ?v = "view (NewWithReader demo_reader)"
  have "reader_ok demo_hash demo_reader" by (simp add: reader_ok_def demo_reader_def)
  then have "sinv demo_hash (NewWithReader demo_reader)" by (intro sinv_New) (simp_all add: hash_ok_def demo_hash_def)
  moreover have "cleared ?v = {}" by (auto simp: cleared_def vget_defs demo_view simp del: view_simps)
  then have "refund_ok clr ?v" by (simp add: refund_ok_def)
  moreover have "codes_small ?v" by (auto simp: codes_small_def small_def vget_defs demo_view simp del: view_simps)
  moreover have "zero_loaded (NewWithReader demo_reader)"
    by (auto simp: zero_loaded_def loaded_def peek_obj_def base_obj_def NewWithReader_def demo_reader_def newObject_def NewEmptyStateAccount_def
      split: if_splits)
  moreover have "storage_backed (reader (NewWithReader demo_reader))"
    by (simp add: storage_backed_def NewWithReader_def demo_reader_def)
  ultimately show ?thesis by (simp add: world_ok_def)
qed

lemma demo_ready: "vm_ready demo_env prague_tbl demo_evm 100000"
proof -
  have "evm_ok clr demo_env demo_evm" for clr
    using demo_world_ok demo_env_ok by (simp add: evm_ok_def demo_evm_def small_def jd_ok_def)
  moreover have "roomy demo_evm 100000"
    by (simp add: roomy_def pot_def demo_evm_def NewWithReader_def)
  ultimately show ?thesis using demo_env_ok by (simp add: vm_ready_def select_table_def demo_rules_def prague_table)
qed

text \<open>A frame about to add two numbers.\<close>

definition demo_scope :: scope where
  "demo_scope = \<lparr>Mem = NewMemory, Stk = [2, 3], Con = (NewContract 1 2 0 100000)\<lparr>Code := [ADD]\<rparr>\<rparr>"

lemma demo_scope_ok: "frame_ok demo_env demo_scope" "Gas (Con demo_scope) = 100000" "length (Stk demo_scope) = 2"
  by (simp_all add: demo_scope_def frame_ok_def mem_wf_New con_ok_def NewContract_def small_def)

lemma demo_sel: "depth demo_evm = 0" "readOnly demo_evm = False" "db demo_evm = NewWithReader demo_reader"
  by (simp_all add: demo_evm_def)

section \<open>Helpers for the properties\<close>

text \<open>The four kinds of call with the same arguments.\<close>

definition call_kinds ::
  "calls \<Rightarrow> evm \<Rightarrow> address \<Rightarrow> address \<Rightarrow> address \<Rightarrow> bytes \<Rightarrow> u64 \<Rightarrow> u256 \<Rightarrow> callres list" where
  "call_kinds K w orig caller addr input gas val =
     [kCall K w caller addr input gas val, kCallCode K w caller addr input gas val,
      kDelegateCall K w orig caller addr input gas val, kStaticCall K w caller addr input gas]"

lemma call_kinds_res:
  assumes v: "vm_ready E jt w gas" and i: "small input" and ro: "readOnly w \<longrightarrow> val = 0"
    and r: "r \<in> set (call_kinds (evm_calls E jt) w orig caller addr input gas val)"
  shows "call_res (clears (chainRules E)) E w gas r"
proof -
  note k = evm_calls_ok [OF v, of "depth w", unfolded calls_ok_def, rule_format, of w gas input]
  have "evm_ok (clears (chainRules E)) E w \<and> depth w = depth w \<and> roomy w gas \<and> small input"
    using vm_ready_table(4,5) [OF v] i by simp
  then show ?thesis using k r ro unfolding call_kinds_def by auto
qed

lemma run_loop_more:
  "run_loop n E jt k pc w sc = Some r \<Longrightarrow> n \<le> m \<Longrightarrow> run_loop m E jt k pc w sc = Some r"
proof (induction n arbitrary: m pc w sc)
  case (Suc n)
  then obtain j where m: "m = Suc j" "n \<le> j" using Suc.prems(2) by (cases m) auto
  obtain x where x: "run_step E jt k pc w sc = Some x" using Suc.prems(1) by (cases "run_step E jt k pc w sc") auto
  show ?case using Suc.prems(1) Suc.IH [OF _ m(2)] x m(1) by (cases x) auto
qed simp

lemma frozen_reads:
  assumes f: "frozen (view s) (view t)" and b: "storage_backed (reader s)"
  shows "vBal (view t) a = vBal (view s) a" "vNonceAt (view t) a = vNonceAt (view s) a" "vCodeAt (view t) a = vCodeAt (view s) a"
    "vStateAt (view t) a k = vStateAt (view s) a k" "vDestructedAt (view t) a = vDestructedAt (view s) a"
    "vLogs (view t) = vLogs (view s)" "vTransient (view t) = vTransient (view s)" "vRefund (view t) = vRefund (view s)"
proof -
  obtain al as where v: "view t = (view s)\<lparr>vAccessList := al, vAccounts := as\<rparr>"
    "as a = vAccounts (view s) a \<or> vAccounts (view s) a = None \<and> as a = Some (fresh_view (view s) a)"
    using f unfolding frozen_def by blast
  show "vLogs (view t) = vLogs (view s)" "vTransient (view t) = vTransient (view s)" "vRefund (view t) = vRefund (view s)"
    unfolding v(1) by simp_all
  have z: "avState (fresh_view (view s) a) k = 0" if "vAccounts (view s) a = None"
    using fresh_committed [OF that b] fresh_view_sel(1) by simp
  have d: "Balance (avData (fresh_view (view s) a)) = 0" "Nonce (avData (fresh_view (view s) a)) = 0"
    "avSelfDestructed (fresh_view (view s) a) = False"
    by (simp_all add: fresh_view_def obj_view_def newObject_def NewEmptyStateAccount_def)
  show "vBal (view t) a = vBal (view s) a" "vNonceAt (view t) a = vNonceAt (view s) a" "vCodeAt (view t) a = vCodeAt (view s) a"
    "vStateAt (view t) a k = vStateAt (view s) a k" "vDestructedAt (view t) a = vDestructedAt (view s) a"
    using v(2) z d fresh_view_sel(2) unfolding v(1) by (auto simp: vget_defs simp del: view_simps split: option.split)
qed

section \<open>Properties\<close>




lemma demo_Call_poor:
  "kCall (evm_calls demo_env prague_tbl) demo_evm 1 2 [] 100000 101
     = Some ([], 100000, Some ErrInsufficientBalance, demo_evm\<lparr>db := snd (GetBalance (db demo_evm) 1)\<rparr>)"
proof -
  have "fst (GetBalance (NewWithReader demo_reader) 1) = 100"
    using GetBalance_spec [of "NewWithReader demo_reader" 1 demo_hash] by (auto simp: vBal_def demo_view simp del: view_simps)
  then show ?thesis
    by (simp add: evm_calls_unfold Let_def Call_def reads_def CanTransfer_def split_def) (simp add: demo_evm_def)
qed



lemma demo_StaticCall:
  "\<exists>ret gas' err w'. kStaticCall (evm_calls demo_env prague_tbl) demo_evm 1 2 [] 100000 = Some (ret, gas', err, w')"
  using call_kinds_res [OF demo_ready, of "[]" 0 "kStaticCall (evm_calls demo_env prague_tbl) demo_evm 1 2 [] 100000" 1 1 2]
  by (auto simp: small_def call_kinds_def call_res_def)










lemma vBal_Transfer:
  assumes "sinv H s" and "x \<noteq> y"
  shows "vBal (view (Transfer s x y v)) a = vBal (view s) a + (if a = y then v else if a = x then - v else 0)"
proof -
  let ?t = "snd (SubBalance s x v)"
  note sub = SubBalance_spec [OF assms(1), of x v]
  note add = AddBalance_spec(2) [OF mutates_sinv [OF sub(1)], of y v]
  have upd: "vBal (v_add_balance b z u) a = vBal u a + (if a = b then z else 0)" for b z u
    by (auto simp: v_add_balance_def v_upd_def v_acct_def vget_defs fresh_view_def obj_view_def newObject_def NewEmptyStateAccount_def split: option.split)
  show ?thesis using assms(2) by (simp add: Transfer_def add sub(2) upd)
qed



text \<open>
  Property C13. Every instruction set is complete: whatever the rules of the block, the table the interpreter selects exists, that is, no update
  hits a missing entry and validation passes, every byte has an operation, and every operation that asks for memory has a gas function.
\<close>

theorem instruction_sets_complete:
  "\<exists>jt. select_table rules = Some jt \<and> (\<forall>b. \<exists>op. jt b = Some op \<and> (memorySize op = None \<or> dynamicGas op \<noteq> None))"
proof -
  have "\<exists>jt. select_table rules = Some jt \<and> complete jt"
    using verkle_table by (auto simp: select_table_def fork_tables)
  then show ?thesis by (simp only: complete_def op_sound_def imp_conv_disj not_not)
qed

theorem instruction_sets_complete_witness:
  "\<exists>op. prague_tbl 0x20 = Some op \<and> memorySize op \<noteq> None \<and> dynamicGas op \<noteq> None"
proof -
  have "select_table demo_rules = Some prague_tbl" by (simp add: select_table_def demo_rules_def prague_table)
  then obtain op where op: "prague_tbl KECCAK256 = Some op" "memorySize op = None \<or> dynamicGas op \<noteq> None"
    using instruction_sets_complete [of demo_rules] by (simp only: option.inject) metis
  moreover have "prague_tbl KECCAK256 = frontier_tbl KECCAK256" by (simp add: late_tbl_defs early_tbl_defs)
  then have "prague_tbl KECCAK256 = Some (mem_op opKeccak256 Keccak256Gas gasKeccak256 (minStack 2 1) (maxStack 2 1) memoryKeccak256)"
    by (simp add: frontier_tbl_def frontier_defs)
  ultimately show ?thesis by (auto simp: mem_op_def)
qed



end
