(* ===== verification/Spec2Isabelle.thy ===== *)
theory Spec2Isabelle
  imports VM_Properties
begin

text \<open>
  A verification library for the Ethereum virtual machine of \<open>src/go-ethereum\<close>.
\<close>

end
